(* ===== verification/Prelude.thy ===== *)
theory Prelude
  imports Main "HOL-Library.Word" "HOL-Library.AList"
begin

text \<open>
  Shared vocabulary of the development: the machine integers of the Rust sources as words,
  the outcome type of fallible code, little-endian byte encoding
  (\<^verbatim>\<open>from_le_bytes\<close> and \<^verbatim>\<open>to_le_bytes\<close> of the Rust integer types), decimal and
  hexadecimal printing (\<^verbatim>\<open>Display\<close> and \<^verbatim>\<open>{:02x}\<close>), and the hash map of the Rust standard
  library as an association list. The collections \<open>byte_simps\<close> and \<open>hm_simps\<close> carry the
  component proofs.
\<close>

unbundle bit_operations_syntax

section \<open>Machine integers\<close>

type_synonym u8 = "8 word"
type_synonym u16 = "16 word"
type_synonym u32 = "32 word"
type_synonym u64 = "64 word"

text \<open>
  Signed integers \<open>i32\<close> and \<open>i64\<close> of the sources are \<open>int\<close> values obtained with
  \<^const>\<open>sint\<close>; \<open>usize\<close> is \<open>nat\<close> (the lengths and offsets of the decoders stay far
  below the range of the machine word). Floating-point values are carried as their bit patterns: the modelled code only
  moves them.
\<close>

type_synonym f32 = u32
type_synonym f64 = u64

section \<open>Outcomes of fallible code\<close>

text \<open>
  \<open>Result<T, E>\<close> of Rust with the third possibility made explicit: the code panics
  (an index or slice out of range, an overflow in a build with overflow checks). Functions
  that return \<open>Option<T>\<close> and may panic use \<open>(unit, 'a) res\<close>, \<open>None\<close> being \<open>Err ()\<close>.
\<close>

datatype ('e, 'a) res = Ok 'a | Err 'e | Panic

fun bind_res :: "('e, 'a) res \<Rightarrow> ('a \<Rightarrow> ('e, 'b) res) \<Rightarrow> ('e, 'b) res" where
  "bind_res (Ok x) f = f x"
| "bind_res (Err e) f = Err e"
| "bind_res Panic f = Panic"

lemma bind_res_Ok_iff:
  "bind_res m f = Ok y \<longleftrightarrow> (\<exists>x. m = Ok x \<and> f x = Ok y)"
  by (cases m) auto

lemma bind_res_Panic_iff:
  "bind_res m f = Panic \<longleftrightarrow> m = Panic \<or> (\<exists>x. m = Ok x \<and> f x = Panic)"
  by (cases m) auto

fun ok_or :: "'e \<Rightarrow> 'a option \<Rightarrow> ('e, 'a) res" where
  "ok_or e None = Err e"
| "ok_or e (Some x) = Ok x"

lemma ok_or_not_Panic [simp]: "ok_or e x \<noteq> Panic"
  by (cases x) auto

lemma ok_or_Ok_iff [simp]: "ok_or e x = Ok y \<longleftrightarrow> x = Some y"
  by (cases x) auto

text \<open>\<open>yields m P\<close>: no panic, and a result satisfies \<open>P\<close>.\<close>

definition yields :: "('e, 'a) res \<Rightarrow> ('a \<Rightarrow> bool) \<Rightarrow> bool" where
  "yields m P \<longleftrightarrow> m \<noteq> Panic \<and> (\<forall>x. m = Ok x \<longrightarrow> P x)"

named_theorems yields_intros \<open>composition rules of \<open>yields\<close>\<close>

lemma yields_bind:
  "yields m P \<Longrightarrow> (\<And>x. P x \<Longrightarrow> yields (f x) R) \<Longrightarrow> yields (bind_res m f) R"
  by (cases m) (auto simp: yields_def)

lemma yields_Ok [yields_intros]: "P x \<Longrightarrow> yields (Ok x) P"
  by (simp add: yields_def)

lemma yields_Err [yields_intros]: "yields (Err e) P"
  by (simp add: yields_def)

lemma yields_if [yields_intros]:
  "(c \<Longrightarrow> yields m P) \<Longrightarrow> (\<not> c \<Longrightarrow> yields n P) \<Longrightarrow> yields (if c then m else n) P"
  by simp

lemma yields_ok_or [yields_intros]: "(\<And>y. x = Some y \<Longrightarrow> P y) \<Longrightarrow> yields (ok_or e x) P"
  by (cases x) (auto simp: yields_def)

lemma yields_bind_ok_or [yields_intros]:
  "(\<And>y. x = Some y \<Longrightarrow> yields (f y) R) \<Longrightarrow> yields (bind_res (ok_or e x) f) R"
  by (cases x) (auto simp: yields_def)

lemma yields_case_prod [yields_intros]:
  "(\<And>a b. x = (a, b) \<Longrightarrow> yields (f a b) P) \<Longrightarrow> yields (case x of (a, b) \<Rightarrow> f a b) P"
  by (cases x) simp

lemma yields_mono: "yields m P \<Longrightarrow> (\<And>x. P x \<Longrightarrow> Q x) \<Longrightarrow> yields m Q"
  by (auto simp: yields_def)

text \<open>A slice \<open>xs[a..b]\<close>: a panic unless \<open>a \<le> b \<le> xs.len()\<close>.\<close>

definition slice :: "nat \<Rightarrow> nat \<Rightarrow> 'a list \<Rightarrow> ('e, 'a list) res" where
  "slice a b xs = (if a \<le> b \<and> b \<le> length xs then Ok (take (b - a) (drop a xs)) else Panic)"

text \<open>An element \<open>xs[i]\<close>: a panic unless \<open>i < xs.len()\<close>.\<close>

definition index :: "'a list \<Rightarrow> nat \<Rightarrow> ('e, 'a) res" where
  "index xs i = (if i < length xs then Ok (xs ! i) else Panic)"

lemma slice_Ok: "a \<le> b \<Longrightarrow> b \<le> length xs \<Longrightarrow> slice a b xs = Ok (take (b - a) (drop a xs))"
  by (simp add: slice_def)

lemma slice_not_Err [simp]: "slice a b xs \<noteq> Err e"
  by (simp add: slice_def)

lemma index_Ok: "i < length xs \<Longrightarrow> index xs i = Ok (xs ! i)"
  by (simp add: index_def)

lemma index_not_Err [simp]: "index xs i \<noteq> Err e"
  by (simp add: index_def)

lemma slice_eq_Ok_iff:
  "slice a b xs = Ok ys \<longleftrightarrow> a \<le> b \<and> b \<le> length xs \<and> ys = take (b - a) (drop a xs)"
  by (auto simp: slice_def)

section \<open>Little-endian bytes\<close>

named_theorems byte_simps \<open>rewriting of little-endian encodings\<close>

fun from_le :: "u8 list \<Rightarrow> nat" where
  "from_le [] = 0"
| "from_le (b # bs) = unat b + 256 * from_le bs"

fun to_le :: "nat \<Rightarrow> nat \<Rightarrow> u8 list" where
  "to_le 0 x = []"
| "to_le (Suc n) x = of_nat (x mod 256) # to_le n (x div 256)"

lemma length_to_le [simp, byte_simps]: "length (to_le n x) = n"
  by (induction n arbitrary: x) auto

lemma unat_u8_less [simp]: "unat (b :: u8) < 256"
  using unsigned_less [of b, where ?'a = nat] by simp

lemma unat_of_nat_u8 [simp]: "unat (of_nat (x mod 256) :: u8) = x mod 256"
  by (simp add: unat_of_nat)

lemma from_le_bound: "from_le bs < 256 ^ length bs"
proof (induction bs)
  case Nil
  then show ?case by simp
next
  case (Cons b bs)
  have "unat b + 256 * from_le bs < 256 + 256 * from_le bs"
    by simp
  also have "\<dots> = 256 * Suc (from_le bs)"
    by simp
  also have "\<dots> \<le> 256 * 256 ^ length bs"
    using Cons.IH by (intro mult_le_mono2) simp
  finally show ?case by simp
qed

lemma from_le_to_le: "from_le (to_le n x) = x mod 256 ^ n"
proof (induction n arbitrary: x)
  case 0
  then show ?case by simp
next
  case (Suc n)
  have "x mod 256 + 256 * (x div 256 mod 256 ^ n) = x mod (256 * 256 ^ n)"
    by (simp add: mod_mult2_eq)
  then show ?case by (simp add: Suc.IH)
qed

lemma to_le_from_le: "length bs = n \<Longrightarrow> to_le n (from_le bs) = bs"
proof (induction bs arbitrary: n)
  case Nil
  then show ?case by simp
next
  case (Cons b bs)
  then obtain m where m: "n = Suc m" "length bs = m"
    by (cases n) auto
  have "(unat b + 256 * from_le bs) mod 256 = unat b"
    by (simp add: mod_mult_self2 [of "unat b" 256])
  moreover have "(unat b + 256 * from_le bs) div 256 = from_le bs"
    by simp
  ultimately show ?case
    using Cons.IH [of m] m by simp
qed

definition u16_from_le :: "u8 list \<Rightarrow> u16" where
  "u16_from_le bs = of_nat (from_le bs)"

definition u32_from_le :: "u8 list \<Rightarrow> u32" where
  "u32_from_le bs = of_nat (from_le bs)"

definition u64_from_le :: "u8 list \<Rightarrow> u64" where
  "u64_from_le bs = of_nat (from_le bs)"

definition i16_from_le :: "u8 list \<Rightarrow> int" where
  "i16_from_le bs = sint (u16_from_le bs)"

definition i32_from_le :: "u8 list \<Rightarrow> int" where
  "i32_from_le bs = sint (u32_from_le bs)"

definition i64_from_le :: "u8 list \<Rightarrow> int" where
  "i64_from_le bs = sint (u64_from_le bs)"

definition u16_to_le :: "u16 \<Rightarrow> u8 list" where
  "u16_to_le w = to_le 2 (unat w)"

definition u32_to_le :: "u32 \<Rightarrow> u8 list" where
  "u32_to_le w = to_le 4 (unat w)"

definition u64_to_le :: "u64 \<Rightarrow> u8 list" where
  "u64_to_le w = to_le 8 (unat w)"

definition i64_to_le :: "int \<Rightarrow> u8 list" where
  "i64_to_le i = u64_to_le (word_of_int i)"

lemma length_int_to_le [simp, byte_simps]:
  "length (u16_to_le w) = 2" "length (u32_to_le v) = 4" "length (u64_to_le x) = 8"
  "length (i64_to_le i) = 8"
  by (simp_all add: u16_to_le_def u32_to_le_def u64_to_le_def i64_to_le_def)

lemma u16_from_to_le [simp, byte_simps]: "u16_from_le (u16_to_le w) = w"
  using unsigned_less [of w, where ?'a = nat] by (simp add: u16_from_le_def u16_to_le_def from_le_to_le)

lemma u32_from_to_le [simp, byte_simps]: "u32_from_le (u32_to_le w) = w"
  using unsigned_less [of w, where ?'a = nat] by (simp add: u32_from_le_def u32_to_le_def from_le_to_le)

lemma u64_from_to_le [simp, byte_simps]: "u64_from_le (u64_to_le w) = w"
  using unsigned_less [of w, where ?'a = nat] by (simp add: u64_from_le_def u64_to_le_def from_le_to_le)

lemma i64_from_to_le [byte_simps]:
  "- (2 ^ 63) \<le> i \<Longrightarrow> i < 2 ^ 63 \<Longrightarrow> i64_from_le (i64_to_le i) = i"
  by (simp add: i64_from_le_def i64_to_le_def signed_of_int signed_take_bit_int_eq_self)

definition i64_range :: "int \<Rightarrow> bool" where
  "i64_range i \<longleftrightarrow> - (2 ^ 63) \<le> i \<and> i < 2 ^ 63"

lemma i64_range_from_le [simp]: "i64_range (i64_from_le bs)"
  using sint_ge [of "u64_from_le bs"] sint_lt [of "u64_from_le bs"]
  by (simp add: i64_range_def i64_from_le_def)

lemma u16_to_from_le: "length bs = 2 \<Longrightarrow> u16_to_le (u16_from_le bs) = bs"
  using from_le_bound [of bs] to_le_from_le [of bs 2]
  by (simp add: u16_to_le_def u16_from_le_def unat_of_nat)

lemma u32_to_from_le: "length bs = 4 \<Longrightarrow> u32_to_le (u32_from_le bs) = bs"
  using from_le_bound [of bs] to_le_from_le [of bs 4]
  by (simp add: u32_to_le_def u32_from_le_def unat_of_nat)

lemma u64_to_from_le: "length bs = 8 \<Longrightarrow> u64_to_le (u64_from_le bs) = bs"
  using from_le_bound [of bs] to_le_from_le [of bs 8]
  by (simp add: u64_to_le_def u64_from_le_def unat_of_nat)

text \<open>The fixed-width reads of the decoders: \<open>uN::from_le_bytes\<close> of the bytes at an offset.\<close>

definition bytes_at :: "nat \<Rightarrow> nat \<Rightarrow> u8 list \<Rightarrow> u8 list" where
  "bytes_at off n xs = take n (drop off xs)"

definition u16_at :: "nat \<Rightarrow> u8 list \<Rightarrow> u16" where
  "u16_at off xs = u16_from_le (bytes_at off 2 xs)"

definition u32_at :: "nat \<Rightarrow> u8 list \<Rightarrow> u32" where
  "u32_at off xs = u32_from_le (bytes_at off 4 xs)"

lemma length_bytes_at [simp]: "off + n \<le> length xs \<Longrightarrow> length (bytes_at off n xs) = n"
  by (simp add: bytes_at_def)

lemma bytes_at_append_right [byte_simps]:
  "length xs \<le> off \<Longrightarrow> bytes_at off n (xs @ ys) = bytes_at (off - length xs) n ys"
  by (simp add: bytes_at_def)

lemma bytes_at_append_left [byte_simps]:
  "length xs = n \<Longrightarrow> bytes_at 0 n (xs @ ys) = xs"
  by (simp add: bytes_at_def)

lemma bytes_at_all [byte_simps]: "length xs = n \<Longrightarrow> bytes_at 0 n xs = xs"
  by (simp add: bytes_at_def)

lemma bytes_at_split:
  "off + (m + n) \<le> length xs \<Longrightarrow> bytes_at off (m + n) xs = bytes_at off m xs @ bytes_at (off + m) n xs"
  by (simp add: bytes_at_def take_add add.commute)

lemma append_bytes_at:
  "off2 = off + m \<Longrightarrow> bytes_at off m xs @ bytes_at off2 n xs = bytes_at off (m + n) xs"
  by (simp add: bytes_at_def take_add add.commute)

end
