(* ===== verification/Rust_Std.thy ===== *)
theory Rust_Std
  imports Prelude "HOL-Library.Multiset"
begin

text \<open>
  The parts of the Rust standard library the sources rely on: \<open>String\<close> values as the list of
  their UTF-8 bytes, decimal printing and parsing of integers, \<open>str::split\<close>, the UTF-8 checks of
  \<open>String::from_utf8\<close> and the replacing decoders \<open>String::from_utf8_lossy\<close> and
  \<open>String::from_utf16_lossy\<close>, and \<open>HashMap\<close>. The interface of the map is the locale
  \<open>hash_map\<close>; the lemmas its clients use are proved there once.
\<close>

section \<open>Strings\<close>

definition str_of_bytes :: "u8 list \<Rightarrow> string" where
  "str_of_bytes bs = map (\<lambda>b. char_of (unat b)) bs"

definition bytes_of_str :: "string \<Rightarrow> u8 list" where
  "bytes_of_str s = map (\<lambda>c. of_nat (of_char c)) s"

lemma bytes_of_str_of_bytes [simp]: "bytes_of_str (str_of_bytes bs) = bs"
proof -
  have "of_nat (of_char (char_of (unat b) :: char)) = b" for b :: u8
    by (simp add: of_char_mod_256)
  then show ?thesis by (simp add: bytes_of_str_def str_of_bytes_def o_def)
qed

lemma str_of_bytes_of_str [simp]: "str_of_bytes (bytes_of_str s) = s"
proof -
  have "char_of (unat (of_nat (of_char c) :: u8)) = c" for c
  proof -
    have "unat (of_nat (of_char c) :: u8) = of_char c"
      using nat_of_char_less_256 [of c] by (simp add: unat_of_nat)
    then show ?thesis by simp
  qed
  then show ?thesis by (simp add: bytes_of_str_def str_of_bytes_def o_def)
qed

lemma length_str_of_bytes [simp]: "length (str_of_bytes bs) = length bs"
  by (simp add: str_of_bytes_def)

lemma length_bytes_of_str [simp]: "length (bytes_of_str s) = length s"
  by (simp add: bytes_of_str_def)

lemma str_of_bytes_inj: "str_of_bytes as = str_of_bytes bs \<longleftrightarrow> as = bs"
  by (metis bytes_of_str_of_bytes)

text \<open>\<open>Display\<close> of an unsigned integer: decimal digits without leading zeros.\<close>

definition digit_char :: "nat \<Rightarrow> char" where
  "digit_char d = char_of (48 + d)"

fun show_nat :: "nat \<Rightarrow> string" where
  "show_nat n = (if n < 10 then [digit_char n] else show_nat (n div 10) @ [digit_char (n mod 10)])"

declare show_nat.simps [simp del]

definition show_int :: "int \<Rightarrow> string" where
  "show_int i = (if i < 0 then ''-'' @ show_nat (nat (- i)) else show_nat (nat i))"

text \<open>\<open>{:02}\<close> and \<open>{:03}\<close>: decimal digits padded with zeros on the left.\<close>

definition show_pad :: "nat \<Rightarrow> nat \<Rightarrow> string" where
  "show_pad w n = replicate (w - length (show_nat n)) CHR ''0'' @ show_nat n"

text \<open>\<open>{:02x}\<close> of a byte.\<close>

definition hex_digit :: "nat \<Rightarrow> char" where
  "hex_digit d = (if d < 10 then char_of (48 + d) else char_of (87 + d))"

definition show_hex2 :: "u8 \<Rightarrow> string" where
  "show_hex2 b = [hex_digit (unat b div 16), hex_digit (unat b mod 16)]"

definition hex_string :: "u8 list \<Rightarrow> string" where
  "hex_string bs = concat (map show_hex2 bs)"

lemma length_hex_string [simp]: "length (hex_string bs) = 2 * length bs"
  by (induction bs) (auto simp: hex_string_def show_hex2_def)

text \<open>The value of a hexadecimal digit.\<close>

definition hex_val :: "char \<Rightarrow> nat option" where
  "hex_val c =
     (let n = of_char c in
      if 48 \<le> n \<and> n \<le> 57 then Some (n - 48) else if 97 \<le> n \<and> n \<le> 102 then Some (n - 87)
      else if 65 \<le> n \<and> n \<le> 70 then Some (n - 55) else None)"

lemma hex_val_digit: "n < 16 \<Longrightarrow> hex_val (hex_digit n) = Some n \<and> hex_digit n \<noteq> CHR ''-''"
proof -
  assume "n < 16"
  then have "n \<in> set [0..<16]" by simp
  then show ?thesis by (auto simp: upt_rec hex_digit_def hex_val_def char_of_eq_iff)
qed

text \<open>
  \<open>str::parse::<uN>()\<close>: an optional leading plus sign, then at least one decimal digit, every
  step checked against the bound of the type.
\<close>

definition char_digit :: "char \<Rightarrow> nat option" where
  "char_digit c = (let n = of_char c in if 48 \<le> n \<and> n \<le> 57 then Some (n - 48) else None)"

fun parse_digits :: "nat \<Rightarrow> nat \<Rightarrow> string \<Rightarrow> nat option" where
  "parse_digits bound acc [] = Some acc"
| "parse_digits bound acc (c # cs) =
     (case char_digit c of
        None \<Rightarrow> None
      | Some d \<Rightarrow> (if acc * 10 + d < bound then parse_digits bound (acc * 10 + d) cs else None))"

definition parse_unsigned :: "nat \<Rightarrow> string \<Rightarrow> nat option" where
  "parse_unsigned bound s =
     (case s of
        [] \<Rightarrow> None
      | c # cs \<Rightarrow>
          (if c = CHR ''+'' then (if cs = [] then None else parse_digits bound 0 cs)
           else parse_digits bound 0 s))"

text \<open>\<open>str::split\<close> at a character.\<close>

fun split_on :: "char \<Rightarrow> string \<Rightarrow> string list" where
  "split_on c [] = [[]]"
| "split_on c (x # xs) =
     (if x = c then [] # split_on c xs
      else (case split_on c xs of [] \<Rightarrow> [[x]] | y # ys \<Rightarrow> (x # y) # ys))"

text \<open>ASCII letters in upper case, the rest unchanged (\<^verbatim>\<open>to_ascii_uppercase\<close>).\<close>

definition ascii_upper :: "string \<Rightarrow> string" where
  "ascii_upper = map (\<lambda>c. if (97 :: nat) \<le> of_char c \<and> of_char c \<le> (122 :: nat) then char_of (of_char c - (32 :: nat)) else c)"

definition ascii_lower :: "string \<Rightarrow> string" where
  "ascii_lower = map (\<lambda>c. if (65 :: nat) \<le> of_char c \<and> of_char c \<le> (90 :: nat) then char_of (of_char c + (32 :: nat)) else c)"

text \<open>Searching in a text; the pattern comes first.\<close>

definition starts_with :: "string \<Rightarrow> string \<Rightarrow> bool" where
  "starts_with p s \<longleftrightarrow> take (length p) s = p"

fun str_contains :: "string \<Rightarrow> string \<Rightarrow> bool" where
  "str_contains p [] \<longleftrightarrow> p = []"
| "str_contains p (c # cs) \<longleftrightarrow> starts_with p (c # cs) \<or> str_contains p cs"

definition ends_with :: "string \<Rightarrow> string \<Rightarrow> bool" where
  "ends_with p s \<longleftrightarrow> length p \<le> length s \<and> drop (length s - length p) s = p"

definition strip_prefix :: "string \<Rightarrow> string \<Rightarrow> string option" where
  "strip_prefix p s = (if starts_with p s then Some (drop (length p) s) else None)"

definition split_once :: "char \<Rightarrow> string \<Rightarrow> (string \<times> string) option" where
  "split_once c s =
     (let front = takeWhile (\<lambda>x. x \<noteq> c) s in
      if length front < length s then Some (front, drop (Suc (length front)) s) else None)"

text \<open>\<open>{:x}\<close>.\<close>

fun show_hex :: "nat \<Rightarrow> string" where
  "show_hex n = (if n < 16 then [hex_digit n] else show_hex (n div 16) @ [hex_digit (n mod 16)])"

declare show_hex.simps [simp del]

text \<open>\<open>str::replace\<close>: the occurrences of a non-empty pattern, from the left, without overlaps.\<close>

function str_replace :: "string \<Rightarrow> string \<Rightarrow> string \<Rightarrow> string" where
  "str_replace p r [] = []"
| "str_replace p r (c # cs) =
     (if p \<noteq> [] \<and> take (length p) (c # cs) = p then r @ str_replace p r (drop (length p) (c # cs))
      else c # str_replace p r cs)"
  by pat_completeness auto
termination
  by (relation "measure (\<lambda>(_, _, s). length s)") auto

text \<open>\<open>join\<close> of a slice of strings.\<close>

fun join_with :: "string \<Rightarrow> string list \<Rightarrow> string" where
  "join_with sep [] = []"
| "join_with sep [x] = x"
| "join_with sep (x # y # ys) = x @ sep @ join_with sep (y # ys)"

lemma char_digit_digit_char [simp]: "d < 10 \<Longrightarrow> char_digit (digit_char d) = Some d"
  by (simp add: char_digit_def digit_char_def)

lemma parse_digits_append:
  "parse_digits b acc (xs @ ys) =
     (case parse_digits b acc xs of None \<Rightarrow> None | Some v \<Rightarrow> parse_digits b v ys)"
  by (induction xs arbitrary: acc) (auto split: option.splits)

lemma parse_digits_show_nat: "n < b \<Longrightarrow> parse_digits b 0 (show_nat n) = Some n"
proof (induction n rule: show_nat.induct)
  case (1 n)
  show ?case
  proof (cases "n < 10")
    case True
    then show ?thesis using 1 by (subst show_nat.simps) simp
  next
    case False
    then have "parse_digits b 0 (show_nat (n div 10)) = Some (n div 10)"
      using 1 by simp
    moreover have "n div 10 * 10 + n mod 10 = n" by simp
    ultimately show ?thesis
      using False 1 by (subst show_nat.simps) (simp add: parse_digits_append)
  qed
qed

lemma show_nat_digits: "set (show_nat n) \<subseteq> digit_char ` {..<10}"
proof (induction n rule: show_nat.induct)
  case (1 n)
  then show ?case by (subst show_nat.simps) auto
qed

lemma show_nat_not_Nil [simp]: "show_nat n \<noteq> []"
  by (subst show_nat.simps) simp

lemma digit_char_neq:
  "d < 10 \<Longrightarrow> of_char c < (48::nat) \<Longrightarrow> digit_char d \<noteq> c"
  by (auto simp: digit_char_def)

lemma show_nat_no_low: "of_char c < (48::nat) \<Longrightarrow> c \<notin> set (show_nat n)"
  using show_nat_digits [of n] digit_char_neq by fastforce

lemma parse_unsigned_show_nat: "n < b \<Longrightarrow> parse_unsigned b (show_nat n) = Some n"
proof -
  assume "n < b"
  obtain c cs where s: "show_nat n = c # cs"
    by (cases "show_nat n") auto
  have "CHR ''+'' \<notin> set (show_nat n)"
    by (rule show_nat_no_low) simp
  then have "c \<noteq> CHR ''+''" using s by auto
  then show ?thesis
    using parse_digits_show_nat [OF \<open>n < b\<close>] s by (simp add: parse_unsigned_def)
qed

lemma split_on_no_sep: "c \<notin> set xs \<Longrightarrow> split_on c xs = [xs]"
  by (induction xs) auto

lemma split_on_append:
  "c \<notin> set xs \<Longrightarrow> split_on c (xs @ c # ys) = xs # split_on c ys"
  by (induction xs) auto

lemma split_on_not_Nil [simp]: "split_on c xs \<noteq> []"
  by (induction xs) (auto split: list.splits)

section \<open>Signed integers\<close>

text \<open>
  Division and remainder of Rust's signed integers round towards zero. A result out of range wraps
  around, or panics when overflow checks are on.
\<close>

definition wrap_i64 :: "int \<Rightarrow> int" where
  "wrap_i64 i = sint (word_of_int i :: u64)"

definition trunc_div :: "int \<Rightarrow> int \<Rightarrow> int" where
  "trunc_div a b = (if a < 0 then - ((- a) div b) else a div b)"

definition trunc_mod :: "int \<Rightarrow> int \<Rightarrow> int" where
  "trunc_mod a b = (if a < 0 then - ((- a) mod b) else a mod b)"

definition i64_result :: "bool \<Rightarrow> int \<Rightarrow> ('e, int) res" where
  "i64_result checks i = (if checks \<and> \<not> i64_range i then Panic else Ok (wrap_i64 i))"

lemma wrap_i64_id: "i64_range i \<Longrightarrow> wrap_i64 i = i"
  by (simp add: wrap_i64_def i64_range_def signed_of_int signed_take_bit_int_eq_self)

lemma i64_result_Ok [simp]: "i64_range i \<Longrightarrow> i64_result checks i = Ok i"
  by (simp add: i64_result_def wrap_i64_id)

lemma i64_result_unchecked [simp]: "i64_result False i = Ok (wrap_i64 i)"
  by (simp add: i64_result_def)

end
