(* ===== verification/Utf8.thy ===== *)
theory Utf8
  imports Rust_Std
begin

text \<open>
  Text decoding of the Rust standard library. \<open>utf8_step\<close> looks at the front of a byte string
  the way \<open>core::str::lossy\<close> does: the number of bytes inspected and whether they are one
  well-formed character. \<open>from_utf8\<close> accepts exactly the strings all of whose steps succeed,
  \<open>from_utf8_lossy\<close> replaces every maximal ill-formed prefix by U+FFFD, and
  \<open>from_utf16_lossy\<close> does the same for unpaired surrogates. The lemmas show that the replacing
  decoders always produce well-formed UTF-8 and leave well-formed input unchanged.
\<close>

section \<open>UTF-8\<close>

definition is_cont :: "u8 \<Rightarrow> bool" where
  "is_cont b \<longleftrightarrow> 128 \<le> b \<and> b < 192"

definition safe_get :: "u8 list \<Rightarrow> nat \<Rightarrow> u8" where
  "safe_get xs i = (if i < length xs then xs ! i else 0)"

definition utf8_char_width :: "u8 \<Rightarrow> nat" where
  "utf8_char_width b =
     (if b < 128 then 1
      else if b < 0xC2 then 0
      else if b < 0xE0 then 2
      else if b < 0xF0 then 3
      else if b < 0xF5 then 4
      else 0)"

definition second_of_3 :: "u8 \<Rightarrow> u8 \<Rightarrow> bool" where
  "second_of_3 b c \<longleftrightarrow>
     (if b = 0xE0 then 0xA0 \<le> c \<and> c \<le> 0xBF
      else if b = 0xED then 0x80 \<le> c \<and> c \<le> 0x9F
      else 0x80 \<le> c \<and> c \<le> 0xBF)"

definition second_of_4 :: "u8 \<Rightarrow> u8 \<Rightarrow> bool" where
  "second_of_4 b c \<longleftrightarrow>
     (if b = 0xF0 then 0x90 \<le> c \<and> c \<le> 0xBF
      else if b = 0xF4 then 0x80 \<le> c \<and> c \<le> 0x8F
      else 0x80 \<le> c \<and> c \<le> 0xBF)"

fun utf8_step :: "u8 list \<Rightarrow> nat \<times> bool" where
  "utf8_step [] = (0, True)"
| "utf8_step (b # rest) =
     (let w = utf8_char_width b in
      if w = 1 then (1, True)
      else if w = 2 then (if is_cont (safe_get rest 0) then (2, True) else (1, False))
      else if w = 3 then
        (if \<not> second_of_3 b (safe_get rest 0) then (1, False)
         else if \<not> is_cont (safe_get rest 1) then (2, False)
         else (3, True))
      else if w = 4 then
        (if \<not> second_of_4 b (safe_get rest 0) then (1, False)
         else if \<not> is_cont (safe_get rest 1) then (2, False)
         else if \<not> is_cont (safe_get rest 2) then (3, False)
         else (4, True))
      else (1, False))"

lemma utf8_step_pos: "bs \<noteq> [] \<Longrightarrow> 0 < fst (utf8_step bs)"
  by (cases bs) (auto simp: Let_def)

declare utf8_step.simps [simp del]

function utf8_valid :: "u8 list \<Rightarrow> bool" where
  "utf8_valid bs \<longleftrightarrow>
     (if bs = [] then True
      else snd (utf8_step bs) \<and> utf8_valid (drop (fst (utf8_step bs)) bs))"
  by pat_completeness auto
termination
  by (relation "measure length") (use utf8_step_pos in \<open>auto simp: neq_Nil_conv\<close>)

function lossy_bytes :: "u8 list \<Rightarrow> u8 list" where
  "lossy_bytes bs =
     (if bs = [] then []
      else (if snd (utf8_step bs) then take (fst (utf8_step bs)) bs else [0xEF, 0xBF, 0xBD])
             @ lossy_bytes (drop (fst (utf8_step bs)) bs))"
  by pat_completeness auto
termination
  by (relation "measure length") (use utf8_step_pos in \<open>auto simp: neq_Nil_conv\<close>)

declare utf8_valid.simps [simp del] lossy_bytes.simps [simp del]

definition from_utf8 :: "u8 list \<Rightarrow> string option" where
  "from_utf8 bs = (if utf8_valid bs then Some (str_of_bytes bs) else None)"

definition from_utf8_lossy :: "u8 list \<Rightarrow> string" where
  "from_utf8_lossy bs = str_of_bytes (lossy_bytes bs)"

text \<open>A string of the program is well formed when its bytes are UTF-8.\<close>

definition str_ok :: "string \<Rightarrow> bool" where
  "str_ok s \<longleftrightarrow> utf8_valid (bytes_of_str s)"

subsection \<open>Steps and concatenation\<close>

lemma utf8_valid_Nil [simp]: "utf8_valid []"
  by (simp add: utf8_valid.simps)

lemma lossy_bytes_Nil [simp]: "lossy_bytes [] = []"
  by (simp add: lossy_bytes.simps)

lemma safe_get_append: "i < length xs \<Longrightarrow> safe_get (xs @ ys) i = safe_get xs i"
  by (simp add: safe_get_def nth_append)

lemma safe_get_beyond: "length xs \<le> i \<Longrightarrow> safe_get xs i = 0"
  by (simp add: safe_get_def)

lemma is_cont_0 [simp]: "\<not> is_cont 0"
  by (simp add: is_cont_def)

lemma second_0 [simp]: "\<not> second_of_3 b 0" "\<not> second_of_4 b 0"
  by (simp_all add: second_of_3_def second_of_4_def)

lemma safe_get_cont: "is_cont (safe_get xs i) \<Longrightarrow> i < length xs"
  by (rule ccontr) (simp add: safe_get_def)

lemma safe_get_second:
  "second_of_3 b (safe_get xs i) \<Longrightarrow> i < length xs"
  "second_of_4 b (safe_get xs i) \<Longrightarrow> i < length xs"
  by (rule ccontr, simp add: safe_get_def)+

lemma utf8_step_le: "fst (utf8_step bs) \<le> length bs"
proof (cases bs)
  case Nil
  then show ?thesis by (simp add: utf8_step.simps)
next
  case (Cons b rest)
  then show ?thesis
    using safe_get_cont [of rest 0] safe_get_cont [of rest 1] safe_get_cont [of rest 2]
      safe_get_second [of b rest 0]
    by (auto simp: utf8_step.simps Let_def Suc_le_eq)
qed

lemma utf8_step_append:
  assumes "snd (utf8_step xs)" and "xs \<noteq> []"
  shows "utf8_step (xs @ ys) = utf8_step xs"
proof -
  obtain b rest where xs: "xs = b # rest" using assms(2) by (cases xs) auto
  show ?thesis
    using assms(1) safe_get_cont [of rest 0] safe_get_cont [of rest 1] safe_get_cont [of rest 2]
      safe_get_second [of b rest 0]
    by (auto simp: xs utf8_step.simps Let_def safe_get_append split: if_splits)
qed

lemma utf8_step_take:
  assumes "snd (utf8_step xs)"
  shows "utf8_step (take (fst (utf8_step xs)) xs) = utf8_step xs"
proof (cases xs)
  case Nil
  then show ?thesis by simp
next
  case (Cons b rest)
  then show ?thesis
    using assms safe_get_cont [of rest 0] safe_get_cont [of rest 1] safe_get_cont [of rest 2]
      safe_get_second [of b rest 0]
    by (auto simp: utf8_step.simps Let_def safe_get_def split: if_splits)
qed

lemma utf8_valid_append: "utf8_valid xs \<Longrightarrow> utf8_valid (xs @ ys) = utf8_valid ys"
proof (induction xs rule: utf8_valid.induct)
  case (1 bs)
  show ?case
  proof (cases "bs = []")
    case False
    with 1 have ok: "snd (utf8_step bs)" and v: "utf8_valid (drop (fst (utf8_step bs)) bs)"
      by (auto simp: utf8_valid.simps [of bs])
    have st: "utf8_step (bs @ ys) = utf8_step bs"
      by (rule utf8_step_append [OF ok False])
    have "utf8_valid (bs @ ys) = utf8_valid (drop (fst (utf8_step bs)) (bs @ ys))"
      using False ok by (subst utf8_valid.simps) (simp add: st)
    also have "\<dots> = utf8_valid (drop (fst (utf8_step bs)) bs @ ys)"
      using utf8_step_le [of bs] by simp
    also have "\<dots> = utf8_valid ys" by (rule "1.IH" [OF False v])
    finally show ?thesis .
  qed simp
qed

lemma utf8_valid_replacement: "utf8_valid [0xEF, 0xBF, 0xBD]"
  by (simp add: utf8_valid.simps utf8_step.simps utf8_char_width_def second_of_3_def is_cont_def
      safe_get_def)

lemma utf8_valid_char:
  assumes "snd (utf8_step bs)"
  shows "utf8_valid (take (fst (utf8_step bs)) bs)"
proof -
  have st: "utf8_step (take (fst (utf8_step bs)) bs) = utf8_step bs"
    by (rule utf8_step_take [OF assms])
  show ?thesis
    using assms by (subst utf8_valid.simps) (simp add: st)
qed

lemma utf8_valid_lossy: "utf8_valid (lossy_bytes bs)"
proof (induction bs rule: lossy_bytes.induct)
  case (1 bs)
  then show ?case
    by (subst lossy_bytes.simps)
       (simp add: utf8_valid_append utf8_valid_char utf8_valid_replacement)
qed

lemma lossy_bytes_valid: "utf8_valid bs \<Longrightarrow> lossy_bytes bs = bs"
proof (induction bs rule: lossy_bytes.induct)
  case (1 bs)
  show ?case
  proof (cases "bs = []")
    case False
    with 1 show ?thesis
      by (subst lossy_bytes.simps) (simp add: utf8_valid.simps [of bs])
  qed simp
qed

lemma utf8_valid_ascii: "list_all (\<lambda>b. b < 128) bs \<Longrightarrow> utf8_valid bs"
proof (induction bs)
  case (Cons b bs)
  then show ?case
    by (subst utf8_valid.simps) (simp add: utf8_step.simps utf8_char_width_def)
qed simp

lemma from_utf8_Some_iff: "from_utf8 bs = Some s \<longleftrightarrow> str_ok s \<and> bytes_of_str s = bs"
  by (auto simp: from_utf8_def str_ok_def)

lemma from_utf8_bytes [simp]: "str_ok s \<Longrightarrow> from_utf8 (bytes_of_str s) = Some s"
  by (simp add: from_utf8_def str_ok_def)

lemma from_utf8_lossy_bytes [simp]: "str_ok s \<Longrightarrow> from_utf8_lossy (bytes_of_str s) = s"
  by (simp add: from_utf8_lossy_def str_ok_def lossy_bytes_valid)

lemma str_ok_lossy [simp]: "str_ok (from_utf8_lossy bs)"
  by (simp add: from_utf8_lossy_def str_ok_def utf8_valid_lossy)

lemma str_ok_Nil [simp]: "str_ok []"
  by (simp add: str_ok_def bytes_of_str_def)

section \<open>UTF-16\<close>

text \<open>
  \<open>char::decode_utf16\<close>: \<open>None\<close> stands for an unpaired surrogate. A second unit that is no low
  surrogate is looked at again on its own.
\<close>

function decode_utf16 :: "u16 list \<Rightarrow> nat option list" where
  "decode_utf16 us =
     (case us of
        [] \<Rightarrow> []
      | u # rest \<Rightarrow>
          (if unat u < 0xD800 \<or> 0xDFFF < unat u then Some (unat u) # decode_utf16 rest
           else if 0xDC00 \<le> unat u then None # decode_utf16 rest
           else (case rest of
                   [] \<Rightarrow> [None]
                 | u2 # rest2 \<Rightarrow>
                     (if unat u2 < 0xDC00 \<or> 0xDFFF < unat u2 then None # decode_utf16 rest
                      else Some ((unat u - 0xD800) * 0x400 + (unat u2 - 0xDC00) + 0x10000)
                             # decode_utf16 rest2))))"
  by pat_completeness auto
termination
  by (relation "measure length") auto

declare decode_utf16.simps [simp del]

text \<open>\<open>char::encode_utf8\<close>.\<close>

definition encode_utf8 :: "nat \<Rightarrow> u8 list" where
  "encode_utf8 c =
     (if c < 0x80 then [of_nat c]
      else if c < 0x800 then [of_nat (0xC0 + c div 0x40), of_nat (0x80 + c mod 0x40)]
      else if c < 0x10000 then
        [of_nat (0xE0 + c div 0x1000), of_nat (0x80 + c div 0x40 mod 0x40),
         of_nat (0x80 + c mod 0x40)]
      else
        [of_nat (0xF0 + c div 0x40000), of_nat (0x80 + c div 0x1000 mod 0x40),
         of_nat (0x80 + c div 0x40 mod 0x40), of_nat (0x80 + c mod 0x40)])"

definition from_utf16_lossy :: "u16 list \<Rightarrow> string" where
  "from_utf16_lossy us =
     str_of_bytes (concat (map (\<lambda>c. encode_utf8 (case c of None \<Rightarrow> 0xFFFD | Some x \<Rightarrow> x))
       (decode_utf16 us)))"

text \<open>A Unicode scalar value: a code point that is no surrogate.\<close>

definition scalar_value :: "nat \<Rightarrow> bool" where
  "scalar_value c \<longleftrightarrow> c < 0xD800 \<or> (0xE000 \<le> c \<and> c < 0x110000)"

lemma u8_of_nat_less: "x < 256 \<Longrightarrow> y < 256 \<Longrightarrow> (of_nat x :: u8) < of_nat y \<longleftrightarrow> x < y"
  by (simp add: word_less_nat_alt unat_of_nat)

lemma u8_of_nat_eq: "x < 256 \<Longrightarrow> y < 256 \<Longrightarrow> (of_nat x :: u8) = of_nat y \<longleftrightarrow> x = y"
  by (metis (full_types) u8_of_nat_less linorder_neq_iff)

lemma u8_numeral_less:
  "x < 256 \<Longrightarrow> (of_nat x :: u8) < numeral k \<longleftrightarrow> x < unat (numeral k :: u8)"
  by (simp add: word_less_nat_alt unat_of_nat)

lemma u8_numeral_le:
  "x < 256 \<Longrightarrow> (numeral k :: u8) \<le> of_nat x \<longleftrightarrow> unat (numeral k :: u8) \<le> x"
  by (simp add: word_le_nat_alt unat_of_nat)

lemma u8_le_numeral:
  "x < 256 \<Longrightarrow> (of_nat x :: u8) \<le> numeral k \<longleftrightarrow> x \<le> unat (numeral k :: u8)"
  by (simp add: word_le_nat_alt unat_of_nat)

lemma u8_numeral_eq:
  "x < 256 \<Longrightarrow> (of_nat x :: u8) = numeral k \<longleftrightarrow> x = unat (numeral k :: u8)"
  by (simp add: word_unat_eq_iff unat_of_nat)

lemmas u8_cmp = u8_numeral_less u8_numeral_le u8_le_numeral u8_numeral_eq

lemma is_cont_encoded: "x < 64 \<Longrightarrow> is_cont (of_nat (128 + x))"
  by (simp add: is_cont_def u8_cmp del: of_nat_add)

lemma three_byte_bounds:
  fixes c :: nat
  assumes "2048 \<le> c"
  shows "c div 4096 = 0 \<Longrightarrow> 32 \<le> c div 64 \<and> c div 64 mod 64 = c div 64 \<and> c div 64 < 64"
    and "c div 4096 = 13 \<Longrightarrow> c < 55296 \<or> 57344 \<le> c \<Longrightarrow> c div 64 mod 64 < 32"
proof -
  assume "c div 4096 = 0"
  then have "c < 4096" by (simp add: div_eq_0_iff)
  then show "32 \<le> c div 64 \<and> c div 64 mod 64 = c div 64 \<and> c div 64 < 64"
    using assms by (simp add: less_eq_div_iff_mult_less_eq div_less_iff_less_mult)
next
  assume d: "c div 4096 = 13" and s: "c < 55296 \<or> 57344 \<le> c"
  have "c div 64 div 64 = 13" using d by (simp add: div_mult2_eq [symmetric])
  moreover have "c div 64 = 64 * (c div 64 div 64) + c div 64 mod 64" by simp
  ultimately have "c div 64 = 832 + c div 64 mod 64" by simp
  moreover have "c < 57344" using d by linarith
  then have "c div 64 < 864" using s by (simp add: div_less_iff_less_mult)
  ultimately show "c div 64 mod 64 < 32" by linarith
qed

lemma four_byte_bounds:
  fixes c :: nat
  assumes "65536 \<le> c" and "c < 1114112"
  shows "c div 262144 = 0 \<Longrightarrow> 16 \<le> c div 4096 \<and> c div 4096 mod 64 = c div 4096"
    and "c div 262144 = 4 \<Longrightarrow> c div 4096 mod 64 < 16"
proof -
  assume "c div 262144 = 0"
  then have "c < 262144" by (simp add: div_eq_0_iff)
  then show "16 \<le> c div 4096 \<and> c div 4096 mod 64 = c div 4096"
    using assms by (simp add: less_eq_div_iff_mult_less_eq div_less_iff_less_mult)
next
  assume d: "c div 262144 = 4"
  have "c div 4096 div 64 = 4" using d by (simp add: div_mult2_eq [symmetric])
  moreover have "c div 4096 = 64 * (c div 4096 div 64) + c div 4096 mod 64" by simp
  ultimately have "c div 4096 = 256 + c div 4096 mod 64" by simp
  moreover have "c div 4096 < 272" using assms by (simp add: div_less_iff_less_mult)
  ultimately show "c div 4096 mod 64 < 16" by linarith
qed

lemma encode_utf8_valid:
  assumes "scalar_value c"
  shows "utf8_valid (encode_utf8 c)"
proof -
  consider "c < 128" | "128 \<le> c" "c < 2048" | "2048 \<le> c" "c < 65536" | "65536 \<le> c" by linarith
  then show ?thesis
  proof cases
    case 1
    then show ?thesis
      by (intro utf8_valid_ascii) (simp add: encode_utf8_def u8_cmp)
  next
    case 2
    then have "utf8_char_width (of_nat (192 + c div 64)) = 2"
      by (simp add: utf8_char_width_def u8_cmp del: of_nat_add) linarith
    then show ?thesis
      using 2 is_cont_encoded [of "c mod 64"]
      by (subst utf8_valid.simps)
         (simp add: encode_utf8_def utf8_step.simps safe_get_def del: of_nat_add)
  next
    case 3
    then have "utf8_char_width (of_nat (224 + c div 4096)) = 3"
      by (simp add: utf8_char_width_def u8_cmp del: of_nat_add)
    moreover have "second_of_3 (of_nat (224 + c div 4096)) (of_nat (128 + c div 64 mod 64))"
      using 3 three_byte_bounds [of c] assms
      by (auto simp: second_of_3_def u8_cmp scalar_value_def simp del: of_nat_add)
    ultimately show ?thesis
      using 3 is_cont_encoded [of "c mod 64"]
      by (subst utf8_valid.simps)
         (simp add: encode_utf8_def utf8_step.simps safe_get_def del: of_nat_add)
  next
    case 4
    then have c: "c < 1114112" using assms by (simp add: scalar_value_def)
    then have "utf8_char_width (of_nat (240 + c div 262144)) = 4"
      by (simp add: utf8_char_width_def u8_cmp del: of_nat_add)
    moreover have "second_of_4 (of_nat (240 + c div 262144)) (of_nat (128 + c div 4096 mod 64))"
      using 4 c four_byte_bounds [of c]
      by (auto simp: second_of_4_def u8_cmp simp del: of_nat_add)
    ultimately show ?thesis
      using 4 is_cont_encoded [of "c mod 64"] is_cont_encoded [of "c div 64 mod 64"]
      by (subst utf8_valid.simps)
         (simp add: encode_utf8_def utf8_step.simps safe_get_def del: of_nat_add)
  qed
qed

lemma decode_utf16_scalar: "Some c \<in> set (decode_utf16 us) \<Longrightarrow> scalar_value c"
proof (induction us rule: decode_utf16.induct)
  case (1 us)
  have lt: "unat u < 65536" for u :: u16
    using unsigned_less [of u, where ?'a = nat] by simp
  show ?case
  proof (cases us)
    case Nil
    with 1 show ?thesis by (simp add: decode_utf16.simps)
  next
    case (Cons u rest)
    with 1 lt [of u] show ?thesis
      by (subst (asm) (4) decode_utf16.simps)
         (auto simp: scalar_value_def split: if_splits list.splits)
  qed
qed

lemma str_ok_utf16_lossy [simp]: "str_ok (from_utf16_lossy us)"
proof -
  have "utf8_valid (concat (map (\<lambda>c. encode_utf8 (case c of None \<Rightarrow> 0xFFFD | Some x \<Rightarrow> x)) cs))"
    if "\<And>c. Some c \<in> set cs \<Longrightarrow> scalar_value c" for cs
    using that
  proof (induction cs)
    case (Cons c cs)
    have "utf8_valid (encode_utf8 (case c of None \<Rightarrow> 0xFFFD | Some x \<Rightarrow> x))"
      by (rule encode_utf8_valid)
         (use Cons.prems in \<open>auto simp: scalar_value_def split: option.splits\<close>)
    with Cons show ?case by (simp add: utf8_valid_append)
  qed simp
  from this [OF decode_utf16_scalar] show ?thesis
    by (simp add: from_utf16_lossy_def str_ok_def)
qed

section \<open>String slices\<close>

text \<open>
  \<^verbatim>\<open>&s[a..b]\<close> of a \<open>str\<close> counts bytes and panics unless both ends are character boundaries. In
  well-formed text the position of an ASCII byte and the position after it are boundaries.
\<close>

definition char_byte :: "char \<Rightarrow> u8" where
  "char_byte c = of_nat (of_char c)"

definition is_char_boundary :: "string \<Rightarrow> nat \<Rightarrow> bool" where
  "is_char_boundary s i \<longleftrightarrow>
     i = 0 \<or> i = length s \<or> (i < length s \<and> \<not> is_cont (char_byte (s ! i)))"

definition str_slice :: "nat \<Rightarrow> nat \<Rightarrow> string \<Rightarrow> ('e, string) res" where
  "str_slice a b s =
     (if a \<le> b \<and> is_char_boundary s a \<and> is_char_boundary s b then Ok (take (b - a) (drop a s))
      else Panic)"

lemma utf8_step_tail:
  "snd (utf8_step bs) \<Longrightarrow> i < fst (utf8_step bs) \<Longrightarrow> bs ! i < 128 \<Longrightarrow> i = 0 \<and> fst (utf8_step bs) = 1"
proof (cases bs)
  case (Cons b rest)
  assume a: "snd (utf8_step bs)" "i < fst (utf8_step bs)" "bs ! i < 128"
  have c: "\<not> is_cont x" "\<not> second_of_3 b x" "\<not> second_of_4 b x" if "x < 128" for x
    using that by (auto simp: is_cont_def second_of_3_def second_of_4_def word_less_nat_alt word_le_nat_alt)
  show ?thesis
  proof (cases i)
    case 0
    then have "utf8_char_width b = 1" using a Cons by (simp add: utf8_char_width_def)
    then show ?thesis using 0 Cons by (simp add: utf8_step.simps)
  next
    case (Suc j)
    then have "rest ! j < 128" using a(3) Cons by simp
    moreover have "j = 0 \<or> j = 1 \<or> j = 2"
      using a(1,2) Suc Cons by (auto simp: utf8_step.simps Let_def split: if_splits)
    moreover have "j < length rest" using utf8_step_le [of bs] a(2) Suc Cons by simp
    ultimately show ?thesis
      using a(1,2) Suc Cons c
      by (auto simp: utf8_step.simps Let_def safe_get_def split: if_splits)
  qed
qed (simp add: utf8_step.simps)

lemma utf8_valid_after_ascii:
  "utf8_valid bs \<Longrightarrow> i < length bs \<Longrightarrow> bs ! i < 128 \<Longrightarrow> utf8_valid (drop (Suc i) bs)"
proof (induction bs arbitrary: i rule: utf8_valid.induct)
  case (1 bs)
  let ?w = "fst (utf8_step bs)"
  have ne: "bs \<noteq> []" using 1(3) by auto
  then have ok: "snd (utf8_step bs)" "utf8_valid (drop ?w bs)"
    using 1(2) by (simp_all add: utf8_valid.simps [of bs])
  show ?case
  proof (cases "i < ?w")
    case True
    then show ?thesis using utf8_step_tail [OF ok(1) True 1(4)] ok(2) by simp
  next
    case False
    then have "utf8_valid (drop (Suc (i - ?w)) (drop ?w bs))"
      using 1(3,4) by (intro 1(1) [OF ne ok(2)]) simp_all
    then show ?thesis using False by (simp add: Suc_diff_le)
  qed
qed

lemma utf8_valid_first: "utf8_valid (b # bs) \<Longrightarrow> \<not> is_cont b"
  using utf8_valid.simps [of "b # bs"]
  by (auto simp: utf8_step.simps Let_def utf8_char_width_def is_cont_def word_less_nat_alt word_le_nat_alt
      split: if_splits)

lemma bytes_of_str_nth: "i < length s \<Longrightarrow> bytes_of_str s ! i = char_byte (s ! i)"
  by (simp add: bytes_of_str_def char_byte_def)

lemma boundary_at_ascii: "i < length s \<Longrightarrow> of_char (s ! i) < (128 :: nat) \<Longrightarrow> is_char_boundary s i"
  by (simp add: is_char_boundary_def is_cont_def char_byte_def word_le_nat_alt unat_of_nat)

lemma boundary_after_ascii:
  assumes "str_ok s" "i < length s" "of_char (s ! i) < (128 :: nat)"
  shows "is_char_boundary s (Suc i)"
proof (cases "Suc i < length s")
  case True
  have "char_byte (s ! i) < 128"
    using assms(3) by (simp add: char_byte_def word_less_nat_alt unat_of_nat)
  then have "utf8_valid (drop (Suc i) (bytes_of_str s))"
    using assms(1,2) by (intro utf8_valid_after_ascii) (simp_all add: str_ok_def bytes_of_str_nth)
  moreover have "drop (Suc i) (bytes_of_str s) = char_byte (s ! Suc i) # drop (Suc (Suc i)) (bytes_of_str s)"
    using True by (simp add: Cons_nth_drop_Suc [symmetric] bytes_of_str_nth)
  ultimately show ?thesis using True utf8_valid_first by (simp add: is_char_boundary_def)
next
  case False
  then show ?thesis using assms(2) by (simp add: is_char_boundary_def)
qed

lemma boundary_ends [simp]: "is_char_boundary s 0" "is_char_boundary s (length s)"
  by (simp_all add: is_char_boundary_def)

lemma str_slice_Ok:
  "a \<le> b \<Longrightarrow> is_char_boundary s a \<Longrightarrow> is_char_boundary s b \<Longrightarrow> str_slice a b s = Ok (take (b - a) (drop a s))"
  by (simp add: str_slice_def)

end
