(* ===== verification/Ams.thy ===== *)
theory Ams
  imports Utf8
begin

text \<open>
  The AMS protocol types of \<^verbatim>\<open>tc-otel-ads/src/ams.rs\<close> and the transport-agnostic frame of
  \<^verbatim>\<open>tc-otel-ads/src/frame.rs\<close>: net ids and their textual form, the 32-byte AMS header, the 6-byte
  AMS/TCP header, ADS write requests and complete frames, each with its parser and serializer.
  The locales \<open>codec\<close> and \<open>fixed_codec\<close> state what a serializer and its parser promise each
  other; every pair is an interpretation.
\<close>

section \<open>Errors (error.rs)\<close>

datatype ads_error =
    InvalidVersion u8
  | IncompleteMessage nat nat
  | InvalidStringEncoding string
  | InvalidTimestamp string
  | BufferError string
  | ParseError string
  | IoError string
  | ConversionError string

type_synonym 'a ads_result = "(ads_error, 'a) res"

section \<open>Contracts of serializers and parsers\<close>

locale codec =
  fixes enc :: "'a \<Rightarrow> u8 list"
    and dec :: "u8 list \<Rightarrow> ('e, 'a) res"
    and ok :: "'a \<Rightarrow> bool"
  assumes dec_enc: "ok x \<Longrightarrow> dec (enc x) = Ok x"
begin

lemma enc_inj: "ok x \<Longrightarrow> ok y \<Longrightarrow> enc x = enc y \<longleftrightarrow> x = y"
  by (metis dec_enc res.inject(1))

end

locale fixed_codec =
  fixes enc :: "'a \<Rightarrow> u8 list"
    and dec :: "u8 list \<Rightarrow> ('e, 'a) res"
    and width :: nat
  assumes enc_width: "length (enc x) = width"
    and dec_append: "dec (enc x @ rest) = Ok x"
    and enc_dec: "width \<le> length bs \<Longrightarrow> \<exists>x. dec bs = Ok x \<and> enc x = take width bs"
    and dec_short: "length bs < width \<Longrightarrow> \<exists>e. dec bs = Err e"
begin

lemma dec_Ok_iff: "dec bs = Ok x \<longleftrightarrow> width \<le> length bs \<and> take width bs = enc x"
proof
  assume d: "dec bs = Ok x"
  then have "width \<le> length bs"
    using dec_short [of bs] by (cases "length bs < width") auto
  with enc_dec [of bs] d show "width \<le> length bs \<and> take width bs = enc x"
    by auto
next
  assume w: "width \<le> length bs \<and> take width bs = enc x"
  then have "dec (take width bs @ drop width bs) = Ok x"
    using dec_append [of x "drop width bs"] by (simp del: append_take_drop_id)
  then show "dec bs = Ok x"
    by simp
qed

lemma dec_not_Panic: "dec bs \<noteq> Panic"
  using enc_dec [of bs] dec_short [of bs] by (cases "length bs < width") auto

lemma dec_take: "width \<le> length bs \<Longrightarrow> dec (take width bs) = dec bs"
proof -
  assume "width \<le> length bs"
  then obtain x where x: "dec bs = Ok x" "enc x = take width bs"
    using enc_dec by blast
  then show ?thesis using dec_append [of x "[]"] by simp
qed

end

sublocale fixed_codec \<subseteq> codec enc dec "\<lambda>_. True"
  by unfold_locales (use dec_append [of _ "[]"] in simp)

section \<open>Net ids\<close>

datatype ams_net_id = AmsNetId u8 u8 u8 u8 u8 u8

definition net_id_from_bytes :: "u8 list \<Rightarrow> ams_net_id" where
  "net_id_from_bytes bs = AmsNetId (bs ! 0) (bs ! 1) (bs ! 2) (bs ! 3) (bs ! 4) (bs ! 5)"

fun net_id_bytes :: "ams_net_id \<Rightarrow> u8 list" where
  "net_id_bytes (AmsNetId a b c d e f) = [a, b, c, d, e, f]"

fun net_id_octets :: "string list \<Rightarrow> u8 list ads_result" where
  "net_id_octets [] = Ok []"
| "net_id_octets (part # parts) =
     (case parse_unsigned 256 part of
        None \<Rightarrow> Err (ParseError (''Invalid AMS Net ID octet: '' @ part))
      | Some v \<Rightarrow> bind_res (net_id_octets parts) (\<lambda>bs. Ok (of_nat v # bs)))"

definition net_id_from_str :: "string \<Rightarrow> ams_net_id ads_result" where
  "net_id_from_str s =
     (let parts = split_on CHR ''.'' s in
      if length parts \<noteq> 6 then
        Err (ParseError (''Invalid AMS Net ID format: expected 6 parts, got ''
               @ show_nat (length parts)))
      else bind_res (net_id_octets parts) (\<lambda>bytes. Ok (net_id_from_bytes bytes)))"

definition show_u8 :: "u8 \<Rightarrow> string" where
  "show_u8 b = show_nat (unat b)"

fun show_net_id :: "ams_net_id \<Rightarrow> string" where
  "show_net_id (AmsNetId a b c d e f) =
     show_u8 a @ ''.'' @ show_u8 b @ ''.'' @ show_u8 c @ ''.'' @ show_u8 d @ ''.'' @
     show_u8 e @ ''.'' @ show_u8 f"

lemma net_id_from_to_bytes [simp]: "net_id_from_bytes (net_id_bytes n) = n"
  by (cases n) (simp add: net_id_from_bytes_def)

lemma length_net_id_bytes [simp, byte_simps]: "length (net_id_bytes n) = 6"
  by (cases n) simp

lemma length6E:
  assumes "length xs = 6"
  obtains a b c d e f where "xs = [a, b, c, d, e, f]"
  using assms by (auto simp: length_Suc_conv numeral_eq_Suc)

lemma net_id_to_from_bytes: "length bs = 6 \<Longrightarrow> net_id_bytes (net_id_from_bytes bs) = bs"
  by (erule length6E) (simp add: net_id_from_bytes_def)

lemma parse_show_u8: "parse_unsigned 256 (show_u8 b) = Some (unat b)"
  by (simp add: show_u8_def parse_unsigned_show_nat)

lemma dot_notin_show_u8: "CHR ''.'' \<notin> set (show_u8 b)"
  unfolding show_u8_def by (rule show_nat_no_low) simp

lemma split_show_net_id:
  "split_on CHR ''.'' (show_net_id (AmsNetId a b c d e f)) = map show_u8 [a, b, c, d, e, f]"
  by (simp add: split_on_append split_on_no_sep dot_notin_show_u8)

section \<open>The AMS header\<close>

definition ADS_CMD_READ_DEVICE_INFO :: u16 where "ADS_CMD_READ_DEVICE_INFO = 1"
definition ADS_CMD_READ :: u16 where "ADS_CMD_READ = 2"
definition ADS_CMD_WRITE :: u16 where "ADS_CMD_WRITE = 3"
definition ADS_CMD_READ_STATE :: u16 where "ADS_CMD_READ_STATE = 4"
definition ADS_CMD_WRITE_CONTROL :: u16 where "ADS_CMD_WRITE_CONTROL = 5"
definition ADS_CMD_ADD_NOTIFICATION :: u16 where "ADS_CMD_ADD_NOTIFICATION = 6"
definition ADS_CMD_DEL_NOTIFICATION :: u16 where "ADS_CMD_DEL_NOTIFICATION = 7"
definition ADS_CMD_NOTIFICATION :: u16 where "ADS_CMD_NOTIFICATION = 8"
definition ADS_CMD_READ_WRITE :: u16 where "ADS_CMD_READ_WRITE = 9"
definition ADS_STATE_REQUEST :: u16 where "ADS_STATE_REQUEST = 4"
definition ADS_STATE_RESPONSE :: u16 where "ADS_STATE_RESPONSE = 5"
definition ADSERR_NOERR :: u32 where "ADSERR_NOERR = 0"
definition ADSERR_DEVICE_SRVNOTSUPP :: u32 where "ADSERR_DEVICE_SRVNOTSUPP = 0x701"

lemmas ads_consts = ADS_CMD_READ_DEVICE_INFO_def ADS_CMD_READ_def ADS_CMD_WRITE_def
  ADS_CMD_READ_STATE_def ADS_CMD_WRITE_CONTROL_def ADS_CMD_ADD_NOTIFICATION_def
  ADS_CMD_DEL_NOTIFICATION_def ADS_CMD_NOTIFICATION_def ADS_CMD_READ_WRITE_def
  ADS_STATE_REQUEST_def ADS_STATE_RESPONSE_def ADSERR_NOERR_def ADSERR_DEVICE_SRVNOTSUPP_def

record ams_header =
  target_net_id :: ams_net_id
  target_port :: u16
  source_net_id :: ams_net_id
  source_port :: u16
  command_id :: u16
  state_flags :: u16
  data_length :: u32
  error_code :: u32
  invoke_id :: u32

definition ams_header_parse :: "u8 list \<Rightarrow> ams_header ads_result" where
  "ams_header_parse bs =
     (if length bs < 32 then
        Err (ParseError (''AMS header too short: '' @ show_nat (length bs) @ '' bytes''))
      else Ok
        \<lparr> target_net_id = net_id_from_bytes (bytes_at 0 6 bs),
          target_port = u16_at 6 bs,
          source_net_id = net_id_from_bytes (bytes_at 8 6 bs),
          source_port = u16_at 14 bs,
          command_id = u16_at 16 bs,
          state_flags = u16_at 18 bs,
          data_length = u32_at 20 bs,
          error_code = u32_at 24 bs,
          invoke_id = u32_at 28 bs \<rparr>)"

definition ams_header_serialize :: "ams_header \<Rightarrow> u8 list" where
  "ams_header_serialize h =
     net_id_bytes (target_net_id h) @ u16_to_le (target_port h) @
     net_id_bytes (source_net_id h) @ u16_to_le (source_port h) @
     u16_to_le (command_id h) @ u16_to_le (state_flags h) @
     u32_to_le (data_length h) @ u32_to_le (error_code h) @ u32_to_le (invoke_id h)"

definition ams_header_make_response :: "ams_header \<Rightarrow> u32 \<Rightarrow> ams_header" where
  "ams_header_make_response h err =
     \<lparr> target_net_id = source_net_id h,
       target_port = source_port h,
       source_net_id = target_net_id h,
       source_port = target_port h,
       command_id = command_id h,
       state_flags = ADS_STATE_RESPONSE,
       data_length = 4,
       error_code = err,
       invoke_id = invoke_id h \<rparr>"

lemma length_ams_header_serialize [simp, byte_simps]: "length (ams_header_serialize h) = 32"
  by (simp add: ams_header_serialize_def)

interpretation header: fixed_codec ams_header_serialize ams_header_parse 32
proof unfold_locales
  fix h :: ams_header and rest :: "u8 list"
  show "length (ams_header_serialize h) = 32" by simp
  show "ams_header_parse (ams_header_serialize h @ rest) = Ok h"
    by (simp add: ams_header_parse_def ams_header_serialize_def u16_at_def u32_at_def byte_simps)
next
  fix bs :: "u8 list"
  assume "length bs < 32"
  then show "\<exists>e. ams_header_parse bs = Err e"
    by (simp add: ams_header_parse_def)
next
  fix bs :: "u8 list"
  assume len: "32 \<le> length bs"
  have "take 32 bs = bytes_at 0 32 bs" by (simp add: bytes_at_def)
  then show "\<exists>h. ams_header_parse bs = Ok h \<and> ams_header_serialize h = take 32 bs"
    using len
    by (simp add: ams_header_parse_def ams_header_serialize_def u16_at_def u32_at_def
        net_id_to_from_bytes u16_to_from_le u32_to_from_le append_bytes_at)
qed

section \<open>ADS write requests\<close>

record ads_write_request =
  index_group :: u32
  index_offset :: u32
  write_data :: "u8 list"

definition ads_write_request_parse :: "u8 list \<Rightarrow> ads_write_request ads_result" where
  "ads_write_request_parse bs =
     (if length bs < 12 then
        Err (ParseError (''ADS Write request too short: '' @ show_nat (length bs) @ '' bytes''))
      else
        let write_length = unat (u32_at 8 bs) in
        if length bs < 12 + write_length then
          Err (ParseError (''ADS Write data incomplete: expected '' @ show_nat write_length
                 @ '' bytes''))
        else Ok
          \<lparr> index_group = u32_at 0 bs,
            index_offset = u32_at 4 bs,
            write_data = bytes_at 12 write_length bs \<rparr>)"

definition ads_write_request_serialize :: "ads_write_request \<Rightarrow> u8 list" where
  "ads_write_request_serialize w =
     u32_to_le (index_group w) @ u32_to_le (index_offset w) @
     u32_to_le (of_nat (length (write_data w))) @ write_data w"

lemma ads_write_request_append:
  assumes "length (write_data w) < 2 ^ 32"
  shows "ads_write_request_parse (ads_write_request_serialize w @ rest) = Ok w"
proof -
  have n: "unat (of_nat (length (write_data w)) :: u32) = length (write_data w)"
    using assms by (simp add: unat_of_nat)
  show ?thesis
    by (simp add: ads_write_request_parse_def ads_write_request_serialize_def u32_at_def n
        byte_simps)
qed

interpretation write_request: codec ads_write_request_serialize ads_write_request_parse
  "\<lambda>w. length (write_data w) < 2 ^ 32"
  by unfold_locales (use ads_write_request_append [of _ "[]"] in simp)

section \<open>AMS/TCP frames\<close>

record ams_tcp_header =
  reserved :: u16
  tcp_data_length :: u32

definition ams_tcp_header_parse :: "u8 list \<Rightarrow> ams_tcp_header ads_result" where
  "ams_tcp_header_parse bs =
     (if length bs < 6 then Err (IncompleteMessage 6 (length bs))
      else Ok \<lparr> reserved = u16_at 0 bs, tcp_data_length = u32_at 2 bs \<rparr>)"

definition ams_tcp_header_serialize :: "ams_tcp_header \<Rightarrow> u8 list" where
  "ams_tcp_header_serialize h = u16_to_le (reserved h) @ u32_to_le (tcp_data_length h)"

lemma length_ams_tcp_header_serialize [simp, byte_simps]:
  "length (ams_tcp_header_serialize h) = 6"
  by (simp add: ams_tcp_header_serialize_def)

interpretation tcp_header: fixed_codec ams_tcp_header_serialize ams_tcp_header_parse 6
proof unfold_locales
  fix h :: ams_tcp_header and rest :: "u8 list"
  show "length (ams_tcp_header_serialize h) = 6" by simp
  show "ams_tcp_header_parse (ams_tcp_header_serialize h @ rest) = Ok h"
    by (simp add: ams_tcp_header_parse_def ams_tcp_header_serialize_def u16_at_def u32_at_def
        byte_simps)
next
  fix bs :: "u8 list"
  assume "length bs < 6"
  then show "\<exists>e. ams_tcp_header_parse bs = Err e" by (simp add: ams_tcp_header_parse_def)
next
  fix bs :: "u8 list"
  assume len: "6 \<le> length bs"
  have "take 6 bs = bytes_at 0 6 bs" by (simp add: bytes_at_def)
  then show "\<exists>h. ams_tcp_header_parse bs = Ok h \<and> ams_tcp_header_serialize h = take 6 bs"
    using len
    by (simp add: ams_tcp_header_parse_def ams_tcp_header_serialize_def u16_at_def u32_at_def
        u16_to_from_le u32_to_from_le append_bytes_at)
qed

record ams_tcp_frame =
  tcp_header :: ams_tcp_header
  tcp_ams_header :: ams_header
  tcp_payload :: "u8 list"

definition ams_tcp_frame_parse :: "u8 list \<Rightarrow> ams_tcp_frame ads_result" where
  "ams_tcp_frame_parse bs =
     (if length bs < 38 then Err (IncompleteMessage 38 (length bs))
      else
        bind_res (ams_tcp_header_parse (bytes_at 0 6 bs)) (\<lambda>th.
        bind_res (ams_header_parse (bytes_at 6 32 bs)) (\<lambda>ah.
        let expected_total = 6 + unat (tcp_data_length th) in
        if length bs < expected_total then Err (IncompleteMessage expected_total (length bs))
        else Ok \<lparr> tcp_header = th, tcp_ams_header = ah, tcp_payload = drop 38 bs \<rparr>)))"

definition ams_tcp_frame_make_response :: "ams_tcp_frame \<Rightarrow> u32 \<Rightarrow> u8 list \<Rightarrow> ams_tcp_frame" where
  "ams_tcp_frame_make_response f err response_data =
     (let response_data_length = of_nat (length response_data) in
      \<lparr> tcp_header = \<lparr> reserved = 0, tcp_data_length = 32 + response_data_length \<rparr>,
        tcp_ams_header =
          (ams_header_make_response (tcp_ams_header f) err)\<lparr>data_length := response_data_length\<rparr>,
        tcp_payload = response_data \<rparr>)"

definition ams_tcp_frame_serialize :: "ams_tcp_frame \<Rightarrow> u8 list" where
  "ams_tcp_frame_serialize f =
     ams_tcp_header_serialize (tcp_header f) @ ams_header_serialize (tcp_ams_header f)
       @ tcp_payload f"

definition extract_write_request :: "ams_tcp_frame \<Rightarrow> ads_write_request ads_result" where
  "extract_write_request f =
     (if command_id (tcp_ams_header f) \<noteq> ADS_CMD_WRITE then
        Err (ParseError (''Expected Write command ('' @ show_nat (unat ADS_CMD_WRITE)
               @ ''), got '' @ show_nat (unat (command_id (tcp_ams_header f)))))
      else ads_write_request_parse (tcp_payload f))"

text \<open>The frame declares no more bytes than it carries.\<close>

definition tcp_frame_ok :: "ams_tcp_frame \<Rightarrow> bool" where
  "tcp_frame_ok f \<longleftrightarrow> unat (tcp_data_length (tcp_header f)) \<le> 32 + length (tcp_payload f)"

lemma ams_tcp_frame_append:
  assumes "tcp_frame_ok f"
  shows "ams_tcp_frame_parse (ams_tcp_frame_serialize f @ extra)
           = Ok (f\<lparr>tcp_payload := tcp_payload f @ extra\<rparr>)"
proof -
  let ?bs = "ams_tcp_frame_serialize f @ extra"
  have th: "ams_tcp_header_parse (bytes_at 0 6 ?bs) = Ok (tcp_header f)"
    using tcp_header.dec_append [of "tcp_header f" "[]"]
    by (simp add: ams_tcp_frame_serialize_def byte_simps)
  have ah: "ams_header_parse (bytes_at 6 32 ?bs) = Ok (tcp_ams_header f)"
    using header.dec_append [of "tcp_ams_header f" "[]"]
    by (simp add: ams_tcp_frame_serialize_def byte_simps)
  have "drop 38 ?bs = tcp_payload f @ extra" and "length ?bs = 38 + length (tcp_payload f @ extra)"
    by (simp_all add: ams_tcp_frame_serialize_def)
  then show ?thesis
    using assms by (simp add: ams_tcp_frame_parse_def th ah tcp_frame_ok_def)
qed

interpretation tcp_frame: codec ams_tcp_frame_serialize ams_tcp_frame_parse tcp_frame_ok
  by unfold_locales (use ams_tcp_frame_append [of _ "[]"] in simp)

section \<open>Transport-agnostic frames (frame.rs)\<close>

record ams_frame =
  frame_header :: ams_header
  frame_payload :: "u8 list"

definition ams_frame_decode :: "u8 list \<Rightarrow> ams_frame ads_result" where
  "ams_frame_decode bs =
     (if length bs < 32 then
        Err (ParseError (''AMS frame too short: '' @ show_nat (length bs)
               @ '' bytes (minimum 32)''))
      else bind_res (ams_header_parse bs) (\<lambda>h.
        Ok \<lparr> frame_header = h,
             frame_payload = (if 32 < length bs then drop 32 bs else []) \<rparr>))"

definition ams_frame_encode :: "ams_frame \<Rightarrow> u8 list" where
  "ams_frame_encode f = ams_header_serialize (frame_header f) @ frame_payload f"

definition encode_with_tcp_header :: "ams_frame \<Rightarrow> u8 list" where
  "encode_with_tcp_header f =
     (let frame_bytes = ams_frame_encode f
      in u16_to_le 0 @ u32_to_le (of_nat (length frame_bytes)) @ frame_bytes)"

definition ams_frame_build_response :: "ams_frame \<Rightarrow> u8 list \<Rightarrow> ams_frame" where
  "ams_frame_build_response f payload =
     \<lparr> frame_header =
         \<lparr> target_net_id = source_net_id (frame_header f),
           target_port = source_port (frame_header f),
           source_net_id = target_net_id (frame_header f),
           source_port = target_port (frame_header f),
           command_id = command_id (frame_header f),
           state_flags = 5,
           data_length = of_nat (length payload),
           error_code = 0,
           invoke_id = invoke_id (frame_header f) \<rparr>,
       frame_payload = payload \<rparr>"

interpretation ams_frame: codec ams_frame_encode ams_frame_decode "\<lambda>_. True"
proof unfold_locales
  fix f :: ams_frame
  show "ams_frame_decode (ams_frame_encode f) = Ok f"
    using header.dec_append [of "frame_header f" "frame_payload f"]
    by (simp add: ams_frame_decode_def ams_frame_encode_def)
qed

lemma ams_frame_decode_Ok_iff: "ams_frame_decode bs = Ok f \<longleftrightarrow> ams_frame_encode f = bs"
proof
  assume d: "ams_frame_decode bs = Ok f"
  then have len: "32 \<le> length bs" and h: "ams_header_parse bs = Ok (frame_header f)"
    and p: "frame_payload f = drop 32 bs"
    by (auto simp: ams_frame_decode_def bind_res_Ok_iff split: if_splits)
  from h have "take 32 bs = ams_header_serialize (frame_header f)"
    by (simp add: header.dec_Ok_iff)
  with p show "ams_frame_encode f = bs"
    by (metis ams_frame_encode_def append_take_drop_id)
next
  assume "ams_frame_encode f = bs"
  then show "ams_frame_decode bs = Ok f"
    using ams_frame.dec_enc [of f] by simp
qed

lemma net_id_from_show: "net_id_from_str (show_net_id n) = Ok n"
proof (cases n)
  case (AmsNetId a b c d e f)
  then show ?thesis
    unfolding net_id_from_str_def Let_def AmsNetId split_show_net_id
    by (simp add: parse_show_u8 net_id_from_bytes_def)
qed

section \<open>Properties\<close>

text \<open>
  Frames and byte strings correspond one to one: decoding yields a frame exactly when the
  bytes are that frame's encoding, and it fails exactly on fewer than the 32 bytes of a header.
\<close>

theorem ams_frame_bijective:
  "(ams_frame_decode bs = Ok f \<longleftrightarrow> ams_frame_encode f = bs) \<and>
   ((\<exists>e. ams_frame_decode bs = Err e) \<longleftrightarrow> length bs < 32)"
proof -
  have "\<exists>g. ams_frame_decode bs = Ok g" if "\<not> length bs < 32"
    using that header.enc_dec [of bs] by (auto simp: ams_frame_decode_def)
  then have "(\<exists>e. ams_frame_decode bs = Err e) \<longleftrightarrow> length bs < 32"
    by (fastforce simp: ams_frame_decode_def)
  then show ?thesis by (simp add: ams_frame_decode_Ok_iff)
qed

text \<open>
  The textual form of a net id, six decimal numbers separated by dots, is parsed back to the
  same net id.
\<close>

theorem net_id_text_roundtrip: "net_id_from_str (show_net_id n) = Ok n"
  by (rule net_id_from_show)

text \<open>
  A complete frame of the TCP transport is parsed back from its bytes, but whatever follows
  it in the buffer is taken as part of its payload: the parser checks the announced length as a
  lower bound only and does not cut the payload there.
\<close>

theorem tcp_frame_absorbs_trailing_bytes:
  assumes "tcp_frame_ok f"
  shows "ams_tcp_frame_parse (ams_tcp_frame_serialize f @ extra) =
           Ok (f\<lparr>tcp_payload := tcp_payload f @ extra\<rparr>)"
  using assms by (rule ams_tcp_frame_append)

definition sample_header :: ams_header where
  "sample_header =
     \<lparr>target_net_id = AmsNetId 192 168 0 1 1 1, target_port = 16150,
      source_net_id = AmsNetId 5 80 201 232 1 1, source_port = 350, command_id = ADS_CMD_WRITE,
      state_flags = ADS_STATE_REQUEST, data_length = 2, error_code = 0, invoke_id = 7\<rparr>"

definition sample_tcp_frame :: ams_tcp_frame where
  "sample_tcp_frame =
     \<lparr>tcp_header = \<lparr>reserved = 0, tcp_data_length = 34\<rparr>, tcp_ams_header = sample_header,
      tcp_payload = [1, 2]\<rparr>"

theorem tcp_frame_absorbs_trailing_bytes_witness:
  "tcp_frame_ok sample_tcp_frame \<and>
   ams_tcp_frame_parse (ams_tcp_frame_serialize sample_tcp_frame @ [9]) =
     Ok (sample_tcp_frame\<lparr>tcp_payload := [1, 2, 9]\<rparr>)"
  using tcp_frame_absorbs_trailing_bytes [of sample_tcp_frame "[9]"]
  by (simp add: tcp_frame_ok_def sample_tcp_frame_def)

end
