(* ===== verification/Hash_Map.thy ===== *)
theory Hash_Map
  imports Rust_Std
begin

text \<open>
  \<open>std::collections::HashMap\<close>. The locale \<open>hash_map\<close> states what the program relies on: a lookup
  after an insertion or a removal, the number of entries, and the well-formedness every operation
  keeps. The model of a map is an association list with distinct keys; the interpretation \<open>hm\<close>
  discharges the laws for it. The iteration order of a Rust map is unspecified: code that iterates
  takes a function \<open>ord\<close> that arranges the entries, and \<open>iteration ord\<close> says only that it
  returns each entry once.
\<close>

section \<open>The interface\<close>

locale hash_map =
  fixes empty :: 'm
    and get :: "'m \<Rightarrow> 'k \<Rightarrow> 'v option"
    and insert :: "'k \<Rightarrow> 'v \<Rightarrow> 'm \<Rightarrow> 'm"
    and remove :: "'k \<Rightarrow> 'm \<Rightarrow> 'm"
    and len :: "'m \<Rightarrow> nat"
    and wf :: "'m \<Rightarrow> bool"
  assumes get_empty: "get empty = (\<lambda>_. None)"
    and get_insert: "get (insert k v m) = (get m)(k := Some v)"
    and get_remove: "wf m \<Longrightarrow> get (remove k m) = (get m)(k := None)"
    and finite_dom: "finite (dom (get m))"
    and len_card: "wf m \<Longrightarrow> len m = card (dom (get m))"
    and wf_empty: "wf empty"
    and wf_insert: "wf m \<Longrightarrow> wf (insert k v m)"
    and wf_remove: "wf m \<Longrightarrow> wf (remove k m)"
begin

lemma get_insert_same: "get (insert k v m) k = Some v"
  by (simp add: get_insert)

lemma get_insert_other: "k \<noteq> k' \<Longrightarrow> get (insert k v m) k' = get m k'"
  by (simp add: get_insert)

lemma get_remove_same: "wf m \<Longrightarrow> get (remove k m) k = None"
  by (simp add: get_remove)

lemma get_remove_other: "wf m \<Longrightarrow> k \<noteq> k' \<Longrightarrow> get (remove k m) k' = get m k'"
  by (simp add: get_remove)

lemma len_empty: "len empty = 0"
  by (simp add: len_card wf_empty get_empty)

lemma len_insert_new: "wf m \<Longrightarrow> get m k = None \<Longrightarrow> len (insert k v m) = Suc (len m)"
  by (simp add: len_card wf_insert get_insert finite_dom card_insert_if domIff)

lemma len_insert_old: "wf m \<Longrightarrow> get m k \<noteq> None \<Longrightarrow> len (insert k v m) = len m"
  by (simp add: len_card wf_insert get_insert finite_dom card_insert_if domIff)

lemma len_remove_old: "wf m \<Longrightarrow> get m k \<noteq> None \<Longrightarrow> len (remove k m) = len m - 1"
  by (simp add: len_card wf_remove get_remove finite_dom card_Diff_singleton domIff)

lemma len_remove_new: "wf m \<Longrightarrow> get m k = None \<Longrightarrow> len (remove k m) = len m"
proof -
  assume m: "wf m" "get m k = None"
  then have "(get m)(k := None) = get m" by auto
  with m show ?thesis by (simp add: len_card wf_remove get_remove)
qed

lemma len_pos: "wf m \<Longrightarrow> get m k \<noteq> None \<Longrightarrow> 0 < len m"
  by (auto simp: len_card card_gt_0_iff finite_dom)

lemma len_insert_le: "wf m \<Longrightarrow> len (insert k v m) \<le> Suc (len m)"
  by (cases "get m k") (simp_all add: len_insert_new len_insert_old)

lemma len_remove_le: "wf m \<Longrightarrow> len (remove k m) \<le> len m"
  by (cases "get m k") (simp_all add: len_remove_new len_remove_old)

lemma insert_remove_len: "wf m \<Longrightarrow> len (insert k v (remove k m)) = len (insert k v m)"
  by (simp add: len_card wf_remove wf_insert get_insert get_remove finite_dom)

end

section \<open>The model\<close>

type_synonym ('k, 'v) hmap = "('k \<times> 'v) list"

definition hm_get :: "('k, 'v) hmap \<Rightarrow> 'k \<Rightarrow> 'v option" where
  "hm_get m = map_of m"

definition hm_insert :: "'k \<Rightarrow> 'v \<Rightarrow> ('k, 'v) hmap \<Rightarrow> ('k, 'v) hmap" where
  "hm_insert k v m = AList.update k v m"

definition hm_remove :: "'k \<Rightarrow> ('k, 'v) hmap \<Rightarrow> ('k, 'v) hmap" where
  "hm_remove k m = AList.delete k m"

definition hm_wf :: "('k, 'v) hmap \<Rightarrow> bool" where
  "hm_wf m \<longleftrightarrow> distinct (map fst m)"

interpretation hm: hash_map "[]" hm_get hm_insert hm_remove length hm_wf
proof unfold_locales
  show "hm_get [] = (\<lambda>_. None)"
    by (simp add: hm_get_def fun_eq_iff)
next
  fix m :: "('a, 'b) hmap" and k v
  show "hm_get (hm_insert k v m) = (hm_get m)(k := Some v)"
    by (simp add: hm_get_def hm_insert_def fun_eq_iff update_conv)
  show "finite (dom (hm_get m))"
    by (simp add: hm_get_def finite_dom_map_of)
  assume wf: "hm_wf m"
  show "hm_get (hm_remove k m) = (hm_get m)(k := None)"
    by (simp add: hm_get_def hm_remove_def fun_eq_iff delete_conv)
  show "length m = card (dom (hm_get m))"
    using wf
    by (simp add: hm_get_def hm_wf_def dom_map_of_conv_image_fst distinct_card flip: set_map)
  show "hm_wf (hm_insert k v m)"
    using wf by (simp add: hm_wf_def hm_insert_def distinct_update)
  show "hm_wf (hm_remove k m)"
    using wf by (simp add: hm_wf_def hm_remove_def distinct_delete)
qed (simp add: hm_wf_def)

named_theorems hm_simps \<open>lookups, sizes and well-formedness of hash maps\<close>

lemmas [hm_simps] = hm.get_empty hm.get_insert hm.get_remove hm.wf_empty hm.wf_insert hm.wf_remove
lemmas [simp] = hm.wf_empty hm.wf_insert hm.wf_remove

lemma hm_get_Nil [simp]: "hm_get [] k = None"
  by (simp add: hm_get_def)

lemma hm_get_Some_mem: "hm_get m k = Some v \<Longrightarrow> (k, v) \<in> set m"
  by (simp add: hm_get_def map_of_SomeD)

lemma hm_mem_get: "hm_wf m \<Longrightarrow> (k, v) \<in> set m \<Longrightarrow> hm_get m k = Some v"
  by (simp add: hm_get_def hm_wf_def)

lemma hm_get_iff_mem: "hm_wf m \<Longrightarrow> hm_get m k = Some v \<longleftrightarrow> (k, v) \<in> set m"
  using hm_get_Some_mem hm_mem_get by metis

text \<open>The entries as a multiset, for code that accounts for every entry.\<close>

lemma mset_hm_remove:
  assumes "hm_wf m" "hm_get m k = Some v"
  shows "mset m = add_mset (k, v) (mset (hm_remove k m))"
  using assms
proof (induction m)
  case (Cons e m)
  then show ?case
    by (cases e) (auto simp: hm_wf_def hm_get_def hm_remove_def delete_id split: if_splits)
qed simp

lemma hm_remove_absent: "hm_get m k = None \<Longrightarrow> hm_remove k m = m"
  by (simp add: hm_get_def hm_remove_def delete_id map_of_eq_None_iff)

lemma mset_hm_insert_new: "hm_get m k = None \<Longrightarrow> mset (hm_insert k v m) = add_mset (k, v) (mset m)"
  by (induction m) (auto simp: hm_get_def hm_insert_def split: if_splits)

lemma mset_hm_insert_old:
  assumes "hm_wf m" "hm_get m k = Some v"
  shows "mset (hm_insert k v' m) = add_mset (k, v') (mset (hm_remove k m))"
  using assms
proof (induction m)
  case (Cons e m)
  then show ?case
    by (cases e) (auto simp: hm_wf_def hm_get_def hm_insert_def hm_remove_def delete_id split: if_splits)
qed simp

section \<open>Iteration\<close>

type_synonym ('k, 'v) iter = "('k, 'v) hmap \<Rightarrow> ('k \<times> 'v) list"

definition iteration :: "('k, 'v) iter \<Rightarrow> bool" where
  "iteration ord \<longleftrightarrow> (\<forall>m. mset (ord m) = mset m)"

lemma iteration_set: "iteration ord \<Longrightarrow> set (ord m) = set m"
  unfolding iteration_def by (metis set_mset_mset)

lemma iteration_length: "iteration ord \<Longrightarrow> length (ord m) = length m"
  unfolding iteration_def by (metis size_mset)

lemma iteration_distinct: "iteration ord \<Longrightarrow> hm_wf m \<Longrightarrow> distinct (map fst (ord m))"
  unfolding iteration_def hm_wf_def
  by (metis mset_map mset_eq_imp_distinct_iff)

lemma iteration_id: "iteration (\<lambda>m. m)"
  by (simp add: iteration_def)

end
