(* ===== verification/Models.thy ===== *)
theory Models
  imports Utf8 Hash_Map
begin

text \<open>
  The data model of \<^verbatim>\<open>tc-otel-core/src/models.rs\<close>: metric, span and log entries as the PLC side
  delivers them, the OTLP records they are converted to, and the resource attributes the three
  kinds share. Values of third-party crates are data here: \<open>json\<close> for \<^verbatim>\<open>serde_json::Value\<close>
  (integers as mathematical integers, floats as bit patterns), \<open>datetime\<close> for
  \<^verbatim>\<open>chrono::DateTime<Utc>\<close> (seconds since 1970 and nanoseconds within the second). Their
  functions are the fields of the record \<open>ext\<close>, an argument of the code that calls them.
\<close>

section \<open>Values of third-party crates\<close>

datatype json =
    JNull
  | JBool bool
  | JInt int
  | JFloat f64
  | JString string
  | JArray "json list"
  | JObject "(string \<times> json) list"

datatype datetime = DateTime (dt_secs: int) (dt_nanos: nat)

text \<open>
  \<open>utc_now n\<close> is the \<open>n\<close>-th reading of \<^verbatim>\<open>Utc::now()\<close>; \<open>from_timestamp\<close>,
  \<open>format_date\<close> (\<^verbatim>\<open>%Y-%-m-%-d\<close>) and \<open>format_date_time\<close> (\<^verbatim>\<open>%Y-%-m-%-d-%H:%M:%S\<close>) are
  chrono's; \<open>json_f32\<close> and \<open>json_f64\<close> are the conversions behind \<^verbatim>\<open>serde_json::json!\<close>.
  \<open>overflow_checks\<close> is the compiler setting: on in debug builds (an arithmetic overflow panics),
  off in the release profile (it wraps around).
\<close>

record ext =
  utc_now :: "nat \<Rightarrow> datetime"
  from_timestamp :: "int \<Rightarrow> nat \<Rightarrow> datetime option"
  datetime_default :: datetime
  format_date :: "datetime \<Rightarrow> string"
  format_date_time :: "datetime \<Rightarrow> string"
  json_f32 :: "f32 \<Rightarrow> json"
  json_f64 :: "f64 \<Rightarrow> json"
  overflow_checks :: bool

text \<open>
  A concrete instance: timestamps kept as they are, nanoseconds below one second, empty date
  strings. The argument is the compiler setting.
\<close>

definition unix_ext :: "bool \<Rightarrow> ext" where
  "unix_ext checks =
     \<lparr>utc_now = (\<lambda>n. DateTime (int n) 0),
      from_timestamp = (\<lambda>secs nanos. if nanos < 1000000000 then Some (DateTime secs nanos) else None),
      datetime_default = DateTime 0 0,
      format_date = (\<lambda>_. []), format_date_time = (\<lambda>_. []),
      json_f32 = (\<lambda>w. JFloat (ucast w)), json_f64 = JFloat,
      overflow_checks = checks\<rparr>"

section \<open>Shared resource helpers\<close>

definition build_service_instance_id :: "string \<Rightarrow> string \<Rightarrow> u16 \<Rightarrow> string option" where
  "build_service_instance_id app_name ams_net_id app_port =
     (let has_app = app_name \<noteq> []; has_net = ams_net_id \<noteq> []; has_port = app_port \<noteq> 0 in
      if has_app \<and> has_net \<and> has_port then
        Some (app_name @ ''@'' @ ams_net_id @ '':'' @ show_nat (unat app_port))
      else if has_app \<and> has_net then Some (app_name @ ''@'' @ ams_net_id)
      else if has_app then Some app_name
      else if has_net \<and> has_port then Some (ams_net_id @ '':'' @ show_nat (unat app_port))
      else if has_net then Some ams_net_id
      else None)"

type_synonym attrs = "(string, json) hmap"

definition insert_when :: "bool \<Rightarrow> string \<Rightarrow> json \<Rightarrow> attrs \<Rightarrow> attrs" where
  "insert_when c k v m = (if c then hm_insert k v m else m)"

definition build_otel_resource ::
    "string \<Rightarrow> string \<Rightarrow> string \<Rightarrow> string \<Rightarrow> u16 \<Rightarrow> u16 \<Rightarrow> attrs" where
  "build_otel_resource project_name app_name hostname ams_net_id app_port ams_source_port =
     (let r0 = [];
          r1 = insert_when (project_name \<noteq> []) ''service.name'' (JString project_name) r0;
          r2 = (case build_service_instance_id app_name ams_net_id app_port of
                  Some instance_id \<Rightarrow> hm_insert ''service.instance.id'' (JString instance_id) r1
                | None \<Rightarrow> r1);
          r3 = insert_when (hostname \<noteq> []) ''host.name'' (JString hostname) r2;
          r4 = insert_when (ams_net_id \<noteq> []) ''plc.ams_net_id'' (JString ams_net_id) r3;
          r5 = insert_when (0 < app_port) ''plc.ams_app_port'' (JInt (uint app_port)) r4
      in insert_when (0 < ams_source_port) ''plc.ams_source_port'' (JInt (uint ams_source_port)) r5)"

section \<open>Enumerations\<close>

datatype metric_kind = Gauge | Sum | Histogram

definition metric_kind_from_u8 :: "u8 \<Rightarrow> metric_kind option" where
  "metric_kind_from_u8 v =
     (if v = 0 then Some Gauge else if v = 1 then Some Sum else if v = 2 then Some Histogram
      else None)"

fun metric_kind_as_u8 :: "metric_kind \<Rightarrow> u8" where
  "metric_kind_as_u8 Gauge = 0"
| "metric_kind_as_u8 Sum = 1"
| "metric_kind_as_u8 Histogram = 2"

datatype span_kind = Internal | Server | Client | Producer | Consumer

definition span_kind_from_u8 :: "u8 \<Rightarrow> span_kind option" where
  "span_kind_from_u8 v =
     (if v = 0 then Some Internal else if v = 1 then Some Server else if v = 2 then Some Client
      else if v = 3 then Some Producer else if v = 4 then Some Consumer else None)"

fun span_kind_as_u8 :: "span_kind \<Rightarrow> u8" where
  "span_kind_as_u8 Internal = 0"
| "span_kind_as_u8 Server = 1"
| "span_kind_as_u8 Client = 2"
| "span_kind_as_u8 Producer = 3"
| "span_kind_as_u8 Consumer = 4"

fun to_otel_kind :: "span_kind \<Rightarrow> int" where
  "to_otel_kind Internal = 1"
| "to_otel_kind Server = 2"
| "to_otel_kind Client = 3"
| "to_otel_kind Producer = 4"
| "to_otel_kind Consumer = 5"

datatype span_status_code = StatusUnset | StatusOk | StatusError

definition span_status_from_u8 :: "u8 \<Rightarrow> span_status_code option" where
  "span_status_from_u8 v =
     (if v = 0 then Some StatusUnset else if v = 1 then Some StatusOk
      else if v = 2 then Some StatusError else None)"

fun span_status_as_u8 :: "span_status_code \<Rightarrow> u8" where
  "span_status_as_u8 StatusUnset = 0"
| "span_status_as_u8 StatusOk = 1"
| "span_status_as_u8 StatusError = 2"

fun to_otel_status :: "span_status_code \<Rightarrow> int" where
  "to_otel_status StatusUnset = 0"
| "to_otel_status StatusOk = 1"
| "to_otel_status StatusError = 2"

datatype log_level = LTrace | LDebug | LInfo | LWarn | LError | LFatal

definition log_level_from_u8 :: "u8 \<Rightarrow> log_level option" where
  "log_level_from_u8 v =
     (if v = 0 then Some LTrace else if v = 1 then Some LDebug else if v = 2 then Some LInfo
      else if v = 3 then Some LWarn else if v = 4 then Some LError else if v = 5 then Some LFatal
      else None)"

fun log_level_as_u8 :: "log_level \<Rightarrow> u8" where
  "log_level_as_u8 LTrace = 0"
| "log_level_as_u8 LDebug = 1"
| "log_level_as_u8 LInfo = 2"
| "log_level_as_u8 LWarn = 3"
| "log_level_as_u8 LError = 4"
| "log_level_as_u8 LFatal = 5"

fun to_otel_severity_number :: "log_level \<Rightarrow> int" where
  "to_otel_severity_number LTrace = 1"
| "to_otel_severity_number LDebug = 5"
| "to_otel_severity_number LInfo = 9"
| "to_otel_severity_number LWarn = 13"
| "to_otel_severity_number LError = 17"
| "to_otel_severity_number LFatal = 21"

fun to_otel_severity_text :: "log_level \<Rightarrow> string" where
  "to_otel_severity_text LTrace = ''TRACE''"
| "to_otel_severity_text LDebug = ''DEBUG''"
| "to_otel_severity_text LInfo = ''INFO''"
| "to_otel_severity_text LWarn = ''WARN''"
| "to_otel_severity_text LError = ''ERROR''"
| "to_otel_severity_text LFatal = ''FATAL''"

text \<open>
  A wire enumeration: a type of codes, a decoder that rejects every other byte and the encoder
  that inverts it.
\<close>

locale wire_enum =
  fixes from_u8 :: "u8 \<Rightarrow> 'a option"
    and as_u8 :: "'a \<Rightarrow> u8"
  assumes from_as: "from_u8 (as_u8 x) = Some x"
    and as_from: "from_u8 v = Some x \<Longrightarrow> as_u8 x = v"
begin

lemma from_Some_iff: "from_u8 v = Some x \<longleftrightarrow> v = as_u8 x"
  using from_as as_from by auto

lemma as_u8_inj: "as_u8 x = as_u8 y \<longleftrightarrow> x = y"
  by (metis from_as option.inject)

end

interpretation metric_kind: wire_enum metric_kind_from_u8 metric_kind_as_u8
proof unfold_locales
  show "metric_kind_from_u8 (metric_kind_as_u8 x) = Some x" for x
    by (cases x) (simp_all add: metric_kind_from_u8_def)
qed (auto simp: metric_kind_from_u8_def split: if_splits)

interpretation span_kind: wire_enum span_kind_from_u8 span_kind_as_u8
proof unfold_locales
  show "span_kind_from_u8 (span_kind_as_u8 x) = Some x" for x
    by (cases x) (simp_all add: span_kind_from_u8_def)
qed (auto simp: span_kind_from_u8_def split: if_splits)

interpretation span_status: wire_enum span_status_from_u8 span_status_as_u8
proof unfold_locales
  show "span_status_from_u8 (span_status_as_u8 x) = Some x" for x
    by (cases x) (simp_all add: span_status_from_u8_def)
qed (auto simp: span_status_from_u8_def split: if_splits)

interpretation log_level: wire_enum log_level_from_u8 log_level_as_u8
proof unfold_locales
  show "log_level_from_u8 (log_level_as_u8 x) = Some x" for x
    by (cases x) (simp_all add: log_level_from_u8_def)
qed (auto simp: log_level_from_u8_def split: if_splits)

section \<open>Metric entries and records\<close>

abbreviation no_trace :: "u8 list" where
  "no_trace \<equiv> replicate 16 0"

abbreviation no_span :: "u8 list" where
  "no_span \<equiv> replicate 8 0"

record metric_entry =
  me_name :: string
  me_description :: string
  me_unit :: string
  me_kind :: metric_kind
  me_value :: f64
  me_timestamp :: datetime
  me_source :: string
  me_hostname :: string
  me_ams_net_id :: string
  me_ams_source_port :: u16
  me_ams_app_port :: u16
  me_task_index :: int
  me_task_name :: string
  me_task_cycle_counter :: u32
  me_app_name :: string
  me_project_name :: string
  me_scope_namespace :: string
  me_attributes :: attrs
  me_histogram_bounds :: "f64 list"
  me_histogram_counts :: "u64 list"
  me_histogram_count :: u64
  me_histogram_sum :: f64
  me_is_monotonic :: bool
  me_trace_id :: "u8 list"
  me_span_id :: "u8 list"

definition metric_entry_gauge :: "datetime \<Rightarrow> string \<Rightarrow> f64 \<Rightarrow> metric_entry" where
  "metric_entry_gauge now name value =
     \<lparr>me_name = name, me_description = '''', me_unit = '''', me_kind = Gauge, me_value = value,
      me_timestamp = now, me_source = '''', me_hostname = '''', me_ams_net_id = '''',
      me_ams_source_port = 0, me_ams_app_port = 0, me_task_index = 0, me_task_name = '''',
      me_task_cycle_counter = 0, me_app_name = '''', me_project_name = '''',
      me_scope_namespace = '''', me_attributes = [], me_histogram_bounds = [],
      me_histogram_counts = [], me_histogram_count = 0, me_histogram_sum = 0,
      me_is_monotonic = False, me_trace_id = no_trace, me_span_id = no_span\<rparr>"

definition metric_entry_sum :: "datetime \<Rightarrow> string \<Rightarrow> f64 \<Rightarrow> bool \<Rightarrow> metric_entry" where
  "metric_entry_sum now name value is_monotonic =
     (metric_entry_gauge now name value)\<lparr>me_kind := Sum, me_is_monotonic := is_monotonic\<rparr>"

definition metric_entry_histogram ::
    "datetime \<Rightarrow> string \<Rightarrow> f64 list \<Rightarrow> u64 list \<Rightarrow> u64 \<Rightarrow> f64 \<Rightarrow> metric_entry" where
  "metric_entry_histogram now name bounds counts n_total total_sum =
     (metric_entry_gauge now name 0)
       \<lparr>me_kind := Histogram, me_value := 0, me_histogram_bounds := bounds,
        me_histogram_counts := counts, me_histogram_count := n_total, me_histogram_sum := total_sum\<rparr>"

definition metric_has_trace_context :: "metric_entry \<Rightarrow> bool" where
  "metric_has_trace_context e \<longleftrightarrow> me_trace_id e \<noteq> no_trace \<or> me_span_id e \<noteq> no_span"

definition metric_trace_id_hex :: "metric_entry \<Rightarrow> string" where
  "metric_trace_id_hex e =
     (if me_trace_id e = no_trace then '''' else hex_string (me_trace_id e))"

definition metric_span_id_hex :: "metric_entry \<Rightarrow> string" where
  "metric_span_id_hex e =
     (if me_span_id e = no_span then '''' else hex_string (me_span_id e))"

record metric_record =
  mr_name :: string
  mr_description :: string
  mr_unit :: string
  mr_kind :: metric_kind
  mr_timestamp :: datetime
  mr_value :: f64
  mr_is_monotonic :: bool
  mr_resource_attributes :: attrs
  mr_scope_name :: string
  mr_attributes :: attrs
  mr_histogram_bounds :: "f64 list"
  mr_histogram_counts :: "u64 list"
  mr_histogram_count :: u64
  mr_histogram_sum :: f64
  mr_trace_id :: string
  mr_span_id :: string

text \<open>
  The attribute block that metric and trace records share: source address, task name, task index
  and cycle counter, each only when populated.
\<close>

definition add_task_attrs :: "string \<Rightarrow> string \<Rightarrow> int \<Rightarrow> u32 \<Rightarrow> attrs \<Rightarrow> attrs" where
  "add_task_attrs source task_name task_index cycle a0 =
     (let a1 = insert_when (source \<noteq> []) ''source.address'' (JString source) a0;
          a2 = insert_when (task_name \<noteq> []) ''task.name'' (JString task_name) a1;
          a3 = insert_when (0 < task_index) ''task.index'' (JInt task_index) a2
      in insert_when (0 < cycle) ''task.cycle'' (JInt (uint cycle)) a3)"

definition from_metric_entry :: "metric_entry \<Rightarrow> metric_record" where
  "from_metric_entry e =
     \<lparr>mr_name = me_name e, mr_description = me_description e, mr_unit = me_unit e,
      mr_kind = me_kind e, mr_timestamp = me_timestamp e, mr_value = me_value e,
      mr_is_monotonic = me_is_monotonic e,
      mr_resource_attributes =
        build_otel_resource (me_project_name e) (me_app_name e) (me_hostname e)
          (me_ams_net_id e) (me_ams_app_port e) (me_ams_source_port e),
      mr_scope_name = me_scope_namespace e,
      mr_attributes =
        add_task_attrs (me_source e) (me_task_name e) (me_task_index e)
          (me_task_cycle_counter e) (me_attributes e),
      mr_histogram_bounds = me_histogram_bounds e,
      mr_histogram_counts = me_histogram_counts e,
      mr_histogram_count = me_histogram_count e, mr_histogram_sum = me_histogram_sum e,
      mr_trace_id = metric_trace_id_hex e, mr_span_id = metric_span_id_hex e\<rparr>"

section \<open>Span entries and trace records\<close>

record span_event =
  sv_timestamp :: datetime
  sv_name :: string
  sv_attributes :: attrs

record span_entry =
  sp_trace_id :: "u8 list"
  sp_span_id :: "u8 list"
  sp_parent_span_id :: "u8 list"
  sp_name :: string
  sp_kind :: span_kind
  sp_status_code :: span_status_code
  sp_status_message :: string
  sp_start_time :: datetime
  sp_end_time :: datetime
  sp_source :: string
  sp_hostname :: string
  sp_ams_net_id :: string
  sp_ams_source_port :: u16
  sp_ams_app_port :: u16
  sp_task_index :: int
  sp_task_name :: string
  sp_task_cycle_counter :: u32
  sp_app_name :: string
  sp_project_name :: string
  sp_scope_namespace :: string
  sp_attributes :: attrs
  sp_events :: "span_event list"

definition span_entry_new ::
    "datetime \<Rightarrow> datetime \<Rightarrow> u8 list \<Rightarrow> u8 list \<Rightarrow> string \<Rightarrow> span_entry" where
  "span_entry_new now1 now2 trace_id span_id name =
     \<lparr>sp_trace_id = trace_id, sp_span_id = span_id, sp_parent_span_id = no_span,
      sp_name = name, sp_kind = Internal, sp_status_code = StatusUnset,
      sp_status_message = '''', sp_start_time = now1, sp_end_time = now2, sp_source = '''',
      sp_hostname = '''', sp_ams_net_id = '''', sp_ams_source_port = 0, sp_ams_app_port = 0,
      sp_task_index = 0, sp_task_name = '''', sp_task_cycle_counter = 0, sp_app_name = '''',
      sp_project_name = '''', sp_scope_namespace = '''', sp_attributes = [], sp_events = []\<rparr>"

definition span_has_parent :: "span_entry \<Rightarrow> bool" where
  "span_has_parent s \<longleftrightarrow> sp_parent_span_id s \<noteq> no_span"

record trace_event_record =
  tev_timestamp :: datetime
  tev_name :: string
  tev_attributes :: attrs

record trace_record =
  tr_trace_id :: string
  tr_span_id :: string
  tr_parent_span_id :: string
  tr_name :: string
  tr_kind :: int
  tr_start_time :: datetime
  tr_end_time :: datetime
  tr_status_code :: int
  tr_status_message :: string
  tr_resource_attributes :: attrs
  tr_scope_name :: string
  tr_scope_attributes :: attrs
  tr_span_attributes :: attrs
  tr_events :: "trace_event_record list"

definition from_span_event :: "span_event \<Rightarrow> trace_event_record" where
  "from_span_event e =
     \<lparr>tev_timestamp = sv_timestamp e, tev_name = sv_name e, tev_attributes = sv_attributes e\<rparr>"

definition from_span_entry :: "span_entry \<Rightarrow> trace_record" where
  "from_span_entry e =
     \<lparr>tr_trace_id = hex_string (sp_trace_id e), tr_span_id = hex_string (sp_span_id e),
      tr_parent_span_id = hex_string (sp_parent_span_id e), tr_name = sp_name e,
      tr_kind = to_otel_kind (sp_kind e), tr_start_time = sp_start_time e,
      tr_end_time = sp_end_time e, tr_status_code = to_otel_status (sp_status_code e),
      tr_status_message = sp_status_message e,
      tr_resource_attributes =
        build_otel_resource (sp_project_name e) (sp_app_name e) (sp_hostname e)
          (sp_ams_net_id e) (sp_ams_app_port e) (sp_ams_source_port e),
      tr_scope_name = sp_scope_namespace e, tr_scope_attributes = [],
      tr_span_attributes =
        add_task_attrs (sp_source e) (sp_task_name e) (sp_task_index e)
          (sp_task_cycle_counter e) (sp_attributes e),
      tr_events = map from_span_event (sp_events e)\<rparr>"

section \<open>Log entries and records\<close>

record log_entry =
  le_id :: string
  le_source :: string
  le_hostname :: string
  le_ams_net_id :: string
  le_ams_source_port :: u16
  le_ams_app_port :: u16
  le_message :: string
  le_logger :: string
  le_level :: log_level
  le_plc_timestamp :: datetime
  le_clock_timestamp :: datetime
  le_task_index :: int
  le_task_name :: string
  le_task_cycle_counter :: u32
  le_app_name :: string
  le_project_name :: string
  le_online_change_count :: u32
  le_trace_id :: "u8 list"
  le_span_id :: "u8 list"
  le_arguments :: "(nat, json) hmap"
  le_context :: attrs

text \<open>The first three arguments are the fresh UUID and the two clock readings of the constructor.\<close>

definition log_entry_new ::
    "string \<Rightarrow> datetime \<Rightarrow> datetime \<Rightarrow> string \<Rightarrow> string \<Rightarrow> string \<Rightarrow> string \<Rightarrow> log_level
     \<Rightarrow> log_entry" where
  "log_entry_new uuid now1 now2 source hostname message logger level =
     \<lparr>le_id = uuid, le_source = source, le_hostname = hostname, le_ams_net_id = '''',
      le_ams_source_port = 0, le_ams_app_port = 0, le_message = message, le_logger = logger,
      le_level = level, le_plc_timestamp = now1, le_clock_timestamp = now2, le_task_index = 0,
      le_task_name = '''', le_task_cycle_counter = 0, le_app_name = '''', le_project_name = '''',
      le_online_change_count = 0, le_trace_id = no_trace, le_span_id = no_span,
      le_arguments = [], le_context = []\<rparr>"

definition log_has_trace_context :: "log_entry \<Rightarrow> bool" where
  "log_has_trace_context e \<longleftrightarrow> le_trace_id e \<noteq> no_trace"

definition log_trace_id_hex :: "log_entry \<Rightarrow> string" where
  "log_trace_id_hex e = hex_string (le_trace_id e)"

definition log_span_id_hex :: "log_entry \<Rightarrow> string" where
  "log_span_id_hex e = hex_string (le_span_id e)"

record log_record =
  lr_timestamp :: datetime
  lr_body :: json
  lr_severity_number :: int
  lr_severity_text :: string
  lr_trace_id :: string
  lr_span_id :: string
  lr_resource_attributes :: attrs
  lr_scope_name :: string
  lr_scope_attributes :: attrs
  lr_log_attributes :: attrs

text \<open>\<^verbatim>\<open>HashMap::extend\<close> with the entries of another map, in that map's iteration order.\<close>

definition hm_extend :: "('k \<times> 'v) list \<Rightarrow> ('k, 'v) hmap \<Rightarrow> ('k, 'v) hmap" where
  "hm_extend kvs m = fold (\<lambda>(k, v) m. hm_insert k v m) kvs m"

definition arg_key :: "nat \<Rightarrow> string" where
  "arg_key idx = ''arg.'' @ show_nat idx"

definition log_attributes_of ::
    "(string, json) iter \<Rightarrow> (nat, json) iter \<Rightarrow> log_entry \<Rightarrow> attrs" where
  "log_attributes_of ord_ctx ord_arg e =
     (let a0 = hm_extend (ord_ctx (le_context e)) [];
          a1 = hm_insert ''task.cycle'' (JInt (uint (le_task_cycle_counter e))) a0;
          a2 = hm_insert ''online.changes'' (JInt (uint (le_online_change_count e))) a1;
          a3 = insert_when (le_source e \<noteq> []) ''source.address'' (JString (le_source e)) a2;
          a4 = insert_when (0 < le_task_index e) ''tc.task.index'' (JInt (le_task_index e)) a3;
          a5 = insert_when (le_task_name e \<noteq> []) ''tc.task.name'' (JString (le_task_name e)) a4
      in fold (\<lambda>(idx, val) a. hm_insert (arg_key idx) val a) (ord_arg (le_arguments e)) a5)"

definition from_log_entry ::
    "(string, json) iter \<Rightarrow> (nat, json) iter \<Rightarrow> log_entry \<Rightarrow> log_record" where
  "from_log_entry ord_ctx ord_arg e =
     (let (trace_id, span_id) =
            (if log_has_trace_context e then (log_trace_id_hex e, log_span_id_hex e)
             else ('''', ''''))
      in \<lparr>lr_timestamp = le_clock_timestamp e, lr_body = JString (le_message e),
          lr_severity_number = to_otel_severity_number (le_level e),
          lr_severity_text = to_otel_severity_text (le_level e),
          lr_trace_id = trace_id, lr_span_id = span_id,
          lr_resource_attributes =
            build_otel_resource (le_project_name e) (le_app_name e) (le_hostname e)
              (le_ams_net_id e) (le_ams_app_port e) (le_ams_source_port e),
          lr_scope_name = le_logger e, lr_scope_attributes = [],
          lr_log_attributes = log_attributes_of ord_ctx ord_arg e\<rparr>)"

section \<open>Lookups in the attribute maps\<close>

lemma get_insert_when [simp]:
  "hm_get (insert_when c k v m) k' = (if c \<and> k' = k then Some v else hm_get m k')"
  by (simp add: insert_when_def hm.get_insert)

lemma wf_insert_when [simp]: "hm_wf m \<Longrightarrow> hm_wf (insert_when c k v m)"
  by (simp add: insert_when_def)

lemma get_fold_insert:
  "hm_get (fold (\<lambda>(k, v) m. hm_insert (f k) v m) kvs m) x =
     (case map_of (rev (map (\<lambda>(k, v). (f k, v)) kvs)) x of Some v \<Rightarrow> Some v | None \<Rightarrow> hm_get m x)"
  by (induction kvs arbitrary: m)
     (auto simp: hm.get_insert map_add_def split: option.splits)

lemma wf_fold_insert:
  "hm_wf m \<Longrightarrow> hm_wf (fold (\<lambda>(k, v) m. hm_insert (f k) v m) kvs m)"
  by (induction kvs arbitrary: m) auto

lemma map_of_rev_distinct: "distinct (map fst kvs) \<Longrightarrow> map_of (rev kvs) = map_of kvs"
  by (rule map_of_inject_set [THEN iffD2]) (simp_all add: rev_map [symmetric])

lemma map_of_iteration:
  assumes "iteration ord" "hm_wf m"
  shows "map_of (ord m) = hm_get m"
proof -
  have "map_of (ord m) = map_of m"
    using assms iteration_distinct [OF assms] iteration_set [OF assms(1)]
    by (intro map_of_inject_set [THEN iffD2]) (simp_all add: hm_wf_def)
  then show ?thesis by (simp add: hm_get_def)
qed

lemma get_extend:
  assumes "iteration ord" "hm_wf m"
  shows "hm_get (hm_extend (ord m) []) k = hm_get m k"
proof -
  have "map_of (rev (ord m)) = hm_get m"
    using iteration_distinct [OF assms] by (simp add: map_of_rev_distinct map_of_iteration assms)
  then show ?thesis
    using get_fold_insert [of "\<lambda>k. k" "ord m" "[]" k]
    by (simp add: hm_extend_def split: option.splits)
qed

lemma show_nat_inj: "show_nat m = show_nat n \<longleftrightarrow> m = n"
  by (metis less_Suc_eq linorder_less_linear option.inject parse_digits_show_nat less_SucI)

lemma arg_key_inj: "arg_key i = arg_key j \<longleftrightarrow> i = j"
  by (simp add: arg_key_def show_nat_inj)

lemma arg_key_fixed [simp]:
  "arg_key i \<noteq> ''task.cycle''" "arg_key i \<noteq> ''online.changes''" "arg_key i \<noteq> ''source.address''"
  "arg_key i \<noteq> ''tc.task.index''" "arg_key i \<noteq> ''tc.task.name''"
  by (simp_all add: arg_key_def)

lemma map_of_rev_image:
  assumes "\<And>i j. f i = f j \<longleftrightarrow> i = j" "distinct (map fst kvs)"
  shows "map_of (rev (map (\<lambda>(k, v). (f k, v)) kvs)) (f i) = map_of kvs i"
proof -
  have "distinct (map fst (map (\<lambda>(k, v). (f k, v)) kvs))"
    using assms(2) by (induction kvs) (force simp: assms(1))+
  moreover have "map_of (map (\<lambda>(k, v). (f k, v)) kvs) (f i) = map_of kvs i"
    by (induction kvs) (auto simp: assms(1))
  ultimately show ?thesis by (simp add: map_of_rev_distinct)
qed

lemma map_of_rev_image_None:
  assumes "\<And>i. x \<noteq> f i"
  shows "map_of (rev (map (\<lambda>(k, v). (f k, v)) kvs)) x = None"
  by (induction kvs) (auto simp: assms map_add_def)

text \<open>
  The log attributes as a function: the task and source keys win over context entries of the same
  name, and positional arguments win over everything.
\<close>

definition fixed_log_attr :: "log_entry \<Rightarrow> string \<Rightarrow> json option" where
  "fixed_log_attr e k =
     (if k = ''tc.task.name'' \<and> le_task_name e \<noteq> [] then Some (JString (le_task_name e))
      else if k = ''tc.task.index'' \<and> 0 < le_task_index e then Some (JInt (le_task_index e))
      else if k = ''source.address'' \<and> le_source e \<noteq> [] then Some (JString (le_source e))
      else if k = ''online.changes'' then Some (JInt (uint (le_online_change_count e)))
      else if k = ''task.cycle'' then Some (JInt (uint (le_task_cycle_counter e)))
      else None)"

lemma fixed_log_attr_arg [simp]: "fixed_log_attr e (arg_key i) = None"
  by (simp add: fixed_log_attr_def)

lemma get_log_attributes_arg:
  assumes "iteration ord_ctx" "iteration ord_arg" "hm_wf (le_context e)" "hm_wf (le_arguments e)"
  shows "hm_get (log_attributes_of ord_ctx ord_arg e) (arg_key i) =
           (case hm_get (le_arguments e) i of Some v \<Rightarrow> Some v
            | None \<Rightarrow> hm_get (le_context e) (arg_key i))"
proof -
  have "map_of (rev (map (\<lambda>(k, v). (arg_key k, v)) (ord_arg (le_arguments e)))) (arg_key i)
        = hm_get (le_arguments e) i"
    using iteration_distinct [OF assms(2,4)]
    by (subst map_of_rev_image) (simp_all add: arg_key_inj map_of_iteration assms)
  then show ?thesis
    by (simp add: log_attributes_of_def get_fold_insert get_extend assms hm.get_insert Let_def
        split: option.split)
qed

lemma get_log_attributes_other:
  assumes "iteration ord_ctx" "hm_wf (le_context e)" "\<And>i. k \<noteq> arg_key i"
  shows "hm_get (log_attributes_of ord_ctx ord_arg e) k =
           (case fixed_log_attr e k of Some v \<Rightarrow> Some v | None \<Rightarrow> hm_get (le_context e) k)"
  by (simp add: log_attributes_of_def get_fold_insert map_of_rev_image_None assms get_extend
      hm.get_insert fixed_log_attr_def Let_def)

end
