(* ===== verification/Protocol.thy ===== *)
theory Protocol
  imports Ams Models
begin

text \<open>
  The wire-level data of \<^verbatim>\<open>tc-otel-ads/src/protocol.rs\<close>: what the parser produces from the
  payload of an ADS write, before the router turns it into log, metric and span entries.
  The variants of \<open>TraceWireEvent\<close> carry a record each, with the fields of the Rust variant.
\<close>

datatype attr_value = AttrI64 int | AttrF64 f64 | AttrBool bool | AttrString string

record span_begin =
  sb_local_id :: u8
  sb_task_index :: u8
  sb_flags :: u8
  sb_dc_time :: int
  sb_parent_span_id :: "u8 list"
  sb_kind :: u8
  sb_name :: string
  sb_traceparent :: "string option"
  sb_trace_id :: "u8 list"
  sb_span_id :: "u8 list"
  sb_scope_namespace :: string

record span_attr =
  sa_span_id :: "u8 list"
  sa_task_index :: u8
  sa_flags :: u8
  sa_dc_time :: int
  sa_key :: string
  sa_value :: attr_value

record span_event_ev =
  sn_span_id :: "u8 list"
  sn_task_index :: u8
  sn_flags :: u8
  sn_dc_time :: int
  sn_name :: string
  sn_attrs :: "(string \<times> attr_value) list"

record span_end =
  se_span_id :: "u8 list"
  se_task_index :: u8
  se_flags :: u8
  se_dc_time :: int
  se_status :: u8
  se_message :: string

datatype trace_wire_event =
    Begin span_begin
  | Attr span_attr
  | Event span_event_ev
  | End span_end

datatype ads_protocol_version = V1 | V2 | Registration

definition version_from_u8 :: "u8 \<Rightarrow> ads_protocol_version option" where
  "version_from_u8 v =
     (if v = 1 then Some V1 else if v = 2 then Some V2 else if v = 3 then Some Registration
      else None)"

fun version_as_u8 :: "ads_protocol_version \<Rightarrow> u8" where
  "version_as_u8 V1 = 1"
| "version_as_u8 V2 = 2"
| "version_as_u8 Registration = 3"

interpretation version: wire_enum version_from_u8 version_as_u8
proof unfold_locales
  show "version_from_u8 (version_as_u8 x) = Some x" for x
    by (cases x) (simp_all add: version_from_u8_def)
qed (auto simp: version_from_u8_def split: if_splits)

record ads_log_entry =
  al_version :: ads_protocol_version
  al_message :: string
  al_logger :: string
  al_level :: log_level
  al_plc_timestamp :: datetime
  al_clock_timestamp :: datetime
  al_task_index :: int
  al_task_name :: string
  al_task_cycle_counter :: u32
  al_app_name :: string
  al_project_name :: string
  al_online_change_count :: u32
  al_trace_id :: "u8 list"
  al_span_id :: "u8 list"
  al_arguments :: "(nat, json) hmap"
  al_context :: attrs

record registration_message =
  rg_task_index :: u8
  rg_task_name :: string
  rg_app_name :: string
  rg_project_name :: string
  rg_online_change_count :: u32
  rg_app_port :: u16

record registration_key =
  rk_ams_net_id :: string
  rk_ams_source_port :: u16
  rk_task_index :: u8

record task_metadata =
  tm_task_name :: string
  tm_app_name :: string
  tm_project_name :: string
  tm_online_change_count :: u32
  tm_app_port :: u16

record ads_metric_entry =
  am_name :: string
  am_description :: string
  am_unit :: string
  am_kind :: metric_kind
  am_value :: f64
  am_timestamp :: datetime
  am_task_index :: int
  am_task_cycle_counter :: u32
  am_is_monotonic :: bool
  am_attributes :: attrs
  am_histogram_bounds :: "f64 list"
  am_histogram_counts :: "u64 list"
  am_histogram_count :: u64
  am_histogram_sum :: f64

record ads_span_event =
  ase_timestamp :: datetime
  ase_name :: string
  ase_attributes :: attrs

record ads_span_entry =
  as_trace_id :: "u8 list"
  as_span_id :: "u8 list"
  as_parent_span_id :: "u8 list"
  as_name :: string
  as_kind :: span_kind
  as_status_code :: span_status_code
  as_status_message :: string
  as_start_time :: datetime
  as_end_time :: datetime
  as_task_index :: int
  as_task_cycle_counter :: u32
  as_attributes :: attrs
  as_events :: "ads_span_event list"

end
