(* ===== verification/Reader.thy ===== *)
theory Reader
  imports Protocol
begin

text \<open>
  The cursor of the ADS parser, \<^verbatim>\<open>BytesReader\<close> of \<^verbatim>\<open>tc-otel-ads/src/parser.rs\<close>, as a state
  monad: a reading operation maps a reader to an outcome and the reader it leaves behind, also
  when it fails. \<open>rtick\<close> counts the readings of the wall clock. Two contracts are used for every
  operation built from the primitives: \<open>safe_reader\<close> (the buffer is untouched, the cursor only
  moves forward and stays inside the buffer, no panic, and what a successful result satisfies)
  and \<open>reader_codec\<close> (the operation reads back what an encoder wrote).
\<close>

section \<open>The reader monad\<close>

record reader =
  rdata :: "u8 list"
  rpos :: nat
  rtick :: nat

type_synonym 'a rd = "reader \<Rightarrow> 'a ads_result \<times> reader"

definition bytes_reader_new :: "u8 list \<Rightarrow> reader" where
  "bytes_reader_new data = \<lparr>rdata = data, rpos = 0, rtick = 0\<rparr>"

definition remaining :: "reader \<Rightarrow> nat" where
  "remaining r = length (rdata r) - rpos r"

definition peek :: "reader \<Rightarrow> u8 option" where
  "peek r = (if rpos r < length (rdata r) then Some (rdata r ! rpos r) else None)"

definition rret :: "'a \<Rightarrow> 'a rd" where
  "rret x = (\<lambda>r. (Ok x, r))"

definition rfail :: "ads_error \<Rightarrow> 'a rd" where
  "rfail e = (\<lambda>r. (Err e, r))"

definition rpanic :: "'a rd" where
  "rpanic = (\<lambda>r. (Panic, r))"

definition rbind :: "'a rd \<Rightarrow> ('a \<Rightarrow> 'b rd) \<Rightarrow> 'b rd" where
  "rbind m f = (\<lambda>r. case m r of
       (Ok x, r') \<Rightarrow> f x r'
     | (Err e, r') \<Rightarrow> (Err e, r')
     | (Panic, r') \<Rightarrow> (Panic, r'))"

definition get_pos :: "nat rd" where
  "get_pos = (\<lambda>r. (Ok (rpos r), r))"

definition set_pos :: "nat \<Rightarrow> unit rd" where
  "set_pos p = (\<lambda>r. (Ok (), r\<lparr>rpos := p\<rparr>))"

definition now :: "ext \<Rightarrow> datetime rd" where
  "now X = (\<lambda>r. (Ok (utc_now X (rtick r)), r\<lparr>rtick := Suc (rtick r)\<rparr>))"

definition rok_or :: "ads_error \<Rightarrow> 'a option \<Rightarrow> 'a rd" where
  "rok_or e x = (case x of Some y \<Rightarrow> rret y | None \<Rightarrow> rfail e)"

definition guard_err :: "bool \<Rightarrow> ads_error \<Rightarrow> unit rd" where
  "guard_err c e = (if c then rfail e else rret ())"

text \<open>A counted loop \<open>for i in 0..n\<close> over an accumulator.\<close>

fun rloop :: "nat \<Rightarrow> nat \<Rightarrow> (nat \<Rightarrow> 's \<Rightarrow> 's rd) \<Rightarrow> 's \<Rightarrow> 's rd" where
  "rloop i 0 f s = rret s"
| "rloop i (Suc n) f s = rbind (f i s) (rloop (Suc i) n f)"

section \<open>Primitive reads\<close>

definition read_bytes :: "nat \<Rightarrow> u8 list rd" where
  "read_bytes n = (\<lambda>r.
     if remaining r < n then (Err (IncompleteMessage n (remaining r)), r)
     else (case slice (rpos r) (rpos r + n) (rdata r) of
             Ok bs \<Rightarrow> (Ok bs, r\<lparr>rpos := rpos r + n\<rparr>)
           | Err e \<Rightarrow> (Err e, r)
           | Panic \<Rightarrow> (Panic, r)))"

definition read_u8 :: "u8 rd" where
  "read_u8 = rbind (read_bytes 1) (\<lambda>bs. case index bs 0 of Ok b \<Rightarrow> rret b | Err e \<Rightarrow> rfail e | Panic \<Rightarrow> rpanic)"

definition read_u16 :: "u16 rd" where
  "read_u16 = rbind (read_bytes 2) (\<lambda>b. rret (u16_from_le b))"

definition read_i16 :: "int rd" where
  "read_i16 = rbind (read_bytes 2) (\<lambda>b. rret (i16_from_le b))"

definition read_u32 :: "u32 rd" where
  "read_u32 = rbind (read_bytes 4) (\<lambda>b. rret (u32_from_le b))"

definition read_i32 :: "int rd" where
  "read_i32 = rbind (read_bytes 4) (\<lambda>b. rret (i32_from_le b))"

text \<open>The eight-byte fields are decoded in place by the sources: \<open>u64\<close>, \<open>i64\<close> and \<open>f64\<close>.\<close>

definition read_u64 :: "u64 rd" where
  "read_u64 = rbind (read_bytes 8) (\<lambda>b. rret (u64_from_le b))"

definition read_i64 :: "int rd" where
  "read_i64 = rbind (read_bytes 8) (\<lambda>b. rret (i64_from_le b))"

definition MAX_STRING_LENGTH :: nat where
  "MAX_STRING_LENGTH = 65536"

definition read_string :: "string rd" where
  "read_string =
     rbind read_u8 (\<lambda>l. let len = unat l in
       if len > MAX_STRING_LENGTH then
         rfail (ParseError (''String length '' @ show_nat len @ '' exceeds maximum '' @
           show_nat MAX_STRING_LENGTH))
       else rbind (read_bytes len) (\<lambda>bs. rret (from_utf8_lossy bs)))"

text \<open>\<open>String::from_utf8\<close> of the next \<open>n\<close> bytes, as the span events use it.\<close>

definition read_utf8 :: "nat \<Rightarrow> string \<Rightarrow> string rd" where
  "read_utf8 n msg = rbind (read_bytes n) (\<lambda>bs. rok_or (ParseError msg) (from_utf8 bs))"

definition FILETIME_EPOCH_DIFF :: nat where
  "FILETIME_EPOCH_DIFF = 116444736000000000"

definition read_filetime :: "ext \<Rightarrow> datetime rd" where
  "read_filetime X =
     rbind read_u64 (\<lambda>w. let filetime = unat w in
       if filetime < FILETIME_EPOCH_DIFF then now X
       else
         let unix_time_100ns = filetime - FILETIME_EPOCH_DIFF;
             secs = unix_time_100ns div 10000000;
             nanos = (unix_time_100ns mod 10000000) * 100
         in rok_or (InvalidTimestamp ''Invalid timestamp'') (from_timestamp X (int secs) nanos))"

definition UNIX_TO_DC_EPOCH_SECS :: int where
  "UNIX_TO_DC_EPOCH_SECS = 946684800"

definition read_dc_task_time :: "ext \<Rightarrow> datetime rd" where
  "read_dc_task_time X =
     rbind read_i64 (\<lambda>dc_ns.
       if dc_ns \<le> 0 then now X
       else
         let secs = dc_ns div 1000000000; nanos = nat (dc_ns mod 1000000000)
         in rok_or (InvalidTimestamp ''Invalid DC timestamp'')
              (from_timestamp X (UNIX_TO_DC_EPOCH_SECS + secs) nanos))"

section \<open>The contract of a reading operation\<close>

abbreviation in_range :: "reader \<Rightarrow> bool" where
  "in_range r \<equiv> rpos r \<le> length (rdata r)"

locale safe_reader =
  fixes Q :: bool and m :: "'a rd" and P :: "'a \<Rightarrow> bool"
  assumes keeps_data: "rdata (snd (m r)) = rdata r"
    and forward: "rpos r \<le> rpos (snd (m r))"
    and in_bounds: "in_range r \<Longrightarrow> in_range (snd (m r))"
    and no_panic: "Q \<Longrightarrow> in_range r \<Longrightarrow> fst (m r) \<noteq> Panic"
    and result: "fst (m r) = Ok x \<Longrightarrow> P x"
begin

lemma outcome:
  assumes "Q" "in_range r"
  obtains x r' where "m r = (Ok x, r')" "P x" "rdata r' = rdata r" "rpos r \<le> rpos r'" "in_range r'"
  | e r' where "m r = (Err e, r')" "rdata r' = rdata r" "rpos r \<le> rpos r'" "in_range r'"
proof -
  note facts = keeps_data [of r] forward [of r] in_bounds [of r] no_panic [of r] result [of r]
  show ?thesis
  proof (cases "m r")
    case (Pair o' r')
    then show ?thesis
      using assms facts that by (cases o') auto
  qed
qed

end

named_theorems safe_intros \<open>introduction rules of the reader contract\<close>

lemma safe_readerI:
  assumes "\<And>r. rdata (snd (m r)) = rdata r" "\<And>r. rpos r \<le> rpos (snd (m r))"
    and "\<And>r. in_range r \<Longrightarrow> in_range (snd (m r))"
    and "\<And>r. Q \<Longrightarrow> in_range r \<Longrightarrow> fst (m r) \<noteq> Panic"
    and "\<And>r x. fst (m r) = Ok x \<Longrightarrow> P x"
  shows "safe_reader Q m P"
  using assms by unfold_locales

lemma safe_weaken: "safe_reader Q m P \<Longrightarrow> (\<And>x. P x \<Longrightarrow> R x) \<Longrightarrow> safe_reader Q m R"
  unfolding safe_reader_def by auto

lemma safe_rret [safe_intros]: "P x \<Longrightarrow> safe_reader Q (rret x) P"
  by (simp add: safe_reader_def rret_def)

lemma safe_rfail [safe_intros]: "safe_reader Q (rfail e) P"
  by (simp add: safe_reader_def rfail_def)

lemma safe_rpanic [safe_intros]: "\<not> Q \<Longrightarrow> safe_reader Q rpanic P"
  by (simp add: safe_reader_def rpanic_def)

lemma safe_now [safe_intros]: "(\<And>d. P d) \<Longrightarrow> safe_reader Q (now X) P"
  by (simp add: safe_reader_def now_def)

lemma safe_rok_or [safe_intros]: "(\<And>y. x = Some y \<Longrightarrow> P y) \<Longrightarrow> safe_reader Q (rok_or e x) P"
  by (cases x) (simp_all add: rok_or_def safe_rret safe_rfail)

lemma safe_guard_err: "(\<not> c \<Longrightarrow> P ()) \<Longrightarrow> safe_reader Q (guard_err c e) P"
  by (simp add: guard_err_def safe_rret safe_rfail)

lemma safe_if [safe_intros]:
  "(c \<Longrightarrow> safe_reader Q m P) \<Longrightarrow> (\<not> c \<Longrightarrow> safe_reader Q n P) \<Longrightarrow>
   safe_reader Q (if c then m else n) P"
  by simp

lemma safe_rbind:
  assumes m: "safe_reader Q m P" and f: "\<And>x. P x \<Longrightarrow> safe_reader Q (f x) R"
  shows "safe_reader Q (rbind m f) R"
proof -
  have *: "rdata (snd (rbind m f r)) = rdata r \<and> rpos r \<le> rpos (snd (rbind m f r)) \<and>
           (in_range r \<longrightarrow> in_range (snd (rbind m f r))) \<and>
           (Q \<longrightarrow> in_range r \<longrightarrow> fst (rbind m f r) \<noteq> Panic) \<and>
           (\<forall>x. fst (rbind m f r) = Ok x \<longrightarrow> R x)" for r
  proof (cases "m r")
    case (Pair oc r')
    note m' = safe_reader.keeps_data [OF m, of r] safe_reader.forward [OF m, of r]
      safe_reader.in_bounds [OF m, of r] safe_reader.no_panic [OF m, of r]
      safe_reader.result [OF m, of r]
    show ?thesis
    proof (cases oc)
      case (Ok x)
      have "P x" using m' Pair Ok by simp
      note fx = f [OF this]
      show ?thesis
        using m' Pair Ok safe_reader.keeps_data [OF fx, of r'] safe_reader.forward [OF fx, of r']
          safe_reader.in_bounds [OF fx, of r'] safe_reader.no_panic [OF fx, of r']
          safe_reader.result [OF fx, of r']
        by (auto simp: rbind_def)
    qed (use m' Pair in \<open>auto simp: rbind_def\<close>)
  qed
  show ?thesis by (rule safe_readerI) (use * in blast)+
qed

lemma safe_rloop:
  assumes "\<And>i s. I i s \<Longrightarrow> safe_reader Q (f i s) (I (Suc i))" and "I i s"
  shows "safe_reader Q (rloop i n f s) (I (i + n))"
  using assms(2)
proof (induction n arbitrary: i s)
  case 0
  then show ?case by (simp add: safe_rret)
next
  case (Suc n)
  have "safe_reader Q (rbind (f i s) (rloop (Suc i) n f)) (I (Suc i + n))"
    by (rule safe_rbind [OF assms(1) [OF Suc.prems] Suc.IH])
  then show ?case by simp
qed

lemma safe_bind_rok_or [safe_intros]:
  "(\<And>y. x = Some y \<Longrightarrow> safe_reader Q (f y) R) \<Longrightarrow> safe_reader Q (rbind (rok_or e x) f) R"
  by (rule safe_rbind [where P = "\<lambda>y. x = Some y"]) (auto intro: safe_rok_or)

lemma safe_bind_guard [safe_intros]:
  "(\<not> c \<Longrightarrow> safe_reader Q (f ()) R) \<Longrightarrow> safe_reader Q (rbind (guard_err c e) f) R"
  by (rule safe_rbind [where P = "\<lambda>_. \<not> c"]) (auto intro: safe_guard_err)

interpretation read_bytes: safe_reader Q "read_bytes n" "\<lambda>bs. length bs = n" for Q n
  by unfold_locales (auto simp: read_bytes_def remaining_def slice_def split: if_splits)

lemmas [safe_intros] = safe_rbind [OF read_bytes.safe_reader_axioms]

interpretation read_u8: safe_reader Q read_u8 "\<lambda>_. True" for Q
  unfolding read_u8_def by (rule safe_intros)+ (auto simp: index_def intro: safe_rret)

lemmas [safe_intros] = safe_rbind [OF read_u8.safe_reader_axioms]

interpretation read_u16: safe_reader Q read_u16 "\<lambda>_. True" for Q
  unfolding read_u16_def by (rule safe_intros | simp)+

lemmas [safe_intros] = safe_rbind [OF read_u16.safe_reader_axioms]

interpretation read_i16: safe_reader Q read_i16 "\<lambda>_. True" for Q
  unfolding read_i16_def by (rule safe_intros | simp)+

lemmas [safe_intros] = safe_rbind [OF read_i16.safe_reader_axioms]

interpretation read_u32: safe_reader Q read_u32 "\<lambda>_. True" for Q
  unfolding read_u32_def by (rule safe_intros | simp)+

lemmas [safe_intros] = safe_rbind [OF read_u32.safe_reader_axioms]

interpretation read_i32: safe_reader Q read_i32 "\<lambda>_. True" for Q
  unfolding read_i32_def by (rule safe_intros | simp)+

lemmas [safe_intros] = safe_rbind [OF read_i32.safe_reader_axioms]

interpretation read_u64: safe_reader Q read_u64 "\<lambda>_. True" for Q
  unfolding read_u64_def by (rule safe_intros | simp)+

lemmas [safe_intros] = safe_rbind [OF read_u64.safe_reader_axioms]

interpretation read_i64: safe_reader Q read_i64 i64_range for Q
  unfolding read_i64_def by (rule safe_intros | simp)+

lemmas [safe_intros] = safe_rbind [OF read_i64.safe_reader_axioms]

interpretation read_string: safe_reader Q read_string str_ok for Q
  unfolding read_string_def Let_def by (rule safe_intros | simp)+

lemmas [safe_intros] = safe_rbind [OF read_string.safe_reader_axioms]

interpretation read_utf8: safe_reader Q "read_utf8 n msg" "\<lambda>s. str_ok s \<and> length s = n" for Q n msg
  unfolding read_utf8_def by (rule safe_intros | force simp: from_utf8_Some_iff)+

lemmas [safe_intros] = safe_rbind [OF read_utf8.safe_reader_axioms]

interpretation read_filetime: safe_reader Q "read_filetime X" "\<lambda>_. True" for Q X
  unfolding read_filetime_def Let_def by (rule safe_intros | simp)+

lemmas [safe_intros] = safe_rbind [OF read_filetime.safe_reader_axioms]

interpretation read_dc_task_time: safe_reader Q "read_dc_task_time X" "\<lambda>_. True" for Q X
  unfolding read_dc_task_time_def Let_def by (rule safe_intros | simp)+

lemmas [safe_intros] = safe_rbind [OF read_dc_task_time.safe_reader_axioms]

section \<open>Reading back what was written\<close>

text \<open>
  \<open>reads m bs x\<close>: wherever the cursor stands in front of the bytes \<open>bs\<close>, the operation
  consumes exactly these bytes and yields \<open>x\<close>.
\<close>

definition reads :: "'a rd \<Rightarrow> u8 list \<Rightarrow> 'a \<Rightarrow> bool" where
  "reads m bs x \<longleftrightarrow>
     (\<forall>r rest. in_range r \<and> drop (rpos r) (rdata r) = bs @ rest \<longrightarrow>
        m r = (Ok x, r\<lparr>rpos := rpos r + length bs\<rparr>))"

named_theorems reads_intros \<open>composition rules of \<open>reads\<close>\<close>

lemma readsD:
  "reads m bs x \<Longrightarrow> in_range r \<Longrightarrow> drop (rpos r) (rdata r) = bs @ rest \<Longrightarrow>
   m r = (Ok x, r\<lparr>rpos := rpos r + length bs\<rparr>)"
  by (auto simp: reads_def)

lemma reads_rret: "reads (rret x) [] x"
  by (simp add: reads_def rret_def)

lemma reads_rret_eq [reads_intros]: "x = y \<Longrightarrow> reads (rret x) [] y"
  by (simp add: reads_rret)

lemma reads_rbind:
  assumes m: "reads m bs x" and f: "reads (f x) cs y"
  shows "reads (rbind m f) (bs @ cs) y"
proof -
  have "rbind m f r = (Ok y, r\<lparr>rpos := rpos r + length (bs @ cs)\<rparr>)"
    if r: "in_range r" "drop (rpos r) (rdata r) = (bs @ cs) @ rest" for r rest
  proof -
    let ?r = "r\<lparr>rpos := rpos r + length bs\<rparr>"
    have "m r = (Ok x, ?r)"
      using readsD [OF m r(1), of "cs @ rest"] r(2) by simp
    moreover have "drop (rpos ?r) (rdata ?r) = cs @ rest"
    proof -
      have "drop (length bs) (drop (rpos r) (rdata r)) = cs @ rest"
        by (simp add: r(2))
      then show ?thesis by (simp add: add.commute)
    qed
    moreover have "in_range ?r"
    proof -
      show ?thesis using arg_cong [OF r(2), of length] r(1) by simp
    qed
    ultimately show ?thesis
      using readsD [OF f, of ?r rest] by (simp add: rbind_def add.assoc)
  qed
  then show ?thesis by (auto simp: reads_def)
qed

lemma reads_rbind_Nil:
  "reads m [] x \<Longrightarrow> reads (f x) cs y \<Longrightarrow> reads (rbind m f) cs y"
  using reads_rbind [of m "[]" x f cs y] by simp

lemma reads_rbind_last: "reads m bs x \<Longrightarrow> reads (f x) [] y \<Longrightarrow> reads (rbind m f) bs y"
  using reads_rbind [of m bs x f "[]" y] by simp

lemma reads_guard [reads_intros]: "\<not> c \<Longrightarrow> reads (guard_err c e) [] ()"
  by (simp add: guard_err_def reads_rret)

lemma reads_rok_or [reads_intros]: "x = Some y \<Longrightarrow> reads (rok_or e x) [] y"
  by (simp add: rok_or_def reads_rret)

lemma reads_bytes [reads_intros]: "length bs = n \<Longrightarrow> reads (read_bytes n) bs bs"
proof -
  assume n: "length bs = n"
  have "read_bytes n r = (Ok bs, r\<lparr>rpos := rpos r + length bs\<rparr>)"
    if "in_range r" "drop (rpos r) (rdata r) = bs @ rest" for r rest
  proof -
    have "rpos r + n \<le> length (rdata r)"
      using arg_cong [OF that(2), of length] that(1) n by simp
    then show ?thesis
      using that n by (simp add: read_bytes_def remaining_def slice_def)
  qed
  then show ?thesis by (auto simp: reads_def)
qed

locale reader_codec =
  fixes m :: "'a rd" and enc :: "'a \<Rightarrow> u8 list" and ok :: "'a \<Rightarrow> bool"
  assumes reads_enc: "ok x \<Longrightarrow> reads m (enc x) x"
begin

lemma read_enc:
  assumes "ok x"
  shows "m \<lparr>rdata = pre @ enc x @ rest, rpos = length pre, rtick = t\<rparr> =
           (Ok x, \<lparr>rdata = pre @ enc x @ rest, rpos = length pre + length (enc x), rtick = t\<rparr>)"
  using readsD [OF reads_enc [OF assms],
      of "\<lparr>rdata = pre @ enc x @ rest, rpos = length pre, rtick = t\<rparr>" rest] by simp

lemma prefix_free:
  assumes "ok x" "ok y" "enc x @ rest = enc y @ rest'"
  shows "x = y \<and> rest = rest'"
proof -
  have "m \<lparr>rdata = enc x @ rest, rpos = 0, rtick = 0\<rparr> =
        (Ok x, \<lparr>rdata = enc x @ rest, rpos = length (enc x), rtick = 0\<rparr>)"
    and "m \<lparr>rdata = enc x @ rest, rpos = 0, rtick = 0\<rparr> =
        (Ok y, \<lparr>rdata = enc x @ rest, rpos = length (enc y), rtick = 0\<rparr>)"
    using read_enc [OF assms(1), of "[]" rest 0] read_enc [OF assms(2), of "[]" rest' 0] assms(3)
    by simp_all
  then show ?thesis using assms(3) by simp
qed

lemma reads_step: "ok x \<Longrightarrow> reads (f x) cs y \<Longrightarrow> reads (rbind m f) (enc x @ cs) y"
  by (rule reads_rbind [OF reads_enc])

lemma reads_final: "ok x \<Longrightarrow> reads (f x) [] y \<Longrightarrow> reads (rbind m f) (enc x) y"
  by (rule reads_rbind_last [OF reads_enc])

end

definition string_enc :: "string \<Rightarrow> u8 list" where
  "string_enc s = of_nat (length s) # bytes_of_str s"

definition short_str :: "string \<Rightarrow> bool" where
  "short_str s \<longleftrightarrow> str_ok s \<and> length s < 256"

interpretation read_u8: reader_codec read_u8 "\<lambda>b. [b]" "\<lambda>_. True"
  by unfold_locales
    (simp add: read_u8_def index_def reads_rbind_last [OF reads_bytes] reads_rret)

interpretation read_u16: reader_codec read_u16 u16_to_le "\<lambda>_. True"
  by unfold_locales
    (simp add: read_u16_def reads_rbind_last [OF reads_bytes] reads_rret)

interpretation read_u32: reader_codec read_u32 u32_to_le "\<lambda>_. True"
  by unfold_locales
    (simp add: read_u32_def reads_rbind_last [OF reads_bytes] reads_rret)

interpretation read_u64: reader_codec read_u64 u64_to_le "\<lambda>_. True"
  by unfold_locales
    (simp add: read_u64_def reads_rbind_last [OF reads_bytes] reads_rret)

interpretation read_i64: reader_codec read_i64 i64_to_le i64_range
  by unfold_locales
    (simp add: read_i64_def reads_rbind_last [OF reads_bytes] reads_rret i64_from_to_le i64_range_def)

interpretation read_string: reader_codec read_string string_enc short_str
proof unfold_locales
  fix s assume s: "short_str s"
  then have len: "unat (of_nat (length s) :: u8) = length s"
    by (simp add: short_str_def unat_of_nat)
  have "reads (rbind (read_bytes (length s)) (\<lambda>bs. rret (from_utf8_lossy bs))) (bytes_of_str s) s"
    using s reads_rbind_last [OF reads_bytes [of "bytes_of_str s" "length s"],
        of "\<lambda>bs. rret (from_utf8_lossy bs)" s]
    by (simp add: short_str_def reads_rret)
  then show "reads read_string (string_enc s) s"
    using s len read_u8.reads_step [where x = "of_nat (length s)" and cs = "bytes_of_str s" and y = s]
    by (simp add: read_string_def string_enc_def MAX_STRING_LENGTH_def short_str_def)
qed

lemma reads_utf8 [reads_intros]:
  "str_ok s \<Longrightarrow> length s = n \<Longrightarrow> reads (read_utf8 n msg) (bytes_of_str s) s"
  unfolding read_utf8_def
  by (rule reads_rbind_last [OF reads_bytes]) (simp_all add: reads_rok_or)

lemma reads_if_False [reads_intros]: "\<not> c \<Longrightarrow> reads n bs x \<Longrightarrow> reads (if c then m else n) bs x"
  by simp

lemmas [reads_intros] =
  read_u8.reads_step read_u16.reads_step read_u32.reads_step read_u64.reads_step read_i64.reads_step
  read_string.reads_step read_u8.reads_final read_u16.reads_final read_u32.reads_final
  read_u64.reads_final read_i64.reads_final read_string.reads_final

lemmas reads_bind_intros =
  reads_rbind_Nil [OF reads_guard] reads_rbind_Nil [OF reads_rok_or]
  reads_rbind [OF reads_bytes] reads_rbind [OF reads_utf8] reads_rbind_last [OF reads_utf8]

end
