(* ===== verification/Values.thy ===== *)
theory Values
  imports Reader
begin

text \<open>
  The typed values of the ADS protocol, \<^verbatim>\<open>read_value\<close> and \<^verbatim>\<open>read_value_with_type\<close> of
  \<^verbatim>\<open>tc-otel-ads/src/parser.rs\<close>. The two functions have the same arms; they differ in where the
  type comes from (a leading 16-bit word, or the caller) and in the width of the underlying type
  of an enumeration (16 or 8 bits), which is the first argument of \<open>value_arms\<close>.
\<close>

section \<open>IEC literals of the time types\<close>

definition time_part :: "nat \<Rightarrow> string \<Rightarrow> string" where
  "time_part n u = (if 0 < n then show_nat n @ u else [])"

definition time_string :: "nat \<Rightarrow> string" where
  "time_string total_ms =
     (let d = total_ms div 86400000;
          h = (total_ms mod 86400000) div 3600000;
          m = (total_ms mod 3600000) div 60000;
          s = (total_ms mod 60000) div 1000;
          ms = total_ms mod 1000
      in ''T#'' @ time_part d ''d'' @ time_part h ''h'' @ time_part m ''m'' @
         (if 0 < s \<or> (d = 0 \<and> h = 0 \<and> m = 0 \<and> ms = 0) then show_nat s @ ''s'' else []) @
         time_part ms ''ms'')"

definition ltime_string :: "nat \<Rightarrow> string" where
  "ltime_string total_ns =
     (let d = total_ns div 86400000000000;
          h = (total_ns mod 86400000000000) div 3600000000000;
          m = (total_ns mod 3600000000000) div 60000000000;
          s = (total_ns mod 60000000000) div 1000000000;
          ms = (total_ns mod 1000000000) div 1000000;
          us = (total_ns mod 1000000) div 1000;
          ns = total_ns mod 1000;
          parts = ''LTIME#'' @ time_part d ''d'' @ time_part h ''h'' @ time_part m ''m'' @
            time_part s ''s'' @ time_part ms ''ms'' @ time_part us ''us'' @ time_part ns ''ns''
      in if parts = ''LTIME#'' then parts @ ''0s'' else parts)"

definition tod_string :: "nat \<Rightarrow> string" where
  "tod_string total_ms =
     (let h = total_ms div 3600000;
          m = (total_ms mod 3600000) div 60000;
          s = (total_ms mod 60000) div 1000;
          ms = total_ms mod 1000
      in ''TOD#'' @ show_pad 2 h @ '':'' @ show_pad 2 m @ '':'' @ show_pad 2 s @
         (if 0 < ms then ''.'' @ show_pad 3 ms else []))"

section \<open>The arms of the value decoder\<close>

definition read_ltime :: "ext \<Rightarrow> json rd" where
  "read_ltime X =
     rbind read_u64 (\<lambda>ns100.
       if overflow_checks X \<and> 2 ^ 64 \<le> unat ns100 * 100 then rpanic
       else rret (JString (ltime_string (unat (ns100 * 100)))))"

definition read_date :: "ext \<Rightarrow> json rd" where
  "read_date X =
     rbind read_u32 (\<lambda>unix_secs.
       let dt = (case from_timestamp X (uint unix_secs) 0 of
                   Some dt \<Rightarrow> dt | None \<Rightarrow> datetime_default X)
       in rret (JString (''D#'' @ format_date X dt)))"

definition read_date_and_time :: "ext \<Rightarrow> json rd" where
  "read_date_and_time X =
     rbind read_u32 (\<lambda>unix_secs.
       let dt = (case from_timestamp X (uint unix_secs) 0 of
                   Some dt \<Rightarrow> dt | None \<Rightarrow> datetime_default X)
       in rret (JString (''DT#'' @ format_date_time X dt)))"

definition read_enum :: "int rd \<Rightarrow> json rd" where
  "read_enum read_underlying =
     rbind read_underlying (\<lambda>underlying.
       if underlying = 1 \<or> underlying = 9 then rbind read_u8 (\<lambda>v. rret (JInt (uint v)))
       else if underlying = 2 \<or> underlying = 10 then rbind read_u16 (\<lambda>v. rret (JInt (uint v)))
       else if underlying = 3 \<or> underlying = 11 then rbind read_u32 (\<lambda>v. rret (JInt (uint v)))
       else if underlying = 15 then rbind read_u64 (\<lambda>v. rret (JInt (uint v)))
       else rret JNull)"

text \<open>\<open>raw.chunks(2)\<close> decoded as little-endian units; an odd chunk would be an index out of range.\<close>

fun chunks_u16 :: "u8 list \<Rightarrow> u16 list option" where
  "chunks_u16 [] = Some []"
| "chunks_u16 [a] = None"
| "chunks_u16 (a # b # rest) = map_option ((#) (u16_from_le [a, b])) (chunks_u16 rest)"

definition read_wstring :: "json rd" where
  "read_wstring =
     rbind read_u8 (\<lambda>char_count.
       rbind (read_bytes (unat char_count * 2)) (\<lambda>raw.
         case chunks_u16 raw of
           None \<Rightarrow> rpanic
         | Some u16_vals \<Rightarrow> rret (JString (from_utf16_lossy u16_vals))))"

definition value_arms :: "int rd \<Rightarrow> ext \<Rightarrow> int \<Rightarrow> json rd" where
  "value_arms read_underlying X val_type =
     (if val_type = 0 then rret JNull
      else if val_type = 1 \<or> val_type = 9 then rbind read_u8 (\<lambda>v. rret (JInt (uint v)))
      else if val_type = 2 \<or> val_type = 10 then rbind read_u16 (\<lambda>v. rret (JInt (uint v)))
      else if val_type = 3 \<or> val_type = 11 then rbind read_u32 (\<lambda>v. rret (JInt (uint v)))
      else if val_type = 4 then rbind read_u32 (\<lambda>v. rret (json_f32 X v))
      else if val_type = 5 then rbind read_u64 (\<lambda>v. rret (json_f64 X v))
      else if val_type = 6 then rbind read_u8 (\<lambda>v. rret (JInt (sint v)))
      else if val_type = 7 then rbind read_i16 (\<lambda>v. rret (JInt v))
      else if val_type = 8 then rbind read_i32 (\<lambda>v. rret (JInt v))
      else if val_type = 12 then rbind read_string (\<lambda>s. rret (JString s))
      else if val_type = 13 then rbind read_u8 (\<lambda>b. rret (JBool (b \<noteq> 0)))
      else if val_type = 15 then rbind read_u64 (\<lambda>v. rret (JInt (uint v)))
      else if val_type = 17 then rbind read_i64 (\<lambda>v. rret (JInt v))
      else if val_type = 20000 then rbind read_u32 (\<lambda>v. rret (JString (time_string (unat v))))
      else if val_type = 20001 then read_ltime X
      else if val_type = 20004 then rbind read_u32 (\<lambda>v. rret (JString (tod_string (unat v))))
      else if val_type = 20002 then read_date X
      else if val_type = 20003 then read_date_and_time X
      else if val_type = 20005 then read_enum read_underlying
      else if val_type = 20006 then read_wstring
      else rret JNull)"

definition read_value :: "ext \<Rightarrow> json rd" where
  "read_value X = rbind read_i16 (value_arms read_i16 X)"

definition read_value_with_type :: "ext \<Rightarrow> int \<Rightarrow> json rd" where
  "read_value_with_type X = value_arms (rbind read_u8 (\<lambda>b. rret (uint b))) X"

definition remap_v2_type_id :: "int \<Rightarrow> int" where
  "remap_v2_type_id v2_type =
     (if v2_type = 100 then 20000 else if v2_type = 101 then 20001
      else if v2_type = 102 then 20002 else if v2_type = 103 then 20003
      else if v2_type = 104 then 20004 else if v2_type = 105 then 20005
      else if v2_type = 106 then 20006 else v2_type)"

section \<open>Safety\<close>

lemma chunks_u16_even: "even (length bs) \<Longrightarrow> chunks_u16 bs \<noteq> None"
  by (induction bs rule: chunks_u16.induct) auto

lemma chunks_u16_length: "chunks_u16 bs = Some us \<Longrightarrow> length bs = 2 * length us"
  by (induction bs arbitrary: us rule: chunks_u16.induct) auto

interpretation read_ltime: safe_reader "\<not> overflow_checks X" "read_ltime X" "\<lambda>_. True" for X
  unfolding read_ltime_def by (rule safe_intros | simp)+

interpretation read_date: safe_reader Q "read_date X" "\<lambda>_. True" for Q X
  unfolding read_date_def Let_def by (rule safe_intros | simp)+

interpretation read_date_and_time: safe_reader Q "read_date_and_time X" "\<lambda>_. True" for Q X
  unfolding read_date_and_time_def Let_def by (rule safe_intros | simp)+

lemma safe_read_enum:
  "safe_reader Q u (\<lambda>_. True) \<Longrightarrow> safe_reader Q (read_enum u) (\<lambda>_. True)"
  unfolding read_enum_def by (rule safe_rbind, assumption) (rule safe_intros | simp)+

interpretation read_wstring: safe_reader Q read_wstring "\<lambda>_. True" for Q
proof -
  have "safe_reader Q (case chunks_u16 raw of None \<Rightarrow> rpanic | Some us \<Rightarrow> rret (JString (from_utf16_lossy us)))
          (\<lambda>_. True)" if "length raw = n * 2" for raw n
    using chunks_u16_even [of raw] that by (auto intro: safe_rret split: option.split)
  then show "safe_reader Q read_wstring (\<lambda>_. True)"
    unfolding read_wstring_def by (intro safe_intros)
qed

lemma safe_value_arms:
  assumes "safe_reader (\<not> overflow_checks X) u (\<lambda>_. True)"
  shows "safe_reader (\<not> overflow_checks X) (value_arms u X t) (\<lambda>_. True)"
  unfolding value_arms_def
  by (rule safe_if safe_intros read_ltime.safe_reader_axioms read_date.safe_reader_axioms
      read_date_and_time.safe_reader_axioms safe_read_enum [OF assms]
      read_wstring.safe_reader_axioms TrueI)+

interpretation read_value: safe_reader "\<not> overflow_checks X" "read_value X" "\<lambda>_. True" for X
  unfolding read_value_def
  by (rule safe_intros safe_value_arms read_i16.safe_reader_axioms)+

lemmas [safe_intros] = safe_rbind [OF read_value.safe_reader_axioms]

interpretation read_value_with_type:
  safe_reader "\<not> overflow_checks X" "read_value_with_type X t" "\<lambda>_. True" for X t
  unfolding read_value_with_type_def
  by (rule safe_value_arms) (rule safe_intros | simp)+

lemmas [safe_intros] = safe_rbind [OF read_value_with_type.safe_reader_axioms]

section \<open>Properties\<close>

text \<open>
  A 64-bit TIME value counts units of 100 ns. The decoder turns it into the literal of the
  nanosecond count modulo the range of the machine word: exact while the product with 100 fits
  in 64 bits, wrapped beyond that, and a panic there in a build with overflow checks.
\<close>

theorem ltime_overflow:
  "read_ltime X \<lparr>rdata = u64_to_le w, rpos = 0, rtick = t\<rparr> =
     (if overflow_checks X \<and> 2 ^ 64 \<le> unat w * 100
      then (Panic, \<lparr>rdata = u64_to_le w, rpos = 8, rtick = t\<rparr>)
      else (Ok (JString (ltime_string (unat w * 100 mod 2 ^ 64))),
            \<lparr>rdata = u64_to_le w, rpos = 8, rtick = t\<rparr>))"
proof -
  have "read_u64 \<lparr>rdata = u64_to_le w, rpos = 0, rtick = t\<rparr> =
      (Ok w, \<lparr>rdata = u64_to_le w, rpos = 8, rtick = t\<rparr>)"
    using read_u64.read_enc [of "[]" w "[]" t] by simp
  moreover have "unat (w * 100) = unat w * 100 mod 2 ^ 64"
    by (simp add: unat_word_ariths)
  ultimately show ?thesis
    by (simp add: read_ltime_def rbind_def rpanic_def rret_def)
qed

end
