(* ===== verification/Parser.thy ===== *)
theory Parser
  imports Values
begin

text \<open>
  The message parsers of \<^verbatim>\<open>tc-otel-ads/src/parser.rs\<close>: log entries of protocol version 1 and 2
  (with and without trace context), registrations, metrics, completed spans and the streaming
  span events. Each parser is one definition per part of the Rust function; the counted loops are
  \<open>rloop\<close>, the open-ended loop of version 1 is a recursive function on the reader. The contract
  \<open>message_parser\<close> is what the message loop of \<open>parse_all\<close> needs of a parser.
\<close>

section \<open>Limits\<close>

definition MAX_ARGUMENTS :: nat where "MAX_ARGUMENTS = 32"
definition MAX_CONTEXT_VARS :: nat where "MAX_CONTEXT_VARS = 64"
definition MAX_MESSAGE_SIZE :: nat where "MAX_MESSAGE_SIZE = 1048576"
definition MAX_SPAN_EVENTS :: nat where "MAX_SPAN_EVENTS = 128"
definition MAX_SPAN_ATTRIBUTES :: nat where "MAX_SPAN_ATTRIBUTES = 64"
definition MAX_METRIC_ATTRIBUTES :: nat where "MAX_METRIC_ATTRIBUTES = 32"
definition MAX_HISTOGRAM_BUCKETS :: nat where "MAX_HISTOGRAM_BUCKETS = 100"

lemmas parser_limits = MAX_ARGUMENTS_def MAX_CONTEXT_VARS_def MAX_MESSAGE_SIZE_def
  MAX_SPAN_EVENTS_def MAX_SPAN_ATTRIBUTES_def MAX_METRIC_ATTRIBUTES_def MAX_HISTOGRAM_BUCKETS_def

section \<open>The contract of a message parser\<close>

locale message_parser =
  fixes Q :: bool and m :: "'a rd" and P :: "'a \<Rightarrow> bool"
  assumes keeps_data: "rdata (snd (m r)) = rdata r"
    and no_panic: "Q \<Longrightarrow> in_range r \<Longrightarrow> fst (m r) \<noteq> Panic"
    and progress: "fst (m r) = Ok x \<Longrightarrow> rpos r < rpos (snd (m r))"
    and result: "fst (m r) = Ok x \<Longrightarrow> P x"
begin

lemma remaining_decreases:
  "m r = (Ok x, r') \<Longrightarrow> 0 < remaining r \<Longrightarrow> remaining r' < remaining r"
  using keeps_data [of r] progress [of r x] by (simp add: remaining_def)

end

lemma read_u8_Ok:
  "read_u8 r = (Ok b, r') \<longleftrightarrow>
     rpos r < length (rdata r) \<and> b = rdata r ! rpos r \<and> r' = r\<lparr>rpos := Suc (rpos r)\<rparr>"
  by (auto simp: read_u8_def rbind_def read_bytes_def remaining_def slice_def index_def rret_def
      rpanic_def rfail_def take_Suc_conv_app_nth hd_drop_conv_nth take_Suc split: if_splits)

lemma rbind_read_u8_Ok:
  "rbind read_u8 f r = (Ok x, r') \<longleftrightarrow>
     rpos r < length (rdata r) \<and> f (rdata r ! rpos r) (r\<lparr>rpos := Suc (rpos r)\<rparr>) = (Ok x, r')"
  using read_u8_Ok [of r]
  by (auto simp: rbind_def split: prod.splits res.splits) metis+

lemma message_parserI:
  assumes f: "\<And>b. safe_reader Q (f b) P"
  shows "message_parser Q (rbind read_u8 f) P"
proof -
  have s: "safe_reader Q (rbind read_u8 f) P"
    by (rule safe_intros f)+
  show ?thesis
  proof unfold_locales
    fix r x assume "fst (rbind read_u8 f r) = Ok x"
    then obtain r' where r': "rbind read_u8 f r = (Ok x, r')"
      by (metis prod.collapse)
    then have "Suc (rpos r) \<le> rpos r'"
      using safe_reader.forward [OF f [of "rdata r ! rpos r"], of "r\<lparr>rpos := Suc (rpos r)\<rparr>"]
      by (auto simp: rbind_read_u8_Ok)
    with r' show "rpos r < rpos (snd (rbind read_u8 f r))" by simp
  qed (use safe_reader.keeps_data [OF s] safe_reader.no_panic [OF s] safe_reader.result [OF s]
       in auto)
qed

text \<open>
  The frame of a length-prefixed message: the 16-bit length, the body, and the cursor moved to
  the end the length announces, whatever the body consumed.
\<close>

definition framed :: "'a rd \<Rightarrow> 'a rd" where
  "framed body =
     rbind read_u16 (\<lambda>entry_length.
       rbind get_pos (\<lambda>entry_start.
         rbind body (\<lambda>e.
           rbind (set_pos (entry_start + unat entry_length)) (\<lambda>_. rret e))))"

lemma framed_Ok:
  assumes "framed body r = (Ok x, r')" "safe_reader Q body P"
  shows "rpos r' = rpos r + 2 + unat (u16_at (rpos r) (rdata r)) \<and> rdata r' = rdata r \<and> P x"
proof -
  from assms(1) obtain e1 r1 where 1: "read_u16 r = (Ok e1, r1)"
    and "rbind get_pos (\<lambda>s. rbind body (\<lambda>e. rbind (set_pos (s + unat e1)) (\<lambda>_. rret e))) r1 = (Ok x, r')"
    by (auto simp: framed_def rbind_def split: prod.splits res.splits)
  then obtain r2 where 2: "body r1 = (Ok x, r2)" and r': "r' = r2\<lparr>rpos := rpos r1 + unat e1\<rparr>"
    by (auto simp: rbind_def get_pos_def set_pos_def rret_def split: prod.splits res.splits)
  have "e1 = u16_at (rpos r) (rdata r)" "rpos r1 = rpos r + 2" "rdata r1 = rdata r"
    using 1 by (auto simp: read_u16_def rbind_def read_bytes_def slice_def rret_def u16_at_def
        bytes_at_def split: if_splits)
  then show ?thesis
    using 2 r' safe_reader.keeps_data [OF assms(2), of r1] safe_reader.result [OF assms(2), of r1 x]
    by simp
qed

lemma framed_message_parser:
  assumes body: "safe_reader Q body P"
  shows "message_parser Q (rbind read_u8 (\<lambda>b. if c b then rfail (e b) else framed body)) P"
proof -
  let ?m = "rbind read_u8 (\<lambda>b. if c b then rfail (e b) else framed body)"
  let ?pre = "\<lambda>f. rbind read_u8 (\<lambda>b. if c b then rfail (e b) else rbind read_u16 (\<lambda>l. rbind body (f l)))"
  define sync where "sync = (\<lambda>(r::reader) (x::'a) (r'::reader). (Ok x :: 'a ads_result, r'\<lparr>rpos := rpos r + 3 + unat (u16_at (Suc (rpos r)) (rdata r))\<rparr>))"
  have safe: "safe_reader Q (?pre (\<lambda>l. rret)) P"
    by (rule safe_intros safe_rbind [OF body] | assumption)+
  have rel: "?m r = (case ?pre (\<lambda>l. rret) r of (Ok x, r') \<Rightarrow> sync r x r' | (Err e, r') \<Rightarrow> (Err e, r') | (Panic, r') \<Rightarrow> (Panic, r'))"
    for r
    by (auto simp: framed_def rbind_def get_pos_def set_pos_def rret_def rfail_def sync_def u16_at_def
        bytes_at_def read_u16_def read_bytes_def slice_def read_u8_def rpanic_def index_def
        split: prod.splits res.splits if_splits)
  show ?thesis
  proof unfold_locales
    fix r x
    note facts = safe_reader.keeps_data [OF safe, of r] safe_reader.no_panic [OF safe, of r]
      safe_reader.result [OF safe, of r]
    show "rdata (snd (?m r)) = rdata r"
      using facts unfolding rel by (auto simp: sync_def split: prod.splits res.splits)
    show "Q \<Longrightarrow> in_range r \<Longrightarrow> fst (?m r) \<noteq> Panic"
      using facts unfolding rel by (auto simp: sync_def split: prod.splits res.splits)
    show "fst (?m r) = Ok x \<Longrightarrow> rpos r < rpos (snd (?m r))"
      unfolding rel by (auto simp: sync_def split: prod.splits res.splits)
    show "fst (?m r) = Ok x \<Longrightarrow> P x"
      using facts unfolding rel by (auto simp: sync_def split: prod.splits res.splits)
  qed
qed

section \<open>Log entries, version 1\<close>

type_synonym arg_map = "(nat, json) hmap"

definition scope_key :: "u8 \<Rightarrow> string \<Rightarrow> string" where
  "scope_key scope name = ''scope_'' @ show_nat (unat scope) @ ''_'' @ name"

text \<open>One turn of the loop over arguments and context: \<open>None\<close> at an end marker.\<close>

definition v1_item :: "ext \<Rightarrow> arg_map \<Rightarrow> attrs \<Rightarrow> (arg_map \<times> attrs) option rd" where
  "v1_item X arguments ctx =
     rbind read_u8 (\<lambda>type_id.
       if type_id = 0 \<or> type_id = 255 then rret None
       else if type_id = 1 then
         (if length arguments \<ge> MAX_ARGUMENTS then
            rfail (ParseError (''Too many arguments: '' @ show_nat (length arguments + 1) @
              '' exceeds maximum '' @ show_nat MAX_ARGUMENTS))
          else
            rbind read_u8 (\<lambda>idx.
              rbind (read_value X) (\<lambda>v.
                rret (Some (hm_insert (unat idx) v arguments, ctx)))))
       else if type_id = 2 then
         (if length ctx \<ge> MAX_CONTEXT_VARS then
            rfail (ParseError (''Too many context variables: '' @ show_nat (length ctx + 1) @
              '' exceeds maximum '' @ show_nat MAX_CONTEXT_VARS))
          else
            rbind read_u8 (\<lambda>scope.
              rbind read_string (\<lambda>name.
                rbind (read_value X) (\<lambda>v.
                  rret (Some (arguments, hm_insert (scope_key scope name) v ctx))))))
       else rret (Some (arguments, ctx)))"

definition v1_ok :: "arg_map \<times> attrs \<Rightarrow> bool" where
  "v1_ok p \<longleftrightarrow> hm_wf (fst p) \<and> length (fst p) \<le> MAX_ARGUMENTS \<and>
     hm_wf (snd p) \<and> length (snd p) \<le> MAX_CONTEXT_VARS"

lemma v1_ok_insert:
  "v1_ok (a, c) \<Longrightarrow> length a < MAX_ARGUMENTS \<Longrightarrow> v1_ok (hm_insert k v a, c)"
  "v1_ok (a, c) \<Longrightarrow> length c < MAX_CONTEXT_VARS \<Longrightarrow> v1_ok (a, hm_insert k' v c)"
  using hm.len_insert_le [of a k v] hm.len_insert_le [of c k' v] by (auto simp: v1_ok_def)

text \<open>The message parser of an item exists for every accumulator: progress needs no invariant.\<close>

lemma v1_item_progress: "message_parser (\<not> overflow_checks X) (v1_item X a c) (\<lambda>_. True)"
  unfolding v1_item_def by (rule message_parserI) (rule safe_intros | simp)+

lemma v1_item_safe:
  assumes "v1_ok (a, c)"
  shows "safe_reader (\<not> overflow_checks X) (v1_item X a c) (\<lambda>y. \<forall>p. y = Some p \<longrightarrow> v1_ok p)"
  unfolding v1_item_def
  by (rule safe_intros | use assms v1_ok_insert in \<open>force\<close>)+

function v1_loop :: "ext \<Rightarrow> arg_map \<Rightarrow> attrs \<Rightarrow> (arg_map \<times> attrs) rd" where
  "v1_loop X arguments ctx r =
     (if remaining r = 0 then (Ok (arguments, ctx), r)
      else (case v1_item X arguments ctx r of
              (Ok None, r') \<Rightarrow> (Ok (arguments, ctx), r')
            | (Ok (Some (arguments', ctx')), r') \<Rightarrow> v1_loop X arguments' ctx' r'
            | (Err e, r') \<Rightarrow> (Err e, r')
            | (Panic, r') \<Rightarrow> (Panic, r')))"
  by auto

termination
proof (relation "measure (\<lambda>(X, a, c, r). remaining r)", goal_cases)
  case (2 X a c r oc r' y p a' c')
  then have "v1_item X a c r = (Ok (Some (a', c')), r')" by simp
  then show ?case
    using 2 message_parser.remaining_decreases [OF v1_item_progress] by simp
qed simp

declare v1_loop.simps [simp del]

lemma v1_loop_outcome:
  assumes "v1_ok (a, c)"
  shows "rdata (snd (v1_loop X a c r)) = rdata r \<and> rpos r \<le> rpos (snd (v1_loop X a c r)) \<and>
         (in_range r \<longrightarrow> in_range (snd (v1_loop X a c r))) \<and>
         (\<not> overflow_checks X \<longrightarrow> in_range r \<longrightarrow> fst (v1_loop X a c r) \<noteq> Panic) \<and>
         (\<forall>p. fst (v1_loop X a c r) = Ok p \<longrightarrow> v1_ok p)"
  using assms
proof (induction X a c r rule: v1_loop.induct)
  case (1 X a c r)
  note item = v1_item_safe [OF 1(2), of X]
  note facts = safe_reader.keeps_data [OF item, of r] safe_reader.forward [OF item, of r]
    safe_reader.in_bounds [OF item, of r] safe_reader.no_panic [OF item, of r]
    safe_reader.result [OF item, of r]
  show ?case
  proof (cases "remaining r = 0")
    case True
    then show ?thesis using 1(2) by (simp add: v1_loop.simps)
  next
    case False
    obtain oc r' where item_r: "v1_item X a c r = (oc, r')" by force
    show ?thesis
    proof (cases "\<exists>a' c'. oc = Ok (Some (a', c'))")
      case True
      then obtain a' c' where oc: "oc = Ok (Some (a', c'))" by blast
      have "v1_ok (a', c')" using facts item_r oc by simp
      from 1(1) [OF False item_r [symmetric] oc refl refl this]
      show ?thesis using facts item_r oc False by (auto simp: v1_loop.simps [of X a c r])
    next
      case False
      then show ?thesis
        using facts item_r 1(2) by (auto simp: v1_loop.simps [of X a c r] split: res.splits option.splits)
    qed
  qed
qed

interpretation v1_loop: safe_reader "\<not> overflow_checks X" "v1_loop X [] []" v1_ok for X
proof -
  have "v1_ok ([], [])" by (simp add: v1_ok_def)
  note o = v1_loop_outcome [OF this]
  show "safe_reader (\<not> overflow_checks X) (v1_loop X [] []) v1_ok"
    by (rule safe_readerI) (use o in blast)+
qed

lemmas [safe_intros] = safe_rbind [OF v1_loop.safe_reader_axioms]

definition log_ok :: "ads_log_entry \<Rightarrow> bool" where
  "log_ok e \<longleftrightarrow>
     str_ok (al_message e) \<and> str_ok (al_logger e) \<and> str_ok (al_task_name e) \<and>
     str_ok (al_app_name e) \<and> str_ok (al_project_name e) \<and>
     length (al_trace_id e) = 16 \<and> length (al_span_id e) = 8 \<and>
     hm_wf (al_arguments e) \<and> length (al_arguments e) \<le> MAX_ARGUMENTS \<and> hm_wf (al_context e)"

definition parse_v1_from_reader :: "ext \<Rightarrow> ads_log_entry rd" where
  "parse_v1_from_reader X =
     rbind read_u8 (\<lambda>version_byte.
     rbind (rok_or (InvalidVersion version_byte) (version_from_u8 version_byte)) (\<lambda>version.
     rbind read_string (\<lambda>message.
     rbind read_string (\<lambda>logger.
     rbind read_u16 (\<lambda>level_u16.
     rbind (rok_or (ParseError (''Invalid log level: '' @ show_nat (unat level_u16)))
              (log_level_from_u8 (ucast level_u16))) (\<lambda>level.
     rbind (read_filetime X) (\<lambda>plc_timestamp.
     rbind (read_dc_task_time X) (\<lambda>clock_timestamp.
     rbind read_i32 (\<lambda>task_index.
     rbind read_string (\<lambda>task_name.
     rbind read_u32 (\<lambda>task_cycle_counter.
     rbind read_string (\<lambda>app_name.
     rbind read_string (\<lambda>project_name.
     rbind read_u32 (\<lambda>online_change_count.
     rbind (v1_loop X [] []) (\<lambda>(arguments, ctx).
       rret \<lparr>al_version = version, al_message = message, al_logger = logger, al_level = level,
             al_plc_timestamp = plc_timestamp, al_clock_timestamp = clock_timestamp,
             al_task_index = task_index, al_task_name = task_name,
             al_task_cycle_counter = task_cycle_counter, al_app_name = app_name,
             al_project_name = project_name, al_online_change_count = online_change_count,
             al_trace_id = no_trace, al_span_id = no_span,
             al_arguments = arguments, al_context = ctx\<rparr>)))))))))))))))"

definition v1_log_ok :: "ads_log_entry \<Rightarrow> bool" where
  "v1_log_ok e \<longleftrightarrow> log_ok e \<and> length (al_context e) \<le> MAX_CONTEXT_VARS \<and>
     al_trace_id e = no_trace \<and> al_span_id e = no_span"

interpretation parse_v1: message_parser "\<not> overflow_checks X" "parse_v1_from_reader X" v1_log_ok for X
  unfolding parse_v1_from_reader_def
  by (rule message_parserI)
     (rule safe_intros | clarsimp simp: log_ok_def v1_log_ok_def v1_ok_def split del: if_split)+

section \<open>Log entries, version 2\<close>

definition v2_typed_value :: "ext \<Rightarrow> json rd" where
  "v2_typed_value X =
     rbind read_u8 (\<lambda>type_id. read_value_with_type X (remap_v2_type_id (uint type_id)))"

definition v2_argument :: "ext \<Rightarrow> nat \<Rightarrow> arg_map \<Rightarrow> arg_map rd" where
  "v2_argument X arg_idx arguments =
     (if length arguments \<ge> MAX_ARGUMENTS then rfail (ParseError ''Too many arguments'')
      else rbind (v2_typed_value X) (\<lambda>v. rret (hm_insert (arg_idx + 1) v arguments)))"

definition v2_property :: "ext \<Rightarrow> u8 \<Rightarrow> nat \<Rightarrow> attrs \<times> nat \<Rightarrow> (attrs \<times> nat) rd" where
  "v2_property X scope i st =
     rbind read_string (\<lambda>name.
       rbind (v2_typed_value X) (\<lambda>v.
         rret (hm_insert (scope_key scope name) v (fst st), snd st + 1)))"

definition v2_scope :: "ext \<Rightarrow> nat \<Rightarrow> attrs \<times> nat \<Rightarrow> (attrs \<times> nat) rd" where
  "v2_scope X i st =
     (if snd st \<ge> MAX_CONTEXT_VARS then rfail (ParseError ''Too many context variables'')
      else rbind read_u8 (\<lambda>scope.
             rbind read_u8 (\<lambda>prop_count. rloop 0 (unat prop_count) (v2_property X scope) st)))"

text \<open>The part of a version 2 entry behind the length field and the optional trace context.\<close>

definition v2_body :: "ext \<Rightarrow> u8 list \<Rightarrow> u8 list \<Rightarrow> ads_log_entry rd" where
  "v2_body X trace_id span_id =
     rbind read_u8 (\<lambda>level_byte.
     rbind (rok_or (ParseError (''Invalid log level: '' @ show_nat (unat level_byte)))
              (log_level_from_u8 level_byte)) (\<lambda>level.
     rbind (read_filetime X) (\<lambda>plc_timestamp.
     rbind (read_dc_task_time X) (\<lambda>clock_timestamp.
     rbind read_u8 (\<lambda>task_index.
     rbind read_u32 (\<lambda>cycle_counter.
     rbind read_u8 (\<lambda>arg_count.
     rbind read_u8 (\<lambda>context_count.
     rbind read_string (\<lambda>message.
     rbind read_string (\<lambda>logger.
     rbind (rloop 0 (unat arg_count) (v2_argument X) []) (\<lambda>arguments.
     rbind (rloop 0 (unat context_count) (v2_scope X) ([], 0)) (\<lambda>(ctx, context_idx).
       rret \<lparr>al_version = V2, al_message = message, al_logger = logger, al_level = level,
             al_plc_timestamp = plc_timestamp, al_clock_timestamp = clock_timestamp,
             al_task_index = uint task_index, al_task_name = '''',
             al_task_cycle_counter = cycle_counter, al_app_name = '''',
             al_project_name = '''', al_online_change_count = 0,
             al_trace_id = trace_id, al_span_id = span_id,
             al_arguments = arguments, al_context = ctx\<rparr>))))))))))))"

definition parse_v2_from_reader :: "ext \<Rightarrow> ads_log_entry rd" where
  "parse_v2_from_reader X =
     rbind read_u8 (\<lambda>version_byte.
       if version_byte \<noteq> 2 then rfail (InvalidVersion version_byte)
       else framed (v2_body X no_trace no_span))"

definition traced_body :: "ext \<Rightarrow> ads_log_entry rd" where
  "traced_body X =
     rbind (read_bytes 16) (\<lambda>trace_id.
       rbind (read_bytes 8) (\<lambda>span_id. v2_body X trace_id span_id))"

definition parse_v2_traced_from_reader :: "ext \<Rightarrow> ads_log_entry rd" where
  "parse_v2_traced_from_reader X =
     rbind read_u8 (\<lambda>type_byte.
       if type_byte \<noteq> 9 then
         rfail (ParseError (''Invalid traced log type: '' @ show_nat (unat type_byte)))
       else framed (traced_body X))"

text \<open>
  Arguments get the keys \<open>1..n\<close> in the order of the wire, at most 32 of them; the context
  counter is checked before a scope only, so a message may carry 63 + 255 context variables.
\<close>

definition args_inv :: "nat \<Rightarrow> arg_map \<Rightarrow> bool" where
  "args_inv n a \<longleftrightarrow> hm_wf a \<and> length a = n \<and> dom (hm_get a) = {1..n} \<and> n \<le> MAX_ARGUMENTS"

definition v2_log_ok :: "ads_log_entry \<Rightarrow> bool" where
  "v2_log_ok e \<longleftrightarrow> log_ok e \<and> (\<exists>n. args_inv n (al_arguments e)) \<and>
     length (al_context e) \<le> MAX_CONTEXT_VARS - 1 + 255 \<and>
     al_task_name e = [] \<and> al_app_name e = [] \<and> al_project_name e = []"

interpretation v2_typed_value: safe_reader "\<not> overflow_checks X" "v2_typed_value X" "\<lambda>_. True" for X
  unfolding v2_typed_value_def by (rule safe_intros read_value_with_type.safe_reader_axioms)+

lemmas [safe_intros] = safe_rbind [OF v2_typed_value.safe_reader_axioms]

lemma args_inv_insert: "args_inv n a \<Longrightarrow> n < MAX_ARGUMENTS \<Longrightarrow> args_inv (Suc n) (hm_insert (Suc n) v a)"
proof -
  assume a: "args_inv n a" "n < MAX_ARGUMENTS"
  then have "Suc n \<notin> dom (hm_get a)"
    by (simp add: args_inv_def)
  then have "hm_get a (Suc n) = None"
    by (simp add: domIff)
  then show ?thesis
    using a by (auto simp: args_inv_def hm.len_insert_new hm.get_insert atLeastAtMostSuc_conv)
qed

lemma v2_arguments_safe:
  "safe_reader (\<not> overflow_checks X) (rloop 0 n (v2_argument X) []) (args_inv n)"
proof -
  have "safe_reader (\<not> overflow_checks X) (v2_argument X i a) (args_inv (Suc i))" if "args_inv i a" for i a
  proof -
    have "args_inv (Suc i) (hm_insert (i + 1) v a)" if "\<not> length a \<ge> MAX_ARGUMENTS" for v
      using args_inv_insert [OF \<open>args_inv i a\<close>] \<open>args_inv i a\<close> that by (simp add: args_inv_def)
    then show ?thesis
      unfolding v2_argument_def by (intro safe_intros)
  qed
  then have "safe_reader (\<not> overflow_checks X) (rloop 0 n (v2_argument X) []) (args_inv (0 + n))"
    by (rule safe_rloop) (simp_all add: args_inv_def hm.get_empty)
  then show ?thesis by simp
qed

definition ctx_inv :: "nat \<Rightarrow> attrs \<times> nat \<Rightarrow> bool" where
  "ctx_inv b st \<longleftrightarrow> hm_wf (fst st) \<and> length (fst st) \<le> snd st \<and> snd st \<le> b"

lemma v2_scope_safe:
  assumes "ctx_inv (MAX_CONTEXT_VARS - 1 + 255) st"
  shows "safe_reader (\<not> overflow_checks X) (v2_scope X i st) (ctx_inv (MAX_CONTEXT_VARS - 1 + 255))"
proof -
  have step: "safe_reader (\<not> overflow_checks X) (v2_property X sc j s) (ctx_inv (b + Suc j))"
    if "ctx_inv (b + j) s" for j s b sc
  proof -
    have "ctx_inv (b + Suc j) (hm_insert k v (fst s), snd s + 1)" for k v
      using that hm.len_insert_le [of "fst s" k v] by (auto simp: ctx_inv_def)
    then show ?thesis
      unfolding v2_property_def by (intro safe_intros)
  qed
  have loop: "safe_reader (\<not> overflow_checks X) (rloop 0 (unat n) (v2_property X sc) st)
      (ctx_inv (MAX_CONTEXT_VARS - 1 + 255))" if "snd st < MAX_CONTEXT_VARS" for n :: u8 and sc
  proof -
    have st: "ctx_inv (MAX_CONTEXT_VARS - 1 + 0) st"
      using assms that by (auto simp: ctx_inv_def)
    have "safe_reader (\<not> overflow_checks X) (rloop 0 (unat n) (v2_property X sc) st)
        (ctx_inv (MAX_CONTEXT_VARS - 1 + (0 + unat n)))"
      by (rule safe_rloop [where I = "\<lambda>j. ctx_inv (MAX_CONTEXT_VARS - 1 + j)"]) (use step st in auto)
    then show ?thesis
    proof (rule safe_weaken)
      fix p assume "ctx_inv (MAX_CONTEXT_VARS - 1 + (0 + unat n)) p"
      then show "ctx_inv (MAX_CONTEXT_VARS - 1 + 255) p"
        using unat_u8_less [of n] unfolding ctx_inv_def by linarith
    qed
  qed
  show ?thesis
    unfolding v2_scope_def by (rule safe_intros loop | simp)+
qed

lemma v2_context_safe:
  "safe_reader (\<not> overflow_checks X) (rloop 0 n (v2_scope X) ([], 0))
     (ctx_inv (MAX_CONTEXT_VARS - 1 + 255))"
  by (rule safe_rloop [where I = "\<lambda>_. ctx_inv (MAX_CONTEXT_VARS - 1 + 255)", OF v2_scope_safe])
     (simp_all add: ctx_inv_def)

lemmas v2_body_intros = safe_intros safe_rbind [OF v2_arguments_safe] safe_rbind [OF v2_context_safe]

lemma v2_body_safe:
  assumes "length trace_id = 16" "length span_id = 8"
  shows "safe_reader (\<not> overflow_checks X) (v2_body X trace_id span_id)
           (\<lambda>e. v2_log_ok e \<and> al_trace_id e = trace_id \<and> al_span_id e = span_id)"
  unfolding v2_body_def
  by (rule v2_body_intros
      | clarsimp simp: v2_log_ok_def log_ok_def ctx_inv_def assms args_inv_def split del: if_split
      | auto)+

interpretation parse_v2: message_parser "\<not> overflow_checks X" "parse_v2_from_reader X"
    "\<lambda>e. v2_log_ok e \<and> al_trace_id e = no_trace \<and> al_span_id e = no_span" for X
  unfolding parse_v2_from_reader_def
  by (rule framed_message_parser) (rule v2_body_safe, simp_all)

lemma traced_body_safe: "safe_reader (\<not> overflow_checks X) (traced_body X) v2_log_ok"
  unfolding traced_body_def
  by (rule safe_intros safe_weaken [OF v2_body_safe] | simp)+

interpretation parse_v2_traced:
  message_parser "\<not> overflow_checks X" "parse_v2_traced_from_reader X" v2_log_ok for X
  unfolding parse_v2_traced_from_reader_def
  by (rule framed_message_parser [OF traced_body_safe])

end
