(* ===== verification/Messages.thy ===== *)
theory Messages
  imports Parser
begin

text \<open>
  The remaining message parsers of \<^verbatim>\<open>tc-otel-ads/src/parser.rs\<close>: registrations, streaming span
  events, completed spans and metrics, with the limits each parser enforces as the result
  predicate of its contract. For registrations and span events there are also the encoders of
  the wire format, and the proof that the parsers invert them.
\<close>

section \<open>Registrations\<close>

definition parse_registration_from_reader :: "registration_message rd" where
  "parse_registration_from_reader =
     rbind read_u8 (\<lambda>type_byte.
       if type_byte \<noteq> 3 then
         rfail (ParseError (''Invalid registration type: '' @ show_nat (unat type_byte)))
       else
         rbind read_u8 (\<lambda>task_index.
         rbind read_string (\<lambda>task_name.
         rbind read_string (\<lambda>app_name.
         rbind read_string (\<lambda>project_name.
         rbind read_u32 (\<lambda>online_change_count.
         rbind read_u16 (\<lambda>app_port.
           rret \<lparr>rg_task_index = task_index, rg_task_name = task_name, rg_app_name = app_name,
                 rg_project_name = project_name, rg_online_change_count = online_change_count,
                 rg_app_port = app_port\<rparr>)))))))"

definition registration_ok :: "registration_message \<Rightarrow> bool" where
  "registration_ok g \<longleftrightarrow>
     str_ok (rg_task_name g) \<and> str_ok (rg_app_name g) \<and> str_ok (rg_project_name g)"

interpretation parse_registration:
  message_parser Q parse_registration_from_reader registration_ok for Q
  unfolding parse_registration_from_reader_def
  by (rule message_parserI) (rule safe_intros | simp add: registration_ok_def)+

definition registration_enc :: "registration_message \<Rightarrow> u8 list" where
  "registration_enc g =
     [3] @ [rg_task_index g] @ string_enc (rg_task_name g) @ string_enc (rg_app_name g) @
     string_enc (rg_project_name g) @ u32_to_le (rg_online_change_count g) @
     u16_to_le (rg_app_port g)"

definition registration_short :: "registration_message \<Rightarrow> bool" where
  "registration_short g \<longleftrightarrow>
     short_str (rg_task_name g) \<and> short_str (rg_app_name g) \<and> short_str (rg_project_name g)"

interpretation registration: reader_codec parse_registration_from_reader registration_enc registration_short
proof unfold_locales
  fix g assume "registration_short g"
  then show "reads parse_registration_from_reader (registration_enc g) g"
    unfolding parse_registration_from_reader_def registration_enc_def
    by - (rule reads_intros | simp add: registration_short_def)+
qed

section \<open>Streaming span events\<close>

definition read_opt_string :: "bool \<Rightarrow> string \<Rightarrow> string \<Rightarrow> string option rd" where
  "read_opt_string present too_long bad_utf8 =
     (if present then
        rbind read_u8 (\<lambda>l.
          if unat l > 127 then rfail (ParseError too_long)
          else rbind (read_utf8 (unat l) bad_utf8) (\<lambda>s. rret (Some s)))
      else rret None)"

definition parse_span_begin :: "u8 \<Rightarrow> u8 \<Rightarrow> u8 \<Rightarrow> int \<Rightarrow> trace_wire_event rd" where
  "parse_span_begin local_id task_index flags dc_time =
     rbind (read_bytes 8) (\<lambda>parent_span_id.
     rbind read_u8 (\<lambda>kind.
     rbind read_u8 (\<lambda>name_len.
     rbind (read_bytes 2) (\<lambda>_.
     rbind (guard_err (unat name_len > 127) (ParseError ''SPAN_BEGIN: name length exceeds 127'')) (\<lambda>_.
     rbind (read_bytes 16) (\<lambda>trace_id.
     rbind (read_bytes 8) (\<lambda>span_id.
     rbind (read_utf8 (unat name_len) ''SPAN_BEGIN: invalid UTF-8 in name'') (\<lambda>name.
     rbind (read_opt_string (flags AND 2 \<noteq> 0) ''SPAN_BEGIN: traceparent length exceeds 127''
              ''SPAN_BEGIN: invalid UTF-8 in traceparent'') (\<lambda>traceparent.
     rbind (read_opt_string (flags AND 4 \<noteq> 0) ''SPAN_BEGIN: namespace length exceeds 127''
              ''SPAN_BEGIN: invalid UTF-8 in namespace'') (\<lambda>ns.
       rret (Begin \<lparr>sb_local_id = local_id, sb_task_index = task_index, sb_flags = flags,
                    sb_dc_time = dc_time, sb_parent_span_id = parent_span_id, sb_kind = kind,
                    sb_name = name, sb_traceparent = traceparent, sb_trace_id = trace_id,
                    sb_span_id = span_id,
                    sb_scope_namespace = (case ns of Some s \<Rightarrow> s | None \<Rightarrow> '''')\<rparr>)))))))))))"

definition read_attr_value :: "u8 \<Rightarrow> nat \<Rightarrow> attr_value rd" where
  "read_attr_value value_type value_len =
     (if value_type = 1 then rbind read_i64 (\<lambda>v. rret (AttrI64 v))
      else if value_type = 2 then rbind read_u64 (\<lambda>v. rret (AttrF64 v))
      else if value_type = 3 then rbind read_u8 (\<lambda>b. rret (AttrBool (b \<noteq> 0)))
      else if value_type = 4 then
        rbind (read_utf8 value_len ''SPAN_ATTR: invalid UTF-8 in string value'')
          (\<lambda>s. rret (AttrString s))
      else rfail (ParseError (''SPAN_ATTR: unknown value_type '' @ show_nat (unat value_type))))"

definition parse_span_attr :: "u8 \<Rightarrow> u8 \<Rightarrow> u8 \<Rightarrow> int \<Rightarrow> trace_wire_event rd" where
  "parse_span_attr local_id task_index flags dc_time =
     rbind (read_bytes 7) (\<lambda>span_id_bytes_1_7.
     rbind read_u8 (\<lambda>value_type.
     rbind read_u8 (\<lambda>key_len.
     rbind read_u8 (\<lambda>value_len.
     rbind read_u8 (\<lambda>_.
     rbind (guard_err (unat key_len > 31) (ParseError ''SPAN_ATTR: key length exceeds 31'')) (\<lambda>_.
     rbind (guard_err (unat value_len > 127) (ParseError ''SPAN_ATTR: value length exceeds 127'')) (\<lambda>_.
     rbind (read_utf8 (unat key_len) ''SPAN_ATTR: invalid UTF-8 in key'') (\<lambda>key.
     rbind (read_attr_value value_type (unat value_len)) (\<lambda>v.
       rret (Attr \<lparr>sa_span_id = local_id # span_id_bytes_1_7, sa_task_index = task_index,
                   sa_flags = flags, sa_dc_time = dc_time, sa_key = key, sa_value = v\<rparr>))))))))))"

definition read_event_attr_value :: "u8 \<Rightarrow> attr_value rd" where
  "read_event_attr_value value_type =
     (if value_type = 1 then rbind read_i64 (\<lambda>v. rret (AttrI64 v))
      else if value_type = 2 then rbind read_u8 (\<lambda>b. rret (AttrBool (b \<noteq> 0)))
      else rfail (ParseError (''SPAN_EVENT attr: invalid value_type '' @
             show_nat (unat value_type) @ '' (only 1=i64, 2=bool)'')))"

definition parse_event_attr ::
    "nat \<Rightarrow> (string \<times> attr_value) list \<Rightarrow> (string \<times> attr_value) list rd" where
  "parse_event_attr i attrs =
     rbind read_u8 (\<lambda>value_type.
     rbind read_u8 (\<lambda>key_len.
     rbind read_u8 (\<lambda>_.
     rbind read_u8 (\<lambda>_.
     rbind (guard_err (unat key_len > 31) (ParseError ''SPAN_EVENT attr: key length exceeds 31'')) (\<lambda>_.
     rbind (read_utf8 (unat key_len) ''SPAN_EVENT attr: invalid UTF-8 in key'') (\<lambda>key.
     rbind (read_event_attr_value value_type) (\<lambda>v. rret (attrs @ [(key, v)]))))))))"

definition parse_span_event :: "u8 \<Rightarrow> u8 \<Rightarrow> u8 \<Rightarrow> int \<Rightarrow> trace_wire_event rd" where
  "parse_span_event local_id task_index flags dc_time =
     rbind (read_bytes 7) (\<lambda>span_id_bytes_1_7.
     rbind read_u8 (\<lambda>name_len.
     rbind read_u8 (\<lambda>attr_count.
     rbind read_u16 (\<lambda>_.
     rbind (guard_err (unat name_len > 31) (ParseError ''SPAN_EVENT: name length exceeds 31'')) (\<lambda>_.
     rbind (guard_err (unat attr_count > 4) (ParseError ''SPAN_EVENT: attribute count exceeds 4'')) (\<lambda>_.
     rbind (read_utf8 (unat name_len) ''SPAN_EVENT: invalid UTF-8 in name'') (\<lambda>name.
     rbind (rloop 0 (unat attr_count) parse_event_attr []) (\<lambda>attrs.
       rret (Event \<lparr>sn_span_id = local_id # span_id_bytes_1_7, sn_task_index = task_index,
                    sn_flags = flags, sn_dc_time = dc_time, sn_name = name, sn_attrs = attrs\<rparr>)))))))))"

definition parse_span_end :: "u8 \<Rightarrow> u8 \<Rightarrow> u8 \<Rightarrow> int \<Rightarrow> trace_wire_event rd" where
  "parse_span_end local_id task_index flags dc_time =
     rbind (read_bytes 7) (\<lambda>span_id_bytes_1_7.
     rbind read_u8 (\<lambda>status.
     rbind read_u8 (\<lambda>msg_len.
     rbind read_u16 (\<lambda>_.
     rbind (guard_err (unat msg_len > 127) (ParseError ''SPAN_END: message length exceeds 127'')) (\<lambda>_.
     rbind (read_utf8 (unat msg_len) ''SPAN_END: invalid UTF-8 in message'') (\<lambda>message.
       rret (End \<lparr>se_span_id = local_id # span_id_bytes_1_7, se_task_index = task_index,
                  se_flags = flags, se_dc_time = dc_time, se_status = status,
                  se_message = message\<rparr>)))))))"

definition parse_v2_trace_event_from_reader :: "trace_wire_event rd" where
  "parse_v2_trace_event_from_reader =
     rbind read_u8 (\<lambda>event_type.
     rbind read_u8 (\<lambda>local_id.
     rbind read_u8 (\<lambda>task_index.
     rbind read_u8 (\<lambda>flags.
     rbind read_i64 (\<lambda>dc_time.
       if event_type = 5 then parse_span_begin local_id task_index flags dc_time
       else if event_type = 6 then parse_span_attr local_id task_index flags dc_time
       else if event_type = 7 then parse_span_event local_id task_index flags dc_time
       else if event_type = 8 then parse_span_end local_id task_index flags dc_time
       else rfail (ParseError (''Unknown trace event type: '' @ show_nat (unat event_type))))))))"

text \<open>What the parser guarantees of an event it accepts.\<close>

definition bounded_str :: "nat \<Rightarrow> string \<Rightarrow> bool" where
  "bounded_str n s \<longleftrightarrow> str_ok s \<and> length s \<le> n"

fun attr_value_ok :: "attr_value \<Rightarrow> bool" where
  "attr_value_ok (AttrI64 i) = i64_range i"
| "attr_value_ok (AttrF64 w) = True"
| "attr_value_ok (AttrBool b) = True"
| "attr_value_ok (AttrString s) = bounded_str 127 s"

fun event_value_ok :: "attr_value \<Rightarrow> bool" where
  "event_value_ok (AttrI64 i) = i64_range i"
| "event_value_ok (AttrBool b) = True"
| "event_value_ok _ = False"

definition event_attr_ok :: "string \<times> attr_value \<Rightarrow> bool" where
  "event_attr_ok kv \<longleftrightarrow> bounded_str 31 (fst kv) \<and> event_value_ok (snd kv)"

fun trace_event_ok :: "trace_wire_event \<Rightarrow> bool" where
  "trace_event_ok (Begin b) =
     (length (sb_parent_span_id b) = 8 \<and> length (sb_trace_id b) = 16 \<and> length (sb_span_id b) = 8 \<and>
      i64_range (sb_dc_time b) \<and> bounded_str 127 (sb_name b) \<and>
      (case sb_traceparent b of
         None \<Rightarrow> sb_flags b AND 2 = 0
       | Some tp \<Rightarrow> sb_flags b AND 2 \<noteq> 0 \<and> bounded_str 127 tp) \<and>
      bounded_str 127 (sb_scope_namespace b) \<and>
      (sb_flags b AND 4 = 0 \<longrightarrow> sb_scope_namespace b = []))"
| "trace_event_ok (Attr a) =
     (length (sa_span_id a) = 8 \<and> i64_range (sa_dc_time a) \<and> bounded_str 31 (sa_key a) \<and>
      attr_value_ok (sa_value a))"
| "trace_event_ok (Event v) =
     (length (sn_span_id v) = 8 \<and> i64_range (sn_dc_time v) \<and> bounded_str 31 (sn_name v) \<and>
      length (sn_attrs v) \<le> 4 \<and> list_all event_attr_ok (sn_attrs v))"
| "trace_event_ok (End e) =
     (length (se_span_id e) = 8 \<and> i64_range (se_dc_time e) \<and> bounded_str 127 (se_message e))"

lemma read_opt_string_safe:
  "safe_reader Q (read_opt_string c a b)
     (\<lambda>y. case y of None \<Rightarrow> \<not> c | Some s \<Rightarrow> c \<and> bounded_str 127 s)"
  unfolding read_opt_string_def by (rule safe_intros | simp add: bounded_str_def)+

lemma parse_span_begin_safe:
  "i64_range dc_time \<Longrightarrow> safe_reader Q (parse_span_begin local_id task_index flags dc_time) trace_event_ok"
  unfolding parse_span_begin_def
  by (rule safe_intros safe_rbind [OF read_opt_string_safe]
      | clarsimp simp: bounded_str_def split: option.splits)+

lemma read_attr_value_safe:
  "n \<le> 127 \<Longrightarrow> safe_reader Q (read_attr_value t n) attr_value_ok"
  unfolding read_attr_value_def by (rule safe_intros | simp add: bounded_str_def)+

lemma parse_span_attr_safe:
  "i64_range dc_time \<Longrightarrow> safe_reader Q (parse_span_attr local_id task_index flags dc_time) trace_event_ok"
  unfolding parse_span_attr_def
  by (rule safe_intros safe_rbind [OF read_attr_value_safe] | simp add: bounded_str_def)+

lemma read_event_attr_value_safe:
  "safe_reader Q (read_event_attr_value t) event_value_ok"
  unfolding read_event_attr_value_def by (rule safe_intros | simp)+

definition event_attrs_inv :: "nat \<Rightarrow> (string \<times> attr_value) list \<Rightarrow> bool" where
  "event_attrs_inv i attrs \<longleftrightarrow> length attrs = i \<and> list_all event_attr_ok attrs"

lemma parse_event_attr_safe:
  "event_attrs_inv i attrs \<Longrightarrow> safe_reader Q (parse_event_attr i attrs) (event_attrs_inv (Suc i))"
  unfolding parse_event_attr_def
  by (rule safe_intros safe_rbind [OF read_event_attr_value_safe]
      | simp add: bounded_str_def event_attrs_inv_def event_attr_ok_def)+

lemma parse_event_attrs_safe: "safe_reader Q (rloop 0 n parse_event_attr []) (event_attrs_inv n)"
proof -
  have "safe_reader Q (rloop 0 n parse_event_attr []) (event_attrs_inv (0 + n))"
    by (rule safe_rloop, erule parse_event_attr_safe) (simp add: event_attrs_inv_def)
  then show ?thesis by simp
qed

lemma parse_span_event_safe:
  "i64_range dc_time \<Longrightarrow> safe_reader Q (parse_span_event local_id task_index flags dc_time) trace_event_ok"
  unfolding parse_span_event_def
  by (rule safe_intros safe_rbind [OF parse_event_attrs_safe]
      | simp add: bounded_str_def event_attrs_inv_def)+

lemma parse_span_end_safe:
  "i64_range dc_time \<Longrightarrow> safe_reader Q (parse_span_end local_id task_index flags dc_time) trace_event_ok"
  unfolding parse_span_end_def by (rule safe_intros | simp add: bounded_str_def)+

interpretation parse_trace_event:
  message_parser Q parse_v2_trace_event_from_reader trace_event_ok for Q
  unfolding parse_v2_trace_event_from_reader_def
  by (rule message_parserI)
     (rule safe_intros parse_span_begin_safe parse_span_attr_safe parse_span_event_safe
        parse_span_end_safe | assumption)+

text \<open>The encoders of the four events.\<close>

fun attr_value_type :: "attr_value \<Rightarrow> u8" where
  "attr_value_type (AttrI64 _) = 1"
| "attr_value_type (AttrF64 _) = 2"
| "attr_value_type (AttrBool _) = 3"
| "attr_value_type (AttrString _) = 4"

fun attr_value_len :: "attr_value \<Rightarrow> nat" where
  "attr_value_len (AttrString s) = length s"
| "attr_value_len (AttrBool _) = 1"
| "attr_value_len _ = 8"

fun attr_value_enc :: "attr_value \<Rightarrow> u8 list" where
  "attr_value_enc (AttrI64 i) = i64_to_le i"
| "attr_value_enc (AttrF64 w) = u64_to_le w"
| "attr_value_enc (AttrBool b) = [if b then 1 else 0]"
| "attr_value_enc (AttrString s) = bytes_of_str s"

fun event_value_type :: "attr_value \<Rightarrow> u8" where
  "event_value_type (AttrI64 _) = 1"
| "event_value_type _ = 2"

definition event_attr_enc :: "string \<times> attr_value \<Rightarrow> u8 list" where
  "event_attr_enc kv =
     [event_value_type (snd kv)] @ [of_nat (length (fst kv))] @
     [of_nat (attr_value_len (snd kv))] @ [0] @ bytes_of_str (fst kv) @ attr_value_enc (snd kv)"

definition event_header :: "u8 \<Rightarrow> u8 \<Rightarrow> u8 \<Rightarrow> u8 \<Rightarrow> int \<Rightarrow> u8 list \<Rightarrow> u8 list" where
  "event_header event_type local_id task_index flags dc_time payload =
     [event_type] @ [local_id] @ [task_index] @ [flags] @ i64_to_le dc_time @ payload"

fun trace_event_enc :: "trace_wire_event \<Rightarrow> u8 list" where
  "trace_event_enc (Begin b) =
     event_header 5 (sb_local_id b) (sb_task_index b) (sb_flags b) (sb_dc_time b)
       (sb_parent_span_id b @ [sb_kind b] @ [of_nat (length (sb_name b))] @ [0, 0] @
        sb_trace_id b @ sb_span_id b @ bytes_of_str (sb_name b) @
        (case sb_traceparent b of None \<Rightarrow> [] | Some tp \<Rightarrow> string_enc tp) @
        (if sb_flags b AND 4 \<noteq> 0 then string_enc (sb_scope_namespace b) else []))"
| "trace_event_enc (Attr a) =
     event_header 6 (hd (sa_span_id a)) (sa_task_index a) (sa_flags a) (sa_dc_time a)
       (tl (sa_span_id a) @ [attr_value_type (sa_value a)] @ [of_nat (length (sa_key a))] @
        [of_nat (attr_value_len (sa_value a))] @ [0] @ bytes_of_str (sa_key a) @
        attr_value_enc (sa_value a))"
| "trace_event_enc (Event v) =
     event_header 7 (hd (sn_span_id v)) (sn_task_index v) (sn_flags v) (sn_dc_time v)
       (tl (sn_span_id v) @ [of_nat (length (sn_name v))] @ [of_nat (length (sn_attrs v))] @
        u16_to_le 0 @ bytes_of_str (sn_name v) @ concat (map event_attr_enc (sn_attrs v)))"
| "trace_event_enc (End e) =
     event_header 8 (hd (se_span_id e)) (se_task_index e) (se_flags e) (se_dc_time e)
       (tl (se_span_id e) @ [se_status e] @ [of_nat (length (se_message e))] @ u16_to_le 0 @
        bytes_of_str (se_message e))"

lemma unat_length_u8: "length s \<le> 127 \<Longrightarrow> unat (of_nat (length s) :: u8) = length s"
  by (simp add: unat_of_nat)

lemma reads_opt_string_None [reads_intros]:
  "\<not> c \<Longrightarrow> reads (read_opt_string c a b) [] None"
  by (simp add: read_opt_string_def reads_rret)

lemma reads_opt_string_Some [reads_intros]:
  assumes "c" "bounded_str 127 s"
  shows "reads (read_opt_string c a b) (string_enc s) (Some s)"
proof -
  have "reads (read_opt_string c a b) ([of_nat (length s)] @ bytes_of_str s) (Some s)"
    using assms unat_length_u8 [of s] unfolding read_opt_string_def bounded_str_def
    by (simp only: if_True) (rule reads_intros reads_bind_intros | simp)+
  then show ?thesis by (simp add: string_enc_def)
qed

lemma reads_attr_value:
  assumes "attr_value_ok v"
  shows "reads (read_attr_value (attr_value_type v) (unat (of_nat (attr_value_len v) :: u8)))
           (attr_value_enc v) v"
  using assms
  by (cases v)
     (auto simp: read_attr_value_def bounded_str_def unat_length_u8 intro!: reads_intros
        read_u8.reads_final reads_bind_intros)

lemma reads_event_attr:
  assumes "event_attr_ok kv"
  shows "reads (parse_event_attr i attrs) (event_attr_enc kv) (attrs @ [kv])"
proof -
  have v: "reads (read_event_attr_value (event_value_type (snd kv))) (attr_value_enc (snd kv)) (snd kv)"
    using assms
    by (cases "snd kv") (auto simp: read_event_attr_value_def event_attr_ok_def intro!: reads_intros)
  have "length (fst kv) \<le> 31" "str_ok (fst kv)"
    using assms by (auto simp: event_attr_ok_def bounded_str_def)
  then show ?thesis
    using unat_length_u8 [of "fst kv"]
    unfolding parse_event_attr_def event_attr_enc_def
    by - (rule reads_intros reads_bind_intros reads_rbind_last [OF v] | simp)+
qed

lemma reads_event_attrs:
  "list_all event_attr_ok kvs \<Longrightarrow>
   reads (rloop i (length kvs) parse_event_attr attrs) (concat (map event_attr_enc kvs)) (attrs @ kvs)"
proof (induction kvs arbitrary: i attrs)
  case Nil
  then show ?case by (simp add: reads_rret)
next
  case (Cons kv kvs)
  have "reads (rloop (Suc i) (length kvs) parse_event_attr (attrs @ [kv]))
          (concat (map event_attr_enc kvs)) ((attrs @ [kv]) @ kvs)"
    using Cons.prems by (intro Cons.IH) simp
  moreover have "reads (parse_event_attr i attrs) (event_attr_enc kv) (attrs @ [kv])"
    using Cons.prems by (intro reads_event_attr) simp
  ultimately have "reads (rbind (parse_event_attr i attrs) (rloop (Suc i) (length kvs) parse_event_attr))
      (event_attr_enc kv @ concat (map event_attr_enc kvs)) ((attrs @ [kv]) @ kvs)"
    by (rule reads_rbind [rotated])
  then show ?case by simp
qed

lemma reads_span_begin:
  assumes "trace_event_ok (Begin b)"
  shows "reads (parse_span_begin (sb_local_id b) (sb_task_index b) (sb_flags b) (sb_dc_time b))
           (sb_parent_span_id b @ [sb_kind b] @ [of_nat (length (sb_name b))] @ [0, 0] @
            sb_trace_id b @ sb_span_id b @ bytes_of_str (sb_name b) @
            (case sb_traceparent b of None \<Rightarrow> [] | Some tp \<Rightarrow> string_enc tp) @
            (if sb_flags b AND 4 \<noteq> 0 then string_enc (sb_scope_namespace b) else [])) (Begin b)"
proof -
  have tp: "reads (read_opt_string (sb_flags b AND 2 \<noteq> 0) x y)
      (case sb_traceparent b of None \<Rightarrow> [] | Some tp \<Rightarrow> string_enc tp) (sb_traceparent b)" for x y
    using assms by (cases "sb_traceparent b") (auto intro: reads_intros)
  have ns: "reads (read_opt_string (sb_flags b AND 4 \<noteq> 0) x y)
      (if sb_flags b AND 4 \<noteq> 0 then string_enc (sb_scope_namespace b) else [])
      (if sb_flags b AND 4 \<noteq> 0 then Some (sb_scope_namespace b) else None)" for x y
    using assms by (auto intro: reads_intros)
  have name: "str_ok (sb_name b)" "length (sb_name b) \<le> 127"
    using assms by (auto simp: bounded_str_def)
  show ?thesis
    using assms name unat_length_u8 [OF name(2)]
    unfolding parse_span_begin_def
    by - (rule reads_intros reads_bind_intros reads_rbind [OF tp] reads_rbind_last [OF ns] | simp)+
qed

lemma reads_span_attr:
  assumes "trace_event_ok (Attr a)"
  shows "reads (parse_span_attr (hd (sa_span_id a)) (sa_task_index a) (sa_flags a) (sa_dc_time a))
           (tl (sa_span_id a) @ [attr_value_type (sa_value a)] @ [of_nat (length (sa_key a))] @
            [of_nat (attr_value_len (sa_value a))] @ [0] @ bytes_of_str (sa_key a) @
            attr_value_enc (sa_value a)) (Attr a)"
proof -
  have v: "reads (read_attr_value (attr_value_type (sa_value a))
      (unat (of_nat (attr_value_len (sa_value a)) :: u8))) (attr_value_enc (sa_value a)) (sa_value a)"
    using assms by (intro reads_attr_value) simp
  have "unat (of_nat (attr_value_len (sa_value a)) :: u8) \<le> 127"
    using assms by (cases "sa_value a") (auto simp: bounded_str_def unat_length_u8)
  moreover have key: "str_ok (sa_key a)" "length (sa_key a) \<le> 31" "length (sa_key a) \<le> 127"
    using assms by (auto simp: bounded_str_def)
  moreover have "hd (sa_span_id a) # tl (sa_span_id a) = sa_span_id a"
    using assms by (cases "sa_span_id a") auto
  ultimately show ?thesis
    using assms unat_length_u8 [OF key(3)]
    unfolding parse_span_attr_def
    by - (rule reads_intros reads_bind_intros reads_rbind_last [OF v] | simp)+
qed

lemma reads_span_event:
  assumes "trace_event_ok (Event v)"
  shows "reads (parse_span_event (hd (sn_span_id v)) (sn_task_index v) (sn_flags v) (sn_dc_time v))
           (tl (sn_span_id v) @ [of_nat (length (sn_name v))] @ [of_nat (length (sn_attrs v))] @
            u16_to_le 0 @ bytes_of_str (sn_name v) @ concat (map event_attr_enc (sn_attrs v)))
           (Event v)"
proof -
  have attrs: "reads (rloop 0 (length (sn_attrs v)) parse_event_attr [])
      (concat (map event_attr_enc (sn_attrs v))) (sn_attrs v)"
    using assms reads_event_attrs [of "sn_attrs v" 0 "[]"] by simp
  have name: "str_ok (sn_name v)" "length (sn_name v) \<le> 31" "length (sn_name v) \<le> 127"
    using assms by (auto simp: bounded_str_def)
  moreover have n: "unat (of_nat (length (sn_attrs v)) :: u8) = length (sn_attrs v)"
    using assms by (intro unat_length_u8) simp
  moreover have "hd (sn_span_id v) # tl (sn_span_id v) = sn_span_id v"
    using assms by (cases "sn_span_id v") auto
  ultimately show ?thesis
    using assms unat_length_u8 [OF name(3)]
    unfolding parse_span_event_def
    by - (rule reads_intros reads_bind_intros reads_rbind_last [OF attrs] | simp)+
qed

lemma reads_span_end:
  assumes "trace_event_ok (End e)"
  shows "reads (parse_span_end (hd (se_span_id e)) (se_task_index e) (se_flags e) (se_dc_time e))
           (tl (se_span_id e) @ [se_status e] @ [of_nat (length (se_message e))] @ u16_to_le 0 @
            bytes_of_str (se_message e)) (End e)"
proof -
  have msg: "str_ok (se_message e)" "length (se_message e) \<le> 127"
    using assms by (auto simp: bounded_str_def)
  moreover have "hd (se_span_id e) # tl (se_span_id e) = se_span_id e"
    using assms by (cases "se_span_id e") auto
  ultimately show ?thesis
    using assms unat_length_u8 [OF msg(2)]
    unfolding parse_span_end_def
    by - (rule reads_intros reads_bind_intros | simp)+
qed

interpretation trace_event:
  reader_codec parse_v2_trace_event_from_reader trace_event_enc trace_event_ok
proof unfold_locales
  fix ev assume ok: "trace_event_ok ev"
  then show "reads parse_v2_trace_event_from_reader (trace_event_enc ev) ev"
  proof (cases ev)
    case (Begin b)
    then show ?thesis
      using ok reads_span_begin [of b]
      unfolding parse_v2_trace_event_from_reader_def Begin trace_event_enc.simps event_header_def
      by - (intro read_u8.reads_step read_i64.reads_step, auto)
  next
    case (Attr a)
    then show ?thesis
      using ok reads_span_attr [of a]
      unfolding parse_v2_trace_event_from_reader_def Attr trace_event_enc.simps event_header_def
      by - (intro read_u8.reads_step read_i64.reads_step, auto)
  next
    case (Event v)
    then show ?thesis
      using ok reads_span_event [of v]
      unfolding parse_v2_trace_event_from_reader_def Event trace_event_enc.simps event_header_def
      by - (intro read_u8.reads_step read_i64.reads_step, auto)
  next
    case (End e)
    then show ?thesis
      using ok reads_span_end [of e]
      unfolding parse_v2_trace_event_from_reader_def End trace_event_enc.simps event_header_def
      by - (intro read_u8.reads_step read_i64.reads_step, auto)
  qed
qed

section \<open>Typed attributes\<close>

definition typed_attribute :: "ext \<Rightarrow> nat \<Rightarrow> attrs \<Rightarrow> attrs rd" where
  "typed_attribute X i attributes =
     rbind read_string (\<lambda>key. rbind (v2_typed_value X) (\<lambda>v. rret (hm_insert key v attributes)))"

definition attrs_inv :: "nat \<Rightarrow> attrs \<Rightarrow> bool" where
  "attrs_inv n a \<longleftrightarrow> hm_wf a \<and> length a \<le> n"

lemma typed_attributes_safe:
  "safe_reader (\<not> overflow_checks X) (rloop 0 n (typed_attribute X) []) (attrs_inv n)"
proof -
  have "safe_reader (\<not> overflow_checks X) (typed_attribute X i a) (attrs_inv (Suc i))"
    if "attrs_inv i a" for i a
  proof -
    have "attrs_inv (Suc i) (hm_insert k v a)" for k v
      using that hm.len_insert_le [of a k v] by (auto simp: attrs_inv_def)
    then show ?thesis
      unfolding typed_attribute_def by (intro safe_intros)
  qed
  then have "safe_reader (\<not> overflow_checks X) (rloop 0 n (typed_attribute X) []) (attrs_inv (0 + n))"
    by (rule safe_rloop) (simp_all add: attrs_inv_def)
  then show ?thesis by simp
qed

lemmas typed_attributes_bind = safe_rbind [OF typed_attributes_safe]

section \<open>Metrics\<close>

definition read_u64_push :: "nat \<Rightarrow> u64 list \<Rightarrow> u64 list rd" where
  "read_u64_push i xs = rbind read_u64 (\<lambda>v. rret (xs @ [v]))"

lemma read_u64s_safe: "safe_reader Q (rloop 0 n read_u64_push []) (\<lambda>xs. length xs = n)"
proof -
  have "safe_reader Q (rloop 0 n read_u64_push []) ((\<lambda>i xs. length xs = i) (0 + n))"
    by (rule safe_rloop) (auto simp: read_u64_push_def intro!: safe_intros)
  then show ?thesis by simp
qed

record histogram_fields =
  hf_bounds :: "f64 list"
  hf_counts :: "u64 list"
  hf_count :: u64
  hf_sum :: f64

definition read_histogram :: "histogram_fields rd" where
  "read_histogram =
     rbind read_u8 (\<lambda>bucket_count.
     rbind (guard_err (unat bucket_count > MAX_HISTOGRAM_BUCKETS)
              (ParseError (''Histogram bucket count '' @ show_nat (unat bucket_count) @
                '' exceeds maximum '' @ show_nat MAX_HISTOGRAM_BUCKETS))) (\<lambda>_.
     rbind (rloop 0 (unat bucket_count) read_u64_push []) (\<lambda>bounds.
     rbind (rloop 0 (unat bucket_count + 1) read_u64_push []) (\<lambda>counts.
     rbind read_u64 (\<lambda>hc.
     rbind read_u64 (\<lambda>hs.
       rret \<lparr>hf_bounds = bounds, hf_counts = counts, hf_count = hc, hf_sum = hs\<rparr>))))))"

definition no_histogram :: histogram_fields where
  "no_histogram = \<lparr>hf_bounds = [], hf_counts = [], hf_count = 0, hf_sum = 0\<rparr>"

definition metric_body :: "ext \<Rightarrow> ads_metric_entry rd" where
  "metric_body X =
     rbind read_u8 (\<lambda>kind_byte.
     rbind (rok_or (ParseError (''Invalid metric kind: '' @ show_nat (unat kind_byte)))
              (metric_kind_from_u8 kind_byte)) (\<lambda>kind.
     rbind (read_filetime X) (\<lambda>timestamp.
     rbind read_u8 (\<lambda>task_index.
     rbind read_u32 (\<lambda>cycle_counter.
     rbind read_u8 (\<lambda>attr_count.
     rbind read_u8 (\<lambda>flags.
     rbind (guard_err (unat attr_count > MAX_METRIC_ATTRIBUTES)
              (ParseError (''Metric attribute count '' @ show_nat (unat attr_count) @
                '' exceeds maximum '' @ show_nat MAX_METRIC_ATTRIBUTES))) (\<lambda>_.
     rbind read_string (\<lambda>name.
     rbind read_string (\<lambda>description.
     rbind read_string (\<lambda>unit_str.
     rbind read_u64 (\<lambda>v.
     rbind (if kind = Histogram then read_histogram else rret no_histogram) (\<lambda>h.
     rbind (rloop 0 (unat attr_count) (typed_attribute X) []) (\<lambda>attributes.
       rret \<lparr>am_name = name, am_description = description, am_unit = unit_str, am_kind = kind,
             am_value = v, am_timestamp = timestamp, am_task_index = uint task_index,
             am_task_cycle_counter = cycle_counter, am_is_monotonic = (flags AND 1 \<noteq> 0),
             am_attributes = attributes, am_histogram_bounds = hf_bounds h,
             am_histogram_counts = hf_counts h, am_histogram_count = hf_count h,
             am_histogram_sum = hf_sum h\<rparr>))))))))))))))"

definition parse_metric_from_reader :: "ext \<Rightarrow> ads_metric_entry rd" where
  "parse_metric_from_reader X =
     rbind read_u8 (\<lambda>type_byte.
       if type_byte \<noteq> 4 then
         rfail (ParseError (''Invalid metric type: '' @ show_nat (unat type_byte)))
       else framed (metric_body X))"

definition metric_ok :: "ads_metric_entry \<Rightarrow> bool" where
  "metric_ok e \<longleftrightarrow>
     str_ok (am_name e) \<and> str_ok (am_description e) \<and> str_ok (am_unit e) \<and>
     hm_wf (am_attributes e) \<and> length (am_attributes e) \<le> MAX_METRIC_ATTRIBUTES \<and>
     (if am_kind e = Histogram
      then length (am_histogram_bounds e) \<le> MAX_HISTOGRAM_BUCKETS \<and>
           length (am_histogram_counts e) = length (am_histogram_bounds e) + 1
      else am_histogram_bounds e = [] \<and> am_histogram_counts e = [] \<and>
           am_histogram_count e = 0 \<and> am_histogram_sum e = 0)"

definition histogram_ok :: "metric_kind \<Rightarrow> histogram_fields \<Rightarrow> bool" where
  "histogram_ok kind h \<longleftrightarrow>
     (if kind = Histogram
      then length (hf_bounds h) \<le> MAX_HISTOGRAM_BUCKETS \<and> length (hf_counts h) = length (hf_bounds h) + 1
      else h = no_histogram)"

lemma read_histogram_safe: "safe_reader Q read_histogram (histogram_ok Histogram)"
  unfolding read_histogram_def
  by (rule safe_intros safe_rbind [OF read_u64s_safe] | simp add: histogram_ok_def del: rloop.simps)+

lemma metric_histogram_safe:
  "safe_reader Q (if kind = Histogram then read_histogram else rret no_histogram) (histogram_ok kind)"
  using read_histogram_safe by (auto simp: histogram_ok_def intro!: safe_rret)

lemma metric_body_safe: "safe_reader (\<not> overflow_checks X) (metric_body X) metric_ok"
  unfolding metric_body_def
  by (rule safe_rbind [OF metric_histogram_safe] safe_intros typed_attributes_bind
      | clarsimp simp: metric_ok_def attrs_inv_def histogram_ok_def no_histogram_def)+

interpretation parse_metric: message_parser "\<not> overflow_checks X" "parse_metric_from_reader X" metric_ok for X
  unfolding parse_metric_from_reader_def by (rule framed_message_parser [OF metric_body_safe])

section \<open>Completed spans\<close>

definition span_event_item :: "ext \<Rightarrow> nat \<Rightarrow> ads_span_event list \<Rightarrow> ads_span_event list rd" where
  "span_event_item X i events =
     rbind (read_filetime X) (\<lambda>ev_timestamp.
     rbind read_string (\<lambda>ev_name.
     rbind read_u8 (\<lambda>ev_attr_count.
     rbind (guard_err (unat ev_attr_count > MAX_SPAN_ATTRIBUTES)
              (ParseError (''Span event attribute count '' @ show_nat (unat ev_attr_count) @
                '' exceeds maximum '' @ show_nat MAX_SPAN_ATTRIBUTES))) (\<lambda>_.
     rbind (rloop 0 (unat ev_attr_count) (typed_attribute X) []) (\<lambda>ev_attrs.
       rret (events @ [\<lparr>ase_timestamp = ev_timestamp, ase_name = ev_name, ase_attributes = ev_attrs\<rparr>]))))))"

definition span_body :: "ext \<Rightarrow> ads_span_entry rd" where
  "span_body X =
     rbind (read_bytes 16) (\<lambda>trace_id.
     rbind (read_bytes 8) (\<lambda>span_id.
     rbind (read_bytes 8) (\<lambda>parent_span_id.
     rbind read_u8 (\<lambda>kind_byte.
     rbind (rok_or (ParseError (''Invalid span kind: '' @ show_nat (unat kind_byte)))
              (span_kind_from_u8 kind_byte)) (\<lambda>kind.
     rbind read_u8 (\<lambda>status_byte.
     rbind (rok_or (ParseError (''Invalid span status: '' @ show_nat (unat status_byte)))
              (span_status_from_u8 status_byte)) (\<lambda>status_code.
     rbind (read_filetime X) (\<lambda>start_time.
     rbind (read_filetime X) (\<lambda>end_time.
     rbind read_u8 (\<lambda>task_index.
     rbind read_u32 (\<lambda>cycle_counter.
     rbind read_u8 (\<lambda>attr_count.
     rbind read_u8 (\<lambda>event_count.
     rbind (guard_err (unat attr_count > MAX_SPAN_ATTRIBUTES)
              (ParseError (''Span attribute count '' @ show_nat (unat attr_count) @
                '' exceeds maximum '' @ show_nat MAX_SPAN_ATTRIBUTES))) (\<lambda>_.
     rbind (guard_err (unat event_count > MAX_SPAN_EVENTS)
              (ParseError (''Span event count '' @ show_nat (unat event_count) @
                '' exceeds maximum '' @ show_nat MAX_SPAN_EVENTS))) (\<lambda>_.
     rbind read_string (\<lambda>name.
     rbind read_string (\<lambda>status_message.
     rbind (rloop 0 (unat attr_count) (typed_attribute X) []) (\<lambda>attributes.
     rbind (rloop 0 (unat event_count) (span_event_item X) []) (\<lambda>events.
       rret \<lparr>as_trace_id = trace_id, as_span_id = span_id, as_parent_span_id = parent_span_id,
             as_name = name, as_kind = kind, as_status_code = status_code,
             as_status_message = status_message, as_start_time = start_time,
             as_end_time = end_time, as_task_index = uint task_index,
             as_task_cycle_counter = cycle_counter, as_attributes = attributes,
             as_events = events\<rparr>)))))))))))))))))))"

definition parse_span_from_reader :: "ext \<Rightarrow> ads_span_entry rd" where
  "parse_span_from_reader X =
     rbind read_u8 (\<lambda>type_byte.
       if type_byte \<noteq> 5 then
         rfail (ParseError (''Invalid span type: '' @ show_nat (unat type_byte)))
       else framed (span_body X))"

definition span_events_ok :: "nat \<Rightarrow> ads_span_event list \<Rightarrow> bool" where
  "span_events_ok n evs \<longleftrightarrow> length evs = n \<and>
     list_all (\<lambda>e. str_ok (ase_name e) \<and> attrs_inv MAX_SPAN_ATTRIBUTES (ase_attributes e)) evs"

definition span_ok :: "ads_span_entry \<Rightarrow> bool" where
  "span_ok s \<longleftrightarrow>
     length (as_trace_id s) = 16 \<and> length (as_span_id s) = 8 \<and> length (as_parent_span_id s) = 8 \<and>
     str_ok (as_name s) \<and> str_ok (as_status_message s) \<and>
     attrs_inv MAX_SPAN_ATTRIBUTES (as_attributes s) \<and>
     (\<exists>n \<le> MAX_SPAN_EVENTS. span_events_ok n (as_events s))"

lemma attrs_inv_mono: "attrs_inv m a \<Longrightarrow> m \<le> n \<Longrightarrow> attrs_inv n a"
  by (simp add: attrs_inv_def)

lemma span_event_item_safe:
  "span_events_ok i evs \<Longrightarrow>
   safe_reader (\<not> overflow_checks X) (span_event_item X i evs) (span_events_ok (Suc i))"
  unfolding span_event_item_def
  by (rule safe_intros typed_attributes_bind
      | clarsimp simp: span_events_ok_def not_less elim!: attrs_inv_mono)+

lemma span_events_safe:
  "safe_reader (\<not> overflow_checks X) (rloop 0 n (span_event_item X) []) (span_events_ok n)"
proof -
  have "safe_reader (\<not> overflow_checks X) (rloop 0 n (span_event_item X) []) (span_events_ok (0 + n))"
    by (rule safe_rloop, erule span_event_item_safe) (simp add: span_events_ok_def)
  then show ?thesis by simp
qed

lemma span_body_safe: "safe_reader (\<not> overflow_checks X) (span_body X) span_ok"
  unfolding span_body_def
  by (rule safe_intros typed_attributes_bind safe_rbind [OF span_events_safe]
      | clarsimp simp: span_ok_def not_less
      | blast intro: attrs_inv_mono)+

interpretation parse_span: message_parser "\<not> overflow_checks X" "parse_span_from_reader X" span_ok for X
  unfolding parse_span_from_reader_def by (rule framed_message_parser [OF span_body_safe])

end
