(* ===== verification/Parse_All.thy ===== *)
theory Parse_All
  imports Messages
begin

text \<open>
  \<^verbatim>\<open>AdsParser::parse_all\<close> and \<^verbatim>\<open>AdsParser::parse\<close> of \<^verbatim>\<open>tc-otel-ads/src/parser.rs\<close>: the loop
  over the messages of one ADS write. One definition per arm of the dispatch on the message type;
  an arm continues the loop, leaves it with what was collected, returns an error, or panics. The
  loop is a recursive function whose measure is the number of unread bytes.
\<close>

section \<open>The message loop\<close>

record parse_result =
  pr_entries :: "ads_log_entry list"
  pr_registrations :: "registration_message list"
  pr_spans :: "ads_span_entry list"
  pr_metrics :: "ads_metric_entry list"
  pr_trace_events :: "trace_wire_event list"

definition empty_result :: parse_result where
  "empty_result = \<lparr>pr_entries = [], pr_registrations = [], pr_spans = [], pr_metrics = [],
     pr_trace_events = []\<rparr>"

datatype parse_step =
    Continue parse_result reader
  | Break parse_result
  | Return ads_error
  | StepPanic

definition push_entry :: "ads_log_entry \<Rightarrow> parse_result \<Rightarrow> parse_result" where
  "push_entry e acc = acc\<lparr>pr_entries := pr_entries acc @ [e]\<rparr>"

definition push_registration :: "registration_message \<Rightarrow> parse_result \<Rightarrow> parse_result" where
  "push_registration g acc = acc\<lparr>pr_registrations := pr_registrations acc @ [g]\<rparr>"

definition push_metric :: "ads_metric_entry \<Rightarrow> parse_result \<Rightarrow> parse_result" where
  "push_metric m acc = acc\<lparr>pr_metrics := pr_metrics acc @ [m]\<rparr>"

definition push_trace_event :: "trace_wire_event \<Rightarrow> parse_result \<Rightarrow> parse_result" where
  "push_trace_event ev acc = acc\<lparr>pr_trace_events := pr_trace_events acc @ [ev]\<rparr>"

lemmas push_defs = push_entry_def push_registration_def push_metric_def push_trace_event_def

definition arm_v1 :: "ext \<Rightarrow> parse_result \<Rightarrow> reader \<Rightarrow> parse_step" where
  "arm_v1 X acc r =
     (case parse_v1_from_reader X r of
        (Ok entry, r') \<Rightarrow> Continue (push_entry entry acc) r'
      | (Err e, r') \<Rightarrow>
          (if pr_entries acc = [] \<and> pr_registrations acc = [] \<and> pr_metrics acc = []
           then Return e else Break acc)
      | (Panic, r') \<Rightarrow> StepPanic)"

definition skippable_type :: "u8 \<Rightarrow> bool" where
  "skippable_type t \<longleftrightarrow> (1 \<le> t \<and> t \<le> 6) \<or> t = 0 \<or> t = 0xFF"

text \<open>
  After a malformed version 2 entry: the position behind it by its length field, if a message
  type the list allows stands there.
\<close>

definition v2_skip :: "reader \<Rightarrow> (unit, nat option) res" where
  "v2_skip r =
     (if remaining r \<ge> 3 then
        (case read_u16 (r\<lparr>rpos := rpos r + 1\<rparr>) of
           (Ok entry_len, _) \<Rightarrow>
             (let next_pos = rpos r + 3 + unat entry_len in
              if next_pos < length (rdata r) \<and> next_pos > rpos r then
                bind_res (index (rdata r) next_pos) (\<lambda>next_type.
                  if skippable_type next_type then Ok (Some next_pos) else Ok None)
              else Ok None)
         | (Err _, _) \<Rightarrow> Ok None
         | (Panic, _) \<Rightarrow> Panic)
      else Ok None)"

definition arm_v2 :: "ext \<Rightarrow> parse_result \<Rightarrow> reader \<Rightarrow> parse_step" where
  "arm_v2 X acc r =
     (let peek_len = min 40 (remaining r) in
      case (slice (rpos r) (rpos r + peek_len) (rdata r) :: (unit, u8 list) res) of
        Ok peek_bytes \<Rightarrow>
          (case parse_v2_from_reader X r of
             (Ok entry, r') \<Rightarrow> Continue (push_entry entry acc) r'
           | (Err e, r') \<Rightarrow>
               (case v2_skip (r'\<lparr>rpos := rpos r\<rparr>) of
                  Ok (Some next_pos) \<Rightarrow> Continue acc (r'\<lparr>rpos := next_pos\<rparr>)
                | Ok None \<Rightarrow>
                    (if pr_entries acc = [] \<and> pr_registrations acc = [] then Return e else Break acc)
                | Err _ \<Rightarrow> StepPanic
                | Panic \<Rightarrow> StepPanic)
           | (Panic, r') \<Rightarrow> StepPanic)
      | _ \<Rightarrow> StepPanic)"

definition arm_registration :: "parse_result \<Rightarrow> reader \<Rightarrow> parse_step" where
  "arm_registration acc r =
     (case parse_registration_from_reader r of
        (Ok reg, r') \<Rightarrow> Continue (push_registration reg acc) r'
      | (Err e, r') \<Rightarrow> Break acc
      | (Panic, r') \<Rightarrow> StepPanic)"

definition arm_metric :: "ext \<Rightarrow> parse_result \<Rightarrow> reader \<Rightarrow> parse_step" where
  "arm_metric X acc r =
     (case parse_metric_from_reader X r of
        (Ok metric, r') \<Rightarrow> Continue (push_metric metric acc) r'
      | (Err e, r') \<Rightarrow>
          (if pr_entries acc = [] \<and> pr_registrations acc = [] \<and> pr_metrics acc = []
           then Return e else Break acc)
      | (Panic, r') \<Rightarrow> StepPanic)"

definition arm_traced :: "ext \<Rightarrow> parse_result \<Rightarrow> reader \<Rightarrow> parse_step" where
  "arm_traced X acc r =
     (case parse_v2_traced_from_reader X r of
        (Ok entry, r') \<Rightarrow> Continue (push_entry entry acc) r'
      | (Err e, r') \<Rightarrow>
          (if pr_entries acc \<noteq> [] \<or> pr_registrations acc \<noteq> [] then Break acc
           else if remaining r' \<ge> 3 then
             (case read_u16 (r'\<lparr>rpos := rpos r + 1\<rparr>) of
                (Ok entry_len, r'') \<Rightarrow>
                  Continue acc (r''\<lparr>rpos := rpos r + 1 + 2 + unat entry_len\<rparr>)
              | (Err _, _) \<Rightarrow> Break acc
              | (Panic, _) \<Rightarrow> StepPanic)
           else Break acc)
      | (Panic, r') \<Rightarrow> StepPanic)"

definition arm_trace_event :: "parse_result \<Rightarrow> reader \<Rightarrow> parse_step" where
  "arm_trace_event acc r =
     (case parse_v2_trace_event_from_reader r of
        (Ok ev, r') \<Rightarrow> Continue (push_trace_event ev acc) r'
      | (Err e, r') \<Rightarrow>
          (if pr_entries acc = [] \<and> pr_registrations acc = [] \<and> pr_metrics acc = [] \<and>
              pr_trace_events acc = [] then Return e else Break acc)
      | (Panic, r') \<Rightarrow> StepPanic)"

definition parse_message :: "ext \<Rightarrow> parse_result \<Rightarrow> reader \<Rightarrow> parse_step" where
  "parse_message X acc r =
     (case peek r of
        None \<Rightarrow> Break acc
      | Some message_type \<Rightarrow>
          (if message_type = 0 \<or> message_type = 0xFF then Break acc
           else if message_type = 1 then arm_v1 X acc r
           else if message_type = 2 then arm_v2 X acc r
           else if message_type = 3 then arm_registration acc r
           else if message_type = 4 then arm_metric X acc r
           else if message_type = 9 then arm_traced X acc r
           else if 5 \<le> message_type \<and> message_type \<le> 8 then arm_trace_event acc r
           else Break acc))"

lemma read_u16_at:
  "rpos r + 2 \<le> length (rdata r) \<Longrightarrow>
   read_u16 r = (Ok (u16_at (rpos r) (rdata r)), r\<lparr>rpos := rpos r + 2\<rparr>)"
  by (simp add: read_u16_def rbind_def read_bytes_def remaining_def slice_def rret_def u16_at_def
      bytes_at_def)

lemma read_u16_cases:
  "read_u16 r = (Ok (u16_at (rpos r) (rdata r)), r\<lparr>rpos := rpos r + 2\<rparr>) \<or>
   (\<exists>e. read_u16 r = (Err e, r))"
  by (auto simp: read_u16_def rbind_def read_bytes_def remaining_def slice_def rret_def u16_at_def
      bytes_at_def split: if_splits)

lemma v2_skip_cases:
  "v2_skip r = Ok None \<or>
   (\<exists>p. v2_skip r = Ok (Some p) \<and> rpos r < p \<and> p < length (rdata r) \<and>
        skippable_type (rdata r ! p) \<and> p = rpos r + 3 + unat (u16_at (rpos r + 1) (rdata r)))"
  using read_u16_cases [of "r\<lparr>rpos := rpos r + 1\<rparr>"]
  by (auto simp: v2_skip_def Let_def index_def split: if_splits)

text \<open>
  What every arm guarantees: one that continues the loop leaves the buffer alone, consumes at
  least one byte and keeps the collected messages well formed; one that returns an error does so
  only while neither a log entry nor a registration was collected; a panic needs a build with
  overflow checks.
\<close>

definition result_ok :: "parse_result \<Rightarrow> bool" where
  "result_ok p \<longleftrightarrow>
     list_all log_ok (pr_entries p) \<and> list_all registration_ok (pr_registrations p) \<and>
     list_all metric_ok (pr_metrics p) \<and> list_all trace_event_ok (pr_trace_events p) \<and>
     pr_spans p = []"

definition extends :: "parse_result \<Rightarrow> parse_result \<Rightarrow> bool" where
  "extends acc acc' \<longleftrightarrow>
     (\<exists>es gs ms ts. pr_entries acc' = pr_entries acc @ es \<and>
        pr_registrations acc' = pr_registrations acc @ gs \<and> pr_metrics acc' = pr_metrics acc @ ms \<and>
        pr_trace_events acc' = pr_trace_events acc @ ts)"

lemma extends_refl [simp]: "extends acc acc"
  by (simp add: extends_def)

lemma extends_trans: "extends a b \<Longrightarrow> extends b c \<Longrightarrow> extends a c"
  by (auto simp: extends_def)

lemma extends_push [simp]:
  "extends acc (push_entry e acc)" "extends acc (push_registration g acc)"
  "extends acc (push_metric m acc)" "extends acc (push_trace_event ev acc)"
  by (simp_all add: extends_def push_defs)

lemma result_ok_push [simp]:
  "result_ok acc \<Longrightarrow> result_ok (push_entry e acc) = log_ok e"
  "result_ok acc \<Longrightarrow> result_ok (push_registration g acc) = registration_ok g"
  "result_ok acc \<Longrightarrow> result_ok (push_metric m acc) = metric_ok m"
  "result_ok acc \<Longrightarrow> result_ok (push_trace_event ev acc) = trace_event_ok ev"
  by (auto simp: result_ok_def push_defs)

fun good_step :: "bool \<Rightarrow> parse_result \<Rightarrow> reader \<Rightarrow> parse_step \<Rightarrow> bool" where
  "good_step Q acc r (Continue acc' r') \<longleftrightarrow>
     rdata r' = rdata r \<and> rpos r < rpos r' \<and> extends acc acc' \<and>
     (result_ok acc \<longrightarrow> result_ok acc')"
| "good_step Q acc r (Break acc') \<longleftrightarrow> acc' = acc"
| "good_step Q acc r (Return e) \<longleftrightarrow> pr_entries acc = [] \<and> pr_registrations acc = []"
| "good_step Q acc r StepPanic \<longleftrightarrow> \<not> Q"

lemma arm_good:
  assumes m: "message_parser Q m P" and r: "in_range r"
    and push: "\<And>x. P x \<Longrightarrow> result_ok acc \<Longrightarrow> result_ok (push x acc)"
    and grow: "\<And>x. extends acc (push x acc)"
    and err: "\<And>e r'. rdata r' = rdata r \<Longrightarrow> good_step Q acc r (k e r')"
  shows "good_step Q acc r (case m r of (Ok x, r') \<Rightarrow> Continue (push x acc) r'
           | (Err e, r') \<Rightarrow> k e r' | (Panic, r') \<Rightarrow> StepPanic)"
proof (cases "m r")
  case (Pair oc r')
  note facts = message_parser.keeps_data [OF m, of r] message_parser.no_panic [OF m, of r]
    message_parser.progress [OF m, of r] message_parser.result [OF m, of r]
  show ?thesis
    using facts r Pair push grow err by (cases oc) auto
qed

lemma v1_log_ok_log_ok: "v1_log_ok e \<Longrightarrow> log_ok e" and v2_log_ok_log_ok: "v2_log_ok e \<Longrightarrow> log_ok e"
  by (simp_all add: v1_log_ok_def v2_log_ok_def)

lemma arm_v1_good: "in_range r \<Longrightarrow> good_step (\<not> overflow_checks X) acc r (arm_v1 X acc r)"
  unfolding arm_v1_def
  by (rule arm_good [OF parse_v1.message_parser_axioms])
     (auto simp: v1_log_ok_log_ok)

lemma arm_v2_good: "in_range r \<Longrightarrow> good_step (\<not> overflow_checks X) acc r (arm_v2 X acc r)"
proof -
  assume r: "in_range r"
  have peek: "(slice (rpos r) (rpos r + min 40 (remaining r)) (rdata r) :: (unit, u8 list) res) =
      Ok (take (min 40 (remaining r)) (drop (rpos r) (rdata r)))"
    using r by (auto simp: slice_def remaining_def min_def)
  show ?thesis
    unfolding arm_v2_def Let_def peek res.case
  proof (rule arm_good [OF parse_v2.message_parser_axioms r])
    fix e and r' :: reader assume d: "rdata r' = rdata r"
    show "good_step (\<not> overflow_checks X) acc r
       (case v2_skip (r'\<lparr>rpos := rpos r\<rparr>) of
          Ok (Some next_pos) \<Rightarrow> Continue acc (r'\<lparr>rpos := next_pos\<rparr>)
        | Ok None \<Rightarrow>
            (if pr_entries acc = [] \<and> pr_registrations acc = [] then Return e else Break acc)
        | Err _ \<Rightarrow> StepPanic
        | Panic \<Rightarrow> StepPanic)"
      using v2_skip_cases [of "r'\<lparr>rpos := rpos r\<rparr>"] d by auto
  qed (auto simp: v2_log_ok_log_ok)
qed

lemma arm_registration_good: "in_range r \<Longrightarrow> good_step Q acc r (arm_registration acc r)"
  unfolding arm_registration_def
  by (rule arm_good [OF parse_registration.message_parser_axioms])
     auto

lemma arm_metric_good: "in_range r \<Longrightarrow> good_step (\<not> overflow_checks X) acc r (arm_metric X acc r)"
  unfolding arm_metric_def
  by (rule arm_good [OF parse_metric.message_parser_axioms])
     auto

lemma arm_traced_good: "in_range r \<Longrightarrow> good_step (\<not> overflow_checks X) acc r (arm_traced X acc r)"
proof -
  assume r: "in_range r"
  show ?thesis
    unfolding arm_traced_def
  proof (rule arm_good [OF parse_v2_traced.message_parser_axioms r])
    fix e and r' :: reader assume d: "rdata r' = rdata r"
    show "good_step (\<not> overflow_checks X) acc r
       (if pr_entries acc \<noteq> [] \<or> pr_registrations acc \<noteq> [] then Break acc
        else if remaining r' \<ge> 3 then
          (case read_u16 (r'\<lparr>rpos := rpos r + 1\<rparr>) of
             (Ok entry_len, r'') \<Rightarrow> Continue acc (r''\<lparr>rpos := rpos r + 1 + 2 + unat entry_len\<rparr>)
           | (Err _, _) \<Rightarrow> Break acc
           | (Panic, _) \<Rightarrow> StepPanic)
        else Break acc)"
      using read_u16_cases [of "r'\<lparr>rpos := rpos r + 1\<rparr>"] d by auto
  qed (auto simp: v2_log_ok_log_ok)
qed

lemma arm_trace_event_good: "in_range r \<Longrightarrow> good_step Q acc r (arm_trace_event acc r)"
  unfolding arm_trace_event_def
  by (rule arm_good [OF parse_trace_event.message_parser_axioms])
     auto

lemma parse_message_good: "good_step (\<not> overflow_checks X) acc r (parse_message X acc r)"
proof (cases "rpos r < length (rdata r)")
  case True
  then have "in_range r" by simp
  note arms = arm_v1_good [OF this] arm_v2_good [OF this] arm_registration_good [OF this]
    arm_metric_good [OF this] arm_traced_good [OF this] arm_trace_event_good [OF this]
  show ?thesis
    unfolding parse_message_def by (auto simp: arms split: option.split)
qed (simp add: parse_message_def peek_def)

function parse_loop :: "ext \<Rightarrow> parse_result \<Rightarrow> reader \<Rightarrow> parse_result ads_result" where
  "parse_loop X acc r =
     (if remaining r > 0 then
        (case parse_message X acc r of
           Continue acc' r' \<Rightarrow> parse_loop X acc' r'
         | Break acc' \<Rightarrow> Ok acc'
         | Return e \<Rightarrow> Err e
         | StepPanic \<Rightarrow> Panic)
      else Ok acc)"
  by auto

termination
proof (relation "measure (\<lambda>(X, acc, r). remaining r)", goal_cases)
  case (2 X acc r acc' r')
  then show ?case
    using parse_message_good [of X acc r] by (auto simp: remaining_def)
qed simp

declare parse_loop.simps [simp del]

definition size_error :: "u8 list \<Rightarrow> ads_error" where
  "size_error data =
     ParseError (''Message size '' @ show_nat (length data) @ '' exceeds maximum '' @
       show_nat MAX_MESSAGE_SIZE)"

definition parse_all :: "ext \<Rightarrow> u8 list \<Rightarrow> parse_result ads_result" where
  "parse_all X data =
     (if length data > MAX_MESSAGE_SIZE then Err (size_error data)
      else parse_loop X empty_result (bytes_reader_new data))"

definition parse :: "ext \<Rightarrow> u8 list \<Rightarrow> ads_log_entry ads_result" where
  "parse X data =
     (if length data > MAX_MESSAGE_SIZE then Err (size_error data)
      else fst (parse_v1_from_reader X (bytes_reader_new data)))"

lemma parse_loop_outcome:
  "(\<not> overflow_checks X \<longrightarrow> parse_loop X acc r \<noteq> Panic) \<and>
   (\<forall>res. parse_loop X acc r = Ok res \<longrightarrow> extends acc res \<and> (result_ok acc \<longrightarrow> result_ok res)) \<and>
   (\<forall>e. parse_loop X acc r = Err e \<longrightarrow> pr_entries acc = [] \<and> pr_registrations acc = [])"
proof (induction X acc r rule: parse_loop.induct)
  case (1 X acc r)
  note good = parse_message_good [of X acc r]
  show ?case
  proof (cases "0 < remaining r")
    case True
    show ?thesis
    proof (cases "parse_message X acc r")
      case (Continue acc' r')
      then have "extends acc acc'" "result_ok acc \<longrightarrow> result_ok acc'"
        using good by auto
      then show ?thesis
        using 1(1) [OF True Continue] Continue True
        by (auto simp: parse_loop.simps [of X acc r] extends_def)
    qed (use good True in \<open>auto simp: parse_loop.simps [of X acc r]\<close>)
  qed (simp add: parse_loop.simps [of X acc r])
qed

lemma result_ok_empty [simp]: "result_ok empty_result"
  by (simp add: result_ok_def empty_result_def)

lemma parse_all_cases:
  assumes "\<not> overflow_checks X"
  shows "(\<exists>res. parse_all X data = Ok res \<and> result_ok res) \<or> (\<exists>e. parse_all X data = Err e)"
proof -
  have "parse_all X data \<noteq> Panic"
    using assms parse_loop_outcome [of X empty_result "bytes_reader_new data"]
    by (auto simp: parse_all_def)
  then show ?thesis
    using parse_loop_outcome [of X empty_result "bytes_reader_new data"]
    by (cases "parse_all X data") (auto simp: parse_all_def split: if_splits)
qed

section \<open>Properties\<close>



text \<open>
  C3. Once a log entry or a registration has been decoded, nothing that follows in the buffer can
  turn the result into an error: the loop returns a result that still starts with everything
  collected so far.
\<close>

theorem parse_loop_keeps:
  assumes "\<not> overflow_checks X" "pr_entries acc \<noteq> [] \<or> pr_registrations acc \<noteq> []"
  shows "\<exists>res. parse_loop X acc r = Ok res \<and> extends acc res"
  using assms parse_loop_outcome [of X acc r] by (cases "parse_loop X acc r") auto

definition sample_registration :: registration_message where
  "sample_registration =
     \<lparr>rg_task_index = 1, rg_task_name = ''PlcTask'', rg_app_name = ''App'',
      rg_project_name = ''Line'', rg_online_change_count = 3, rg_app_port = 851\<rparr>"

theorem parse_loop_keeps_witness:
  "\<exists>res. parse_loop (unix_ext False) (push_registration sample_registration empty_result)
           (bytes_reader_new [5, 1, 2]) = Ok res \<and>
         extends (push_registration sample_registration empty_result) res"
  using parse_loop_keeps [of "unix_ext False" "push_registration sample_registration empty_result"]
  by (simp add: unix_ext_def push_registration_def)



end
