(* ===== verification/Wire.thy ===== *)
theory Wire
  imports Parse_All
begin

text \<open>
  The wire format of the messages as the PLC library writes them, and the proof that
  \<^verbatim>\<open>parse_all\<close> recovers from a buffer of such messages exactly what was written. Typed values are
  given by their type byte, their bytes and the value these bytes decode to; timestamps by the
  raw FILETIME and DC-time fields. Registrations and span events use the encoders of their
  parser's theory.
\<close>

section \<open>Typed values, arguments and context\<close>

record wire_value =
  wv_type :: u8
  wv_bytes :: "u8 list"
  wv_value :: json

definition wire_value_enc :: "wire_value \<Rightarrow> u8 list" where
  "wire_value_enc w = [wv_type w] @ wv_bytes w"

definition wire_value_ok :: "ext \<Rightarrow> wire_value \<Rightarrow> bool" where
  "wire_value_ok X w \<longleftrightarrow>
     reads (read_value_with_type X (remap_v2_type_id (uint (wv_type w)))) (wv_bytes w) (wv_value w)"

lemma reads_typed_value: "wire_value_ok X w \<Longrightarrow> reads (v2_typed_value X) (wire_value_enc w) (wv_value w)"
  unfolding v2_typed_value_def wire_value_enc_def wire_value_ok_def by (rule read_u8.reads_step) simp

text \<open>The scalar types: DINT, UDINT, LREAL, BOOL and STRING among others.\<close>

definition w_udint :: "u32 \<Rightarrow> wire_value" where
  "w_udint v = \<lparr>wv_type = 11, wv_bytes = u32_to_le v, wv_value = JInt (uint v)\<rparr>"

definition w_bool :: "bool \<Rightarrow> wire_value" where
  "w_bool b = \<lparr>wv_type = 13, wv_bytes = [if b then 1 else 0], wv_value = JBool b\<rparr>"

definition w_string :: "string \<Rightarrow> wire_value" where
  "w_string s = \<lparr>wv_type = 12, wv_bytes = string_enc s, wv_value = JString s\<rparr>"

lemma w_udint_ok: "wire_value_ok X (w_udint v)"
  by (simp add: wire_value_ok_def w_udint_def read_value_with_type_def value_arms_def
      remap_v2_type_id_def read_u32.reads_final reads_rret)

lemma w_bool_ok: "wire_value_ok X (w_bool b)"
  by (auto simp: wire_value_ok_def w_bool_def read_value_with_type_def value_arms_def
      remap_v2_type_id_def intro!: read_u8.reads_final reads_rret_eq)

lemma w_string_ok: "short_str s \<Longrightarrow> wire_value_ok X (w_string s)"
  by (simp add: wire_value_ok_def w_string_def read_value_with_type_def value_arms_def
      remap_v2_type_id_def read_string.reads_final reads_rret)

fun args_map :: "nat \<Rightarrow> arg_map \<Rightarrow> wire_value list \<Rightarrow> arg_map" where
  "args_map i a [] = a"
| "args_map i a (w # ws) = args_map (Suc i) (hm_insert (i + 1) (wv_value w) a) ws"

lemma reads_arguments:
  assumes "list_all (wire_value_ok X) ws" "hm_wf a" "length a \<le> i" "i + length ws \<le> MAX_ARGUMENTS"
  shows "reads (rloop i (length ws) (v2_argument X) a) (concat (map wire_value_enc ws)) (args_map i a ws)"
  using assms
proof (induction ws arbitrary: i a)
  case Nil
  then show ?case by (simp add: reads_rret)
next
  case (Cons w ws)
  let ?a = "hm_insert (i + 1) (wv_value w) a"
  have "\<not> length a \<ge> MAX_ARGUMENTS" using Cons.prems by simp
  then have "reads (v2_argument X i a) (wire_value_enc w) ?a"
    using Cons.prems unfolding v2_argument_def
    by (intro reads_if_False reads_rbind_last [OF reads_typed_value] reads_rret_eq) simp_all
  moreover have "reads (rloop (Suc i) (length ws) (v2_argument X) ?a) (concat (map wire_value_enc ws))
      (args_map (Suc i) ?a ws)"
    using Cons.prems hm.len_insert_le [of a "i + 1" "wv_value w"] by (intro Cons.IH) auto
  ultimately show ?case by (simp add: reads_rbind)
qed

record wire_scope =
  ws_scope :: u8
  ws_props :: "(string \<times> wire_value) list"

definition wire_prop_enc :: "string \<times> wire_value \<Rightarrow> u8 list" where
  "wire_prop_enc p = string_enc (fst p) @ wire_value_enc (snd p)"

definition wire_scope_enc :: "wire_scope \<Rightarrow> u8 list" where
  "wire_scope_enc s =
     [ws_scope s] @ [of_nat (length (ws_props s))] @ concat (map wire_prop_enc (ws_props s))"

definition wire_prop_ok :: "ext \<Rightarrow> string \<times> wire_value \<Rightarrow> bool" where
  "wire_prop_ok X p \<longleftrightarrow> short_str (fst p) \<and> wire_value_ok X (snd p)"

definition wire_scope_ok :: "ext \<Rightarrow> wire_scope \<Rightarrow> bool" where
  "wire_scope_ok X s \<longleftrightarrow> length (ws_props s) < 256 \<and> list_all (wire_prop_ok X) (ws_props s)"

definition insert_prop :: "u8 \<Rightarrow> string \<times> wire_value \<Rightarrow> attrs \<times> nat \<Rightarrow> attrs \<times> nat" where
  "insert_prop sc p st = (hm_insert (scope_key sc (fst p)) (wv_value (snd p)) (fst st), snd st + 1)"

definition insert_scope :: "wire_scope \<Rightarrow> attrs \<times> nat \<Rightarrow> attrs \<times> nat" where
  "insert_scope s st = fold (insert_prop (ws_scope s)) (ws_props s) st"

lemma snd_insert_scope: "snd (insert_scope s st) = snd st + length (ws_props s)"
proof -
  have "snd (fold (insert_prop sc) ps st) = snd st + length ps" for sc ps
    by (induction ps arbitrary: st) (auto simp: insert_prop_def)
  then show ?thesis by (simp add: insert_scope_def)
qed

lemma reads_props:
  "list_all (wire_prop_ok X) ps \<Longrightarrow>
   reads (rloop i (length ps) (v2_property X sc) st) (concat (map wire_prop_enc ps))
     (fold (insert_prop sc) ps st)"
proof (induction ps arbitrary: i st)
  case Nil
  then show ?case by (simp add: reads_rret)
next
  case (Cons p ps)
  have "reads (v2_property X sc i st) (wire_prop_enc p) (insert_prop sc p st)"
    using Cons.prems unfolding v2_property_def wire_prop_enc_def insert_prop_def
    by (intro read_string.reads_step reads_rbind_last [OF reads_typed_value] reads_rret)
       (simp_all add: wire_prop_ok_def)
  moreover have "reads (rloop (Suc i) (length ps) (v2_property X sc) (insert_prop sc p st))
      (concat (map wire_prop_enc ps)) (fold (insert_prop sc) ps (insert_prop sc p st))"
    using Cons.prems by (intro Cons.IH) simp
  ultimately show ?case by (simp add: reads_rbind)
qed

lemma reads_scope:
  assumes "wire_scope_ok X s" "snd st < MAX_CONTEXT_VARS"
  shows "reads (v2_scope X i st) (wire_scope_enc s) (insert_scope s st)"
proof -
  have "unat (of_nat (length (ws_props s)) :: u8) = length (ws_props s)"
    using assms by (simp add: wire_scope_ok_def unat_of_nat)
  moreover have "reads (rloop 0 (length (ws_props s)) (v2_property X (ws_scope s)) st)
      (concat (map wire_prop_enc (ws_props s))) (insert_scope s st)"
    using assms reads_props by (simp add: insert_scope_def wire_scope_ok_def)
  ultimately show ?thesis
    using assms(2) unfolding v2_scope_def wire_scope_enc_def
    by - (rule reads_intros | simp)+
qed

lemma reads_context:
  assumes "list_all (wire_scope_ok X) ss"
    and "snd st + sum_list (map (length \<circ> ws_props) ss) < MAX_CONTEXT_VARS"
  shows "reads (rloop i (length ss) (v2_scope X) st) (concat (map wire_scope_enc ss))
           (fold insert_scope ss st)"
  using assms
proof (induction ss arbitrary: i st)
  case Nil
  then show ?case by (simp add: reads_rret)
next
  case (Cons s ss)
  have "reads (v2_scope X i st) (wire_scope_enc s) (insert_scope s st)"
    using Cons.prems by (intro reads_scope) simp_all
  moreover have "reads (rloop (Suc i) (length ss) (v2_scope X) (insert_scope s st))
      (concat (map wire_scope_enc ss)) (fold insert_scope ss (insert_scope s st))"
    using Cons.prems by (intro Cons.IH) (simp_all add: snd_insert_scope)
  ultimately show ?case by (simp add: reads_rbind)
qed

section \<open>Log entries\<close>

record wire_log =
  wl_level :: log_level
  wl_filetime :: u64
  wl_plc_timestamp :: datetime
  wl_dc_ns :: int
  wl_clock_timestamp :: datetime
  wl_task_index :: u8
  wl_cycle_counter :: u32
  wl_message :: string
  wl_logger :: string
  wl_args :: "wire_value list"
  wl_scopes :: "wire_scope list"

definition wire_log_body :: "wire_log \<Rightarrow> u8 list" where
  "wire_log_body w =
     [log_level_as_u8 (wl_level w)] @ u64_to_le (wl_filetime w) @ i64_to_le (wl_dc_ns w) @
     [wl_task_index w] @ u32_to_le (wl_cycle_counter w) @ [of_nat (length (wl_args w))] @
     [of_nat (length (wl_scopes w))] @ string_enc (wl_message w) @ string_enc (wl_logger w) @
     concat (map wire_value_enc (wl_args w)) @ concat (map wire_scope_enc (wl_scopes w))"

text \<open>Both time fields are past their epoch and denote the timestamps of the record.\<close>

definition wire_times_ok :: "ext \<Rightarrow> wire_log \<Rightarrow> bool" where
  "wire_times_ok X w \<longleftrightarrow>
     FILETIME_EPOCH_DIFF \<le> unat (wl_filetime w) \<and>
     from_timestamp X (int ((unat (wl_filetime w) - FILETIME_EPOCH_DIFF) div 10000000))
       ((unat (wl_filetime w) - FILETIME_EPOCH_DIFF) mod 10000000 * 100) = Some (wl_plc_timestamp w) \<and>
     0 < wl_dc_ns w \<and> i64_range (wl_dc_ns w) \<and>
     from_timestamp X (UNIX_TO_DC_EPOCH_SECS + wl_dc_ns w div 1000000000)
       (nat (wl_dc_ns w mod 1000000000)) = Some (wl_clock_timestamp w)"

definition wire_log_ok :: "ext \<Rightarrow> wire_log \<Rightarrow> bool" where
  "wire_log_ok X w \<longleftrightarrow>
     wire_times_ok X w \<and> short_str (wl_message w) \<and> short_str (wl_logger w) \<and>
     length (wl_args w) \<le> MAX_ARGUMENTS \<and> list_all (wire_value_ok X) (wl_args w) \<and>
     length (wl_scopes w) < 256 \<and> list_all (wire_scope_ok X) (wl_scopes w) \<and>
     sum_list (map (length \<circ> ws_props) (wl_scopes w)) < MAX_CONTEXT_VARS \<and>
     length (wire_log_body w) + 24 < 65536"

definition wire_log_entry :: "u8 list \<Rightarrow> u8 list \<Rightarrow> wire_log \<Rightarrow> ads_log_entry" where
  "wire_log_entry trace_id span_id w =
     \<lparr>al_version = V2, al_message = wl_message w, al_logger = wl_logger w, al_level = wl_level w,
      al_plc_timestamp = wl_plc_timestamp w, al_clock_timestamp = wl_clock_timestamp w,
      al_task_index = uint (wl_task_index w), al_task_name = '''',
      al_task_cycle_counter = wl_cycle_counter w, al_app_name = '''', al_project_name = '''',
      al_online_change_count = 0, al_trace_id = trace_id, al_span_id = span_id,
      al_arguments = args_map 0 [] (wl_args w),
      al_context = fst (fold insert_scope (wl_scopes w) ([], 0))\<rparr>"

lemma reads_filetime:
  "FILETIME_EPOCH_DIFF \<le> unat ft \<Longrightarrow>
   from_timestamp X (int ((unat ft - FILETIME_EPOCH_DIFF) div 10000000))
     ((unat ft - FILETIME_EPOCH_DIFF) mod 10000000 * 100) = Some t \<Longrightarrow>
   reads (read_filetime X) (u64_to_le ft) t"
  unfolding read_filetime_def Let_def
  by (rule read_u64.reads_final) (auto intro!: reads_if_False reads_rok_or)

lemma reads_dc_task_time:
  "0 < ns \<Longrightarrow> i64_range ns \<Longrightarrow>
   from_timestamp X (UNIX_TO_DC_EPOCH_SECS + ns div 1000000000) (nat (ns mod 1000000000)) = Some t \<Longrightarrow>
   reads (read_dc_task_time X) (i64_to_le ns) t"
  unfolding read_dc_task_time_def Let_def
  by (rule read_i64.reads_final) (auto intro!: reads_if_False reads_rok_or)

lemma reads_v2_body:
  assumes "wire_log_ok X w"
  shows "reads (v2_body X trace_id span_id) (wire_log_body w) (wire_log_entry trace_id span_id w)"
proof -
  have t: "reads (read_filetime X) (u64_to_le (wl_filetime w)) (wl_plc_timestamp w)"
    "reads (read_dc_task_time X) (i64_to_le (wl_dc_ns w)) (wl_clock_timestamp w)"
    using assms by (auto simp: wire_log_ok_def wire_times_ok_def intro: reads_filetime reads_dc_task_time)
  have a: "reads (rloop 0 (unat (of_nat (length (wl_args w)) :: u8)) (v2_argument X) [])
      (concat (map wire_value_enc (wl_args w))) (args_map 0 [] (wl_args w))"
    using assms reads_arguments [of X "wl_args w" "[]" 0]
    by (simp add: wire_log_ok_def unat_of_nat MAX_ARGUMENTS_def)
  have c: "reads (rloop 0 (unat (of_nat (length (wl_scopes w)) :: u8)) (v2_scope X) ([], 0))
      (concat (map wire_scope_enc (wl_scopes w))) (fold insert_scope (wl_scopes w) ([], 0))"
    using assms reads_context [of X "wl_scopes w" "([], 0)" 0]
    by (simp add: wire_log_ok_def unat_of_nat)
  have "short_str (wl_message w)" "short_str (wl_logger w)"
    using assms by (simp_all add: wire_log_ok_def)
  then show ?thesis
    unfolding v2_body_def wire_log_body_def
    by - (rule read_u8.reads_step read_u32.reads_step read_string.reads_step TrueI
        reads_rbind_Nil [OF reads_rok_or] log_level.from_as reads_rbind [OF t(1)] reads_rbind [OF t(2)]
        reads_rbind [OF a] reads_rbind_last [OF c]
      | assumption
      | simp add: wire_log_entry_def reads_rret split: prod.split)+
qed

lemma reads_framed:
  assumes body: "reads body bs x" and len: "length bs < 65536"
  shows "reads (framed body) (u16_to_le (of_nat (length bs)) @ bs) x"
proof -
  have "framed body r = (Ok x, r\<lparr>rpos := rpos r + length (u16_to_le (of_nat (length bs)) @ bs)\<rparr>)"
    if r: "in_range r" "drop (rpos r) (rdata r) = (u16_to_le (of_nat (length bs)) @ bs) @ rest" for r rest
  proof -
    let ?r = "r\<lparr>rpos := rpos r + 2\<rparr>"
    have u: "unat (of_nat (length bs) :: u16) = length bs"
      using len by (simp add: unat_of_nat)
    have 1: "read_u16 r = (Ok (of_nat (length bs)), ?r)"
      using readsD [OF read_u16.reads_enc, of r "of_nat (length bs)" "bs @ rest"] r by simp
    have "drop 2 (drop (rpos r) (rdata r)) = bs @ rest"
      by (simp add: r(2))
    then have "drop (rpos ?r) (rdata ?r) = bs @ rest"
      by (simp add: add.commute)
    moreover have "in_range ?r"
      using arg_cong [OF r(2), of length] r(1) by simp
    ultimately have "body ?r = (Ok x, ?r\<lparr>rpos := rpos ?r + length bs\<rparr>)"
      by (intro readsD [OF body])
    then show ?thesis
      by (simp add: framed_def rbind_def 1 get_pos_def set_pos_def rret_def u)
  qed
  then show ?thesis by (auto simp: reads_def)
qed

section \<open>Buffers of messages\<close>

datatype wire_msg =
    WLog wire_log
  | WTraced "u8 list" "u8 list" wire_log
  | WReg registration_message
  | WEvent trace_wire_event

fun wire_msg_enc :: "wire_msg \<Rightarrow> u8 list" where
  "wire_msg_enc (WLog w) =
     [2] @ u16_to_le (of_nat (length (wire_log_body w))) @ wire_log_body w"
| "wire_msg_enc (WTraced t s w) =
     [9] @ u16_to_le (of_nat (length (t @ s @ wire_log_body w))) @ t @ s @ wire_log_body w"
| "wire_msg_enc (WReg g) = registration_enc g"
| "wire_msg_enc (WEvent ev) = trace_event_enc ev"

fun wire_msg_ok :: "ext \<Rightarrow> wire_msg \<Rightarrow> bool" where
  "wire_msg_ok X (WLog w) = wire_log_ok X w"
| "wire_msg_ok X (WTraced t s w) = (length t = 16 \<and> length s = 8 \<and> wire_log_ok X w)"
| "wire_msg_ok X (WReg g) = registration_short g"
| "wire_msg_ok X (WEvent ev) = trace_event_ok ev"

fun wire_push :: "wire_msg \<Rightarrow> parse_result \<Rightarrow> parse_result" where
  "wire_push (WLog w) = push_entry (wire_log_entry no_trace no_span w)"
| "wire_push (WTraced t s w) = push_entry (wire_log_entry t s w)"
| "wire_push (WReg g) = push_registration g"
| "wire_push (WEvent ev) = push_trace_event ev"

lemma reads_parse_v2:
  assumes "wire_log_ok X w"
  shows "reads (parse_v2_from_reader X) (wire_msg_enc (WLog w)) (wire_log_entry no_trace no_span w)"
proof -
  have "reads (framed (v2_body X no_trace no_span))
      (u16_to_le (of_nat (length (wire_log_body w))) @ wire_log_body w) (wire_log_entry no_trace no_span w)"
    using assms by (intro reads_framed reads_v2_body) (simp_all add: wire_log_ok_def)
  then show ?thesis
    unfolding parse_v2_from_reader_def wire_msg_enc.simps
    by (intro read_u8.reads_step) simp_all
qed

lemma reads_parse_v2_traced:
  assumes "wire_log_ok X w" "length t = 16" "length s = 8"
  shows "reads (parse_v2_traced_from_reader X) (wire_msg_enc (WTraced t s w)) (wire_log_entry t s w)"
proof -
  have "reads (traced_body X) (t @ s @ wire_log_body w) (wire_log_entry t s w)"
    unfolding traced_body_def
    using assms by (intro reads_rbind [OF reads_bytes] reads_v2_body) simp_all
  then have "reads (framed (traced_body X))
      (u16_to_le (of_nat (length (t @ s @ wire_log_body w))) @ t @ s @ wire_log_body w)
      (wire_log_entry t s w)"
    using assms by (intro reads_framed) (simp_all add: wire_log_ok_def)
  then show ?thesis
    unfolding parse_v2_traced_from_reader_def wire_msg_enc.simps
    by (intro read_u8.reads_step) simp_all
qed

lemma wire_msg_type:
  "\<exists>b bs. wire_msg_enc m = b # bs \<and>
     b = (case m of WLog _ \<Rightarrow> 2 | WTraced _ _ _ \<Rightarrow> 9 | WReg _ \<Rightarrow> 3
          | WEvent (Begin _) \<Rightarrow> 5 | WEvent (Attr _) \<Rightarrow> 6 | WEvent (Event _) \<Rightarrow> 7 | WEvent (End _) \<Rightarrow> 8)"
  by (cases m) (auto simp: registration_enc_def event_header_def split: trace_wire_event.split)

lemma parse_message_wire:
  assumes ok: "wire_msg_ok X m" and r: "in_range r"
    and d: "drop (rpos r) (rdata r) = wire_msg_enc m @ rest"
  shows "parse_message X acc r = Continue (wire_push m acc) (r\<lparr>rpos := rpos r + length (wire_msg_enc m)\<rparr>)"
proof -
  obtain b bs where b: "wire_msg_enc m = b # bs"
    "b = (case m of WLog _ \<Rightarrow> 2 | WTraced _ _ _ \<Rightarrow> 9 | WReg _ \<Rightarrow> 3
          | WEvent (Begin _) \<Rightarrow> 5 | WEvent (Attr _) \<Rightarrow> 6 | WEvent (Event _) \<Rightarrow> 7 | WEvent (End _) \<Rightarrow> 8)"
    using wire_msg_type by blast
  have pos: "rpos r < length (rdata r)"
    using arg_cong [OF d, of length] r b by simp
  moreover have "rdata r ! rpos r = b"
    using d b pos by (metis append_Cons hd_drop_conv_nth list.sel(1))
  ultimately have peek: "peek r = Some b" by (simp add: peek_def)
  show ?thesis
  proof (cases m)
    case (WLog w)
    have "parse_v2_from_reader X r =
        (Ok (wire_log_entry no_trace no_span w), r\<lparr>rpos := rpos r + length (wire_msg_enc m)\<rparr>)"
      using readsD [OF reads_parse_v2 r] ok d WLog by simp
    moreover have "(slice (rpos r) (rpos r + min 40 (remaining r)) (rdata r) :: (unit, u8 list) res) =
        Ok (take (min 40 (remaining r)) (drop (rpos r) (rdata r)))"
      using r by (auto simp: slice_def remaining_def min_def)
    ultimately show ?thesis
      using peek b(2) WLog by (simp add: parse_message_def arm_v2_def Let_def)
  next
    case (WTraced t s w)
    have "parse_v2_traced_from_reader X r =
        (Ok (wire_log_entry t s w), r\<lparr>rpos := rpos r + length (wire_msg_enc m)\<rparr>)"
      using readsD [OF reads_parse_v2_traced r] ok d WTraced by simp
    then show ?thesis
      using peek b(2) WTraced by (simp add: parse_message_def arm_traced_def)
  next
    case (WReg g)
    have "parse_registration_from_reader r = (Ok g, r\<lparr>rpos := rpos r + length (wire_msg_enc m)\<rparr>)"
      using readsD [OF registration.reads_enc r] ok d WReg by simp
    then show ?thesis
      using peek b(2) WReg by (simp add: parse_message_def arm_registration_def)
  next
    case (WEvent ev)
    have "parse_v2_trace_event_from_reader r = (Ok ev, r\<lparr>rpos := rpos r + length (wire_msg_enc m)\<rparr>)"
      using readsD [OF trace_event.reads_enc r] ok d WEvent by simp
    then show ?thesis
      using peek b(2) WEvent
      by (cases ev) (simp_all add: parse_message_def arm_trace_event_def)
  qed
qed

definition end_of_messages :: "u8 list \<Rightarrow> bool" where
  "end_of_messages pad \<longleftrightarrow> pad = [] \<or> hd pad = 0 \<or> hd pad = 0xFF"

lemma parse_loop_wire:
  assumes "list_all (wire_msg_ok X) ms" "end_of_messages pad" "in_range r"
    and "drop (rpos r) (rdata r) = concat (map wire_msg_enc ms) @ pad"
  shows "parse_loop X acc r = Ok (fold wire_push ms acc)"
  using assms
proof (induction ms arbitrary: acc r)
  case Nil
  show ?case
  proof (cases "remaining r > 0")
    case True
    then have "pad \<noteq> []" using Nil.prems by (auto simp: remaining_def)
    moreover have "peek r = Some (hd pad)"
      using True Nil.prems by (auto simp: peek_def remaining_def hd_drop_conv_nth [symmetric])
    ultimately show ?thesis
      using True Nil.prems(2) by (auto simp: parse_loop.simps parse_message_def end_of_messages_def)
  qed (simp add: parse_loop.simps)
next
  case (Cons m ms)
  let ?r = "r\<lparr>rpos := rpos r + length (wire_msg_enc m)\<rparr>"
  have d: "drop (rpos r) (rdata r) = wire_msg_enc m @ concat (map wire_msg_enc ms) @ pad"
    using Cons.prems by simp
  have step: "parse_message X acc r = Continue (wire_push m acc) ?r"
    using parse_message_wire [OF _ Cons.prems(3) d] Cons.prems(1) by simp
  have "drop (length (wire_msg_enc m)) (drop (rpos r) (rdata r)) = concat (map wire_msg_enc ms) @ pad"
    by (simp add: d)
  then have "drop (rpos ?r) (rdata ?r) = concat (map wire_msg_enc ms) @ pad"
    by (simp add: add.commute)
  moreover have "in_range ?r" "remaining r > 0"
    using arg_cong [OF d, of length] Cons.prems(3) wire_msg_type [of m] by (auto simp: remaining_def)
  ultimately have "parse_loop X (wire_push m acc) ?r = Ok (fold wire_push ms (wire_push m acc))"
    using Cons.prems by (intro Cons.IH) simp_all
  then show ?case
    using step \<open>remaining r > 0\<close> by (simp add: parse_loop.simps [of X acc r])
qed

lemma parse_all_messages:
  assumes "list_all (wire_msg_ok X) ms" "end_of_messages pad"
    and "length (concat (map wire_msg_enc ms) @ pad) \<le> MAX_MESSAGE_SIZE"
  shows "parse_all X (concat (map wire_msg_enc ms) @ pad) = Ok (fold wire_push ms empty_result)"
  using assms parse_loop_wire [of X ms pad "bytes_reader_new (concat (map wire_msg_enc ms) @ pad)"]
  by (auto simp: parse_all_def bytes_reader_new_def)

section \<open>Properties\<close>

text \<open>
  C1. Decoding inverts the wire format: a buffer that holds any sequence of version 2 log entries,
  traced log entries, registrations and span events, followed by nothing, zero padding or the end
  marker, parses to exactly these messages, each list in the order of the buffer, and no
  message is dropped, duplicated or altered.
\<close>

theorem parse_all_wire:
  assumes "list_all (wire_msg_ok X) ms" "end_of_messages pad"
    and "length (concat (map wire_msg_enc ms) @ pad) \<le> MAX_MESSAGE_SIZE"
  shows "parse_all X (concat (map wire_msg_enc ms) @ pad) = Ok (fold wire_push ms empty_result)"
  using assms by (rule parse_all_messages)

definition sample_log :: wire_log where
  "sample_log =
     \<lparr>wl_level = LWarn, wl_filetime = 116444736010000000, wl_plc_timestamp = DateTime 1 0,
      wl_dc_ns = 5, wl_clock_timestamp = DateTime 946684800 5, wl_task_index = 1,
      wl_cycle_counter = 77, wl_message = ''ready {0}'', wl_logger = ''Axis'',
      wl_args = [w_udint 42, w_bool True],
      wl_scopes = [\<lparr>ws_scope = 1, ws_props = [(''x'', w_bool False)]\<rparr>]\<rparr>"

definition sample_span_end :: span_end where
  "sample_span_end =
     \<lparr>se_span_id = [1, 2, 3, 4, 5, 6, 7, 8], se_task_index = 1, se_flags = 0, se_dc_time = 9,
      se_status = 1, se_message = ''done''\<rparr>"

lemma str_ok_ascii: "list_all (\<lambda>c. of_char c < (128 :: nat)) s \<Longrightarrow> str_ok s"
  unfolding str_ok_def
  by (rule utf8_valid_ascii)
     (simp add: bytes_of_str_def list_all_iff word_less_nat_alt unat_of_nat)

lemma wire_value_len:
  "length (wire_value_enc (w_udint v)) = 5" "length (wire_value_enc (w_bool b)) = 2"
  by (simp_all add: wire_value_enc_def w_udint_def w_bool_def)

lemma sample_log_ok: "wire_log_ok (unix_ext c) sample_log"
  by (simp add: wire_log_ok_def sample_log_def wire_times_ok_def FILETIME_EPOCH_DIFF_def
      unix_ext_def i64_range_def UNIX_TO_DC_EPOCH_SECS_def short_str_def str_ok_ascii parser_limits
      w_udint_ok w_bool_ok wire_scope_ok_def wire_prop_ok_def wire_log_body_def string_enc_def
      wire_value_len wire_scope_enc_def wire_prop_enc_def)

theorem parse_all_wire_witness:
  "parse_all (unix_ext False)
     (concat (map wire_msg_enc [WReg sample_registration, WLog sample_log, WEvent (End sample_span_end)])
      @ [0, 0]) =
   Ok (fold wire_push [WReg sample_registration, WLog sample_log, WEvent (End sample_span_end)] empty_result)"
proof (rule parse_all_wire)
  show "list_all (wire_msg_ok (unix_ext False))
      [WReg sample_registration, WLog sample_log, WEvent (End sample_span_end)]"
    by (simp add: sample_log_ok sample_registration_def registration_short_def short_str_def
        str_ok_ascii sample_span_end_def bounded_str_def i64_range_def)
  show "end_of_messages [0, 0]" by (simp add: end_of_messages_def)
  have "length (wire_log_body sample_log) < 65536"
    using sample_log_ok [of False] by (simp add: wire_log_ok_def)
  then show "length (concat (map wire_msg_enc
      [WReg sample_registration, WLog sample_log, WEvent (End sample_span_end)]) @ [0, 0])
      \<le> MAX_MESSAGE_SIZE"
    by (simp add: registration_enc_def string_enc_def sample_registration_def event_header_def
        sample_span_end_def MAX_MESSAGE_SIZE_def)
qed

text \<open>
  C4. The length field of a version 2 log entry is authoritative: a parsed entry ends three bytes
  plus the announced length behind its start, whatever its body consumed, and its arguments are
  numbered from 1 without gaps, at most 32 of them.
\<close>

theorem v2_entry_boundary:
  assumes "parse_v2_from_reader X r = (Ok e, r')"
  shows "rpos r' = rpos r + 3 + unat (u16_at (rpos r + 1) (rdata r)) \<and> v2_log_ok e"
proof -
  have "safe_reader (\<not> overflow_checks X) (v2_body X no_trace no_span)
          (\<lambda>e. v2_log_ok e \<and> al_trace_id e = no_trace \<and> al_span_id e = no_span)"
    by (rule v2_body_safe) simp_all
  then show ?thesis
    using assms framed_Ok [of "v2_body X no_trace no_span" "r\<lparr>rpos := Suc (rpos r)\<rparr>" e r']
    by (auto simp: parse_v2_from_reader_def rbind_read_u8_Ok rfail_def split: if_splits)
qed

theorem v2_entry_boundary_witness:
  "\<exists>e r'. parse_v2_from_reader (unix_ext False) (bytes_reader_new (wire_msg_enc (WLog sample_log))) = (Ok e, r') \<and>
     rpos r' = 3 + unat (u16_at 1 (wire_msg_enc (WLog sample_log))) \<and> v2_log_ok e"
proof -
  obtain e r' where
    p: "parse_v2_from_reader (unix_ext False) (bytes_reader_new (wire_msg_enc (WLog sample_log))) = (Ok e, r')"
    using readsD [OF reads_parse_v2 [OF sample_log_ok],
        of "bytes_reader_new (wire_msg_enc (WLog sample_log))" "[]" False]
    by (auto simp: bytes_reader_new_def simp del: wire_msg_enc.simps)
  from v2_entry_boundary [OF p] p show ?thesis
    by (auto simp: bytes_reader_new_def simp del: wire_msg_enc.simps)
qed

text \<open>
  C5. Streaming span events: whatever event the parser accepts obeys the limits of the protocol
  (identifiers of 8 and 16 bytes, names and messages of at most 127 bytes, at most four event
  attributes with keys of at most 31 bytes, optional fields present exactly when their flag is
  set), and the encoding of that event is parsed back to the same event, consuming exactly its
  own bytes.
\<close>

theorem trace_event_reencode:
  assumes "parse_v2_trace_event_from_reader r = (Ok ev, r')"
  shows "trace_event_ok ev \<and>
         parse_v2_trace_event_from_reader (bytes_reader_new (trace_event_enc ev @ rest)) =
           (Ok ev, (bytes_reader_new (trace_event_enc ev @ rest))\<lparr>rpos := length (trace_event_enc ev)\<rparr>)"
proof -
  have ok: "trace_event_ok ev"
    using assms parse_trace_event.result [of r ev] by simp
  then show ?thesis
    using trace_event.read_enc [of ev "[]" rest 0] by (simp add: bytes_reader_new_def)
qed

theorem trace_event_reencode_witness:
  "\<exists>r'. parse_v2_trace_event_from_reader (bytes_reader_new (trace_event_enc (End sample_span_end))) =
          (Ok (End sample_span_end), r') \<and> trace_event_ok (End sample_span_end)"
proof -
  have "trace_event_ok (End sample_span_end)"
    by (simp add: sample_span_end_def bounded_str_def str_ok_ascii i64_range_def)
  from trace_event.read_enc [OF this, of "[]" "[]" 0] obtain r' where
    p: "parse_v2_trace_event_from_reader (bytes_reader_new (trace_event_enc (End sample_span_end))) =
          (Ok (End sample_span_end), r')"
    by (simp add: bytes_reader_new_def)
  from trace_event_reencode [OF p] p show ?thesis by blast
qed

end
