(* ===== verification/Diagnostics.thy ===== *)
theory Diagnostics
  imports Ams
begin

text \<open>
  Runtime diagnostics, \<^verbatim>\<open>tc-otel-ads/src/diagnostics.rs\<close>: the events of the push and poll paths
  and the decoder of observed request and response frames. A decoder that returns
  \<^verbatim>\<open>Option\<close> has the outcome type \<open>(unit, 'a) res\<close>, with \<open>Err ()\<close> for \<^verbatim>\<open>None\<close>, so that a slice out of
  range stays visible. Struct-like variants carry a record each.
\<close>

section \<open>Constants\<close>

definition ADS_STATE_RESPONSE_MASK :: u16 where "ADS_STATE_RESPONSE_MASK = 1"
definition IG_RT_SYSTEM :: u32 where "IG_RT_SYSTEM = 0xF200"
definition IG_RT_USAGE :: u32 where "IG_RT_USAGE = 1"
definition IO_EXCEED_COUNTER :: u32 where "IO_EXCEED_COUNTER = 0x100"
definition IO_TASK_STATS :: u32 where "IO_TASK_STATS = 0"
definition IO_RT_USAGE :: u32 where "IO_RT_USAGE = 0xF"
definition IG_PUSH_DIAG :: u32 where "IG_PUSH_DIAG = 0x4D424301"
definition IG_PUSH_CONFIG :: u32 where "IG_PUSH_CONFIG = 0x4D424302"
definition IO_PUSH_BATCH :: u32 where "IO_PUSH_BATCH = 0"
definition IO_PUSH_METRIC_BATCH :: u32 where "IO_PUSH_METRIC_BATCH = 1"
definition IO_PUSH_METRIC_AGG :: u32 where "IO_PUSH_METRIC_AGG = 2"
definition PUSH_WIRE_VERSION :: u8 where "PUSH_WIRE_VERSION = 2"
definition PUSH_BATCH_EVENT_TYPE :: u8 where "PUSH_BATCH_EVENT_TYPE = 10"
definition PUSH_METRIC_EVENT_TYPE :: u8 where "PUSH_METRIC_EVENT_TYPE = 20"
definition PUSH_METRIC_AGG_EVENT_TYPE :: u8 where "PUSH_METRIC_AGG_EVENT_TYPE = 21"
definition PUSH_METRIC_AGG_HEADER_SIZE :: nat where "PUSH_METRIC_AGG_HEADER_SIZE = 52"
definition PUSH_METRIC_AGG_TRACE_SIZE :: nat where "PUSH_METRIC_AGG_TRACE_SIZE = 24"
definition METRIC_FLAG_HAS_TRACE_CTX :: u8 where "METRIC_FLAG_HAS_TRACE_CTX = 1"
definition METRIC_FLAG_HAS_SAMPLE_TS :: u8 where "METRIC_FLAG_HAS_SAMPLE_TS = 4"
definition METRIC_FLAG_HAS_NAMESPACE :: u8 where "METRIC_FLAG_HAS_NAMESPACE = 8"
definition METRIC_FLAG_HAS_SAMPLE_TS_DC :: u8 where "METRIC_FLAG_HAS_SAMPLE_TS_DC = 16"
definition METRIC_SAMPLE_TS_SIZE :: nat where "METRIC_SAMPLE_TS_SIZE = 2"
definition METRIC_SAMPLE_TS_DC_SIZE :: nat where "METRIC_SAMPLE_TS_DC_SIZE = 8"
definition PUSH_BATCH_HEADER_SIZE :: nat where "PUSH_BATCH_HEADER_SIZE = 80"
definition PUSH_SAMPLE_SIZE :: nat where "PUSH_SAMPLE_SIZE = 24"
definition PUSH_BATCH_MAX_SAMPLES :: nat where "PUSH_BATCH_MAX_SAMPLES = 1024"
definition TASK_STATS_LEN :: nat where "TASK_STATS_LEN = 16"
definition EXCEED_COUNTER_LEN :: nat where "EXCEED_COUNTER_LEN = 4"
definition RT_USAGE_LEN :: nat where "RT_USAGE_LEN = 24"

lemmas diag_consts = ADS_STATE_RESPONSE_MASK_def IG_RT_SYSTEM_def IG_RT_USAGE_def
  IO_EXCEED_COUNTER_def IO_TASK_STATS_def IO_RT_USAGE_def IG_PUSH_DIAG_def IG_PUSH_CONFIG_def
  IO_PUSH_BATCH_def IO_PUSH_METRIC_BATCH_def IO_PUSH_METRIC_AGG_def PUSH_WIRE_VERSION_def
  PUSH_BATCH_EVENT_TYPE_def PUSH_METRIC_EVENT_TYPE_def PUSH_METRIC_AGG_EVENT_TYPE_def
  TASK_STATS_LEN_def EXCEED_COUNTER_LEN_def RT_USAGE_LEN_def

lemmas push_sizes = PUSH_METRIC_AGG_HEADER_SIZE_def PUSH_METRIC_AGG_TRACE_SIZE_def
  METRIC_SAMPLE_TS_SIZE_def METRIC_SAMPLE_TS_DC_SIZE_def PUSH_BATCH_HEADER_SIZE_def
  PUSH_SAMPLE_SIZE_def PUSH_BATCH_MAX_SAMPLES_def

section \<open>Events\<close>

record pending_request =
  pq_command_id :: u16
  pq_index_group :: u32
  pq_index_offset :: u32
  pq_size :: u32
  pq_target_port :: u16

datatype metric_body_schema =
    BoolSchema | NumericSchema | DiscreteSchema | StringSchema | WstringSchema | NumericAggregatedSchema

definition body_schema_from_byte :: "u8 \<Rightarrow> metric_body_schema option" where
  "body_schema_from_byte b =
     (if b = 1 then Some BoolSchema else if b = 2 then Some NumericSchema
      else if b = 3 then Some DiscreteSchema else if b = 4 then Some StringSchema
      else if b = 5 then Some WstringSchema else if b = 6 then Some NumericAggregatedSchema
      else None)"

datatype metric_aggregate_sample =
    SBool bool
  | SNumeric f64
  | SDiscrete "u8 list"
  | SString string
  | SWstring string
  | SNumericAggregated u8 "f64 list"

record metric_descriptor =
  md_metric_id :: u16
  md_kind :: u8
  md_flags :: u8
  md_name :: string
  md_unit :: string
  md_description :: string
  md_attributes :: "(string \<times> string) list"
  md_histogram_bounds :: "f32 list option"
  md_scope_namespace :: string

record metric_sample =
  ms_metric_id :: u16
  ms_flags :: u8
  ms_dc_time :: int
  ms_value :: f32

record diag_sample =
  ds_cycle_count :: u32
  ds_exec_time_us :: u32
  ds_dc_time :: int
  ds_flags :: u8

record task_stats =
  ts_task_port :: u16
  ts_type_marker :: u16
  ts_cycle_counter :: u16
  ts_cpu_ticks_100ns :: u32
  ts_exec_ticks_100ns :: u32

record rt_usage =
  ru_peak_latency_us :: u32
  ru_system_latency_us :: u32
  ru_cpu_percent :: u32

record task_diag_batch =
  tb_task_port :: u16
  tb_task_name :: string
  tb_task_obj_id :: u32
  tb_window_ms :: u16
  tb_cycle_count_start :: u32
  tb_cycle_count_end :: u32
  tb_dc_time_start :: int
  tb_dc_time_end :: int
  tb_exec_time_min_us :: u32
  tb_exec_time_max_us :: u32
  tb_exec_time_avg_us :: u32
  tb_cycle_exceed_count :: u32
  tb_rt_violation_count :: u32
  tb_samples :: "diag_sample list"

record metric_batch =
  mb_window_ms :: u16
  mb_cycle_count :: u32
  mb_dc_time_start :: int
  mb_dc_time_end :: int
  mb_descriptors :: "metric_descriptor list"
  mb_samples :: "metric_sample list"

record metric_aggregate_batch =
  ma_metric_id :: u32
  ma_task_index :: u8
  ma_flags :: u8
  ma_body_schema :: metric_body_schema
  ma_sample_size :: u32
  ma_stat_mask :: u8
  ma_cycle_count_start :: u32
  ma_cycle_count_end :: u32
  ma_dc_time_start :: int
  ma_dc_time_end :: int
  ma_name :: string
  ma_unit :: string
  ma_scope_namespace :: string
  ma_trace_id :: "u8 list option"
  ma_span_id :: "u8 list option"
  ma_samples :: "metric_aggregate_sample list"
  ma_sample_cycle_offsets :: "u16 list option"
  ma_sample_dc_times :: "int list option"

datatype diag_event =
    ExceedCounter u32
  | ExceedReset
  | TaskStats task_stats
  | RtUsage rt_usage
  | TaskDiagBatch task_diag_batch
  | MetricBatch metric_batch
  | MetricAggregateBatch metric_aggregate_batch

section \<open>Reads at an offset\<close>

text \<open>\<open>uN::from_le_bytes(bytes[off..off + n])\<close>: a panic when the slice is out of range.\<close>

definition at_u8 :: "u8 list \<Rightarrow> nat \<Rightarrow> (unit, u8) res" where
  "at_u8 bytes off = index bytes off"

definition at_u16 :: "u8 list \<Rightarrow> nat \<Rightarrow> (unit, u16) res" where
  "at_u16 bytes off = bind_res (slice off (off + 2) bytes) (\<lambda>b. Ok (u16_from_le b))"

definition at_u32 :: "u8 list \<Rightarrow> nat \<Rightarrow> (unit, u32) res" where
  "at_u32 bytes off = bind_res (slice off (off + 4) bytes) (\<lambda>b. Ok (u32_from_le b))"

definition at_u64 :: "u8 list \<Rightarrow> nat \<Rightarrow> (unit, u64) res" where
  "at_u64 bytes off = bind_res (slice off (off + 8) bytes) (\<lambda>b. Ok (u64_from_le b))"

definition at_i64 :: "u8 list \<Rightarrow> nat \<Rightarrow> (unit, int) res" where
  "at_i64 bytes off = bind_res (slice off (off + 8) bytes) (\<lambda>b. Ok (i64_from_le b))"

named_theorems at_simps \<open>in-range reads at an offset\<close>

lemma at_u8_Ok [at_simps]: "off < length bs \<Longrightarrow> at_u8 bs off = Ok (bs ! off)"
  by (simp add: at_u8_def index_def)

lemma at_u16_Ok [at_simps]: "off + 2 \<le> length bs \<Longrightarrow> at_u16 bs off = Ok (u16_from_le (bytes_at off 2 bs))"
  by (simp add: at_u16_def slice_def bytes_at_def)

lemma at_u32_Ok [at_simps]: "off + 4 \<le> length bs \<Longrightarrow> at_u32 bs off = Ok (u32_from_le (bytes_at off 4 bs))"
  by (simp add: at_u32_def slice_def bytes_at_def)

lemma at_u64_Ok [at_simps]: "off + 8 \<le> length bs \<Longrightarrow> at_u64 bs off = Ok (u64_from_le (bytes_at off 8 bs))"
  by (simp add: at_u64_def slice_def bytes_at_def)

lemma at_i64_Ok [at_simps]: "off + 8 \<le> length bs \<Longrightarrow> at_i64 bs off = Ok (i64_from_le (bytes_at off 8 bs))"
  by (simp add: at_i64_def slice_def bytes_at_def)

lemma slice_Ok_at [at_simps]:
  "off + n \<le> length bs \<Longrightarrow> (slice off (off + n) bs :: (unit, _) res) = Ok (bytes_at off n bs)"
  by (simp add: slice_def bytes_at_def)

lemma yields_at [yields_intros]:
  "off < length bs \<Longrightarrow> (\<And>x. yields (f x) P) \<Longrightarrow> yields (bind_res (at_u8 bs off) f) P"
  "off + 2 \<le> length bs \<Longrightarrow> (\<And>x. yields (f16 x) P) \<Longrightarrow> yields (bind_res (at_u16 bs off) f16) P"
  "off + 4 \<le> length bs \<Longrightarrow> (\<And>x. yields (f32 x) P) \<Longrightarrow> yields (bind_res (at_u32 bs off) f32) P"
  "off + 8 \<le> length bs \<Longrightarrow> (\<And>x. yields (f64 x) P) \<Longrightarrow> yields (bind_res (at_u64 bs off) f64) P"
  "off + 8 \<le> length bs \<Longrightarrow> (\<And>x. yields (g x) P) \<Longrightarrow> yields (bind_res (at_i64 bs off) g) P"
  by (simp_all add: at_simps)

lemma yields_slice [yields_intros]:
  "a \<le> b \<Longrightarrow> b \<le> length bs \<Longrightarrow> (\<And>xs. length xs = b - a \<Longrightarrow> yields (f xs) P) \<Longrightarrow>
   yields (bind_res (slice a b bs) f) P"
  by (simp add: slice_def)

section \<open>Observed polls\<close>

definition is_known_read :: "u32 \<Rightarrow> u32 \<Rightarrow> bool" where
  "is_known_read ig io \<longleftrightarrow>
     (ig = IG_RT_SYSTEM \<and> io = IO_EXCEED_COUNTER) \<or> (ig = IG_RT_SYSTEM \<and> io = IO_TASK_STATS) \<or>
     (ig = IG_RT_USAGE \<and> io = IO_RT_USAGE)"

definition is_known_write :: "u32 \<Rightarrow> u32 \<Rightarrow> bool" where
  "is_known_write ig io \<longleftrightarrow> ig = IG_RT_SYSTEM \<and> io = IO_EXCEED_COUNTER"

definition decode_request :: "ams_header \<Rightarrow> u8 list \<Rightarrow> (unit, u32 \<times> pending_request) res" where
  "decode_request h payload =
     (if state_flags h \<noteq> ADS_STATE_REQUEST then Err ()
      else if command_id h = ADS_CMD_READ \<or> command_id h = ADS_CMD_WRITE then
        (if length payload < 12 then Err ()
         else
           bind_res (at_u32 payload 0) (\<lambda>ig.
           bind_res (at_u32 payload 4) (\<lambda>io.
           bind_res (at_u32 payload 8) (\<lambda>size.
             let known = (if command_id h = ADS_CMD_READ then is_known_read ig io
                          else if command_id h = ADS_CMD_WRITE then is_known_write ig io
                          else False)
             in if \<not> known then Err ()
                else Ok (invoke_id h,
                  \<lparr>pq_command_id = command_id h, pq_index_group = ig, pq_index_offset = io,
                   pq_size = size, pq_target_port = target_port h\<rparr>)))))
      else Err ())"

definition decode_read_response :: "u8 list \<Rightarrow> pending_request \<Rightarrow> (unit, diag_event) res" where
  "decode_read_response payload req =
     (if length payload < 8 then Err ()
      else
        bind_res (at_u32 payload 0) (\<lambda>result.
        bind_res (at_u32 payload 4) (\<lambda>rl. let rlen = unat rl in
          if result \<noteq> 0 then Err ()
          else if 8 + rlen > length payload then Err ()
          else let data = bytes_at 8 rlen payload in
            if pq_index_group req = IG_RT_SYSTEM \<and> pq_index_offset req = IO_EXCEED_COUNTER \<and>
               rlen = EXCEED_COUNTER_LEN then
              Ok (ExceedCounter (u32_from_le data))
            else if pq_index_group req = IG_RT_SYSTEM \<and> pq_index_offset req = IO_TASK_STATS \<and>
               rlen = TASK_STATS_LEN then
              bind_res (at_u16 data 2) (\<lambda>marker.
              bind_res (at_u16 data 0) (\<lambda>counter.
              bind_res (at_u32 data 4) (\<lambda>cpu.
              bind_res (at_u32 data 8) (\<lambda>exec.
                Ok (TaskStats \<lparr>ts_task_port = pq_target_port req, ts_type_marker = marker,
                      ts_cycle_counter = counter, ts_cpu_ticks_100ns = cpu,
                      ts_exec_ticks_100ns = exec\<rparr>)))))
            else if pq_index_group req = IG_RT_USAGE \<and> pq_index_offset req = IO_RT_USAGE \<and>
               rlen = RT_USAGE_LEN then
              bind_res (at_u32 data 4) (\<lambda>peak.
              bind_res (at_u32 data 8) (\<lambda>lat.
              bind_res (at_u32 data 16) (\<lambda>cpu.
                Ok (RtUsage \<lparr>ru_peak_latency_us = peak, ru_system_latency_us = lat,
                      ru_cpu_percent = cpu\<rparr>))))
            else Err ())))"

definition decode_write_response :: "pending_request \<Rightarrow> (unit, diag_event) res" where
  "decode_write_response req =
     (if pq_index_group req = IG_RT_SYSTEM \<and> pq_index_offset req = IO_EXCEED_COUNTER
      then Ok ExceedReset else Err ())"

definition decode_response ::
    "ams_header \<Rightarrow> u8 list \<Rightarrow> pending_request \<Rightarrow> (unit, diag_event) res" where
  "decode_response h payload req =
     (if state_flags h AND ADS_STATE_RESPONSE_MASK = 0 then Err ()
      else if pq_command_id req = ADS_CMD_READ then decode_read_response payload req
      else if pq_command_id req = ADS_CMD_WRITE then decode_write_response req
      else Err ())"

definition decode_write_from_request :: "ams_header \<Rightarrow> u8 list \<Rightarrow> (unit, diag_event) res" where
  "decode_write_from_request h payload =
     (if state_flags h \<noteq> ADS_STATE_REQUEST \<or> command_id h \<noteq> ADS_CMD_WRITE \<or> length payload < 12
      then Err ()
      else
        bind_res (at_u32 payload 0) (\<lambda>ig.
        bind_res (at_u32 payload 4) (\<lambda>io.
          if ig = IG_RT_SYSTEM \<and> io = IO_EXCEED_COUNTER then Ok ExceedReset else Err ())))"

lemma decode_poll_request:
  assumes "state_flags h = ADS_STATE_REQUEST" "command_id h = cmd"
    and "cmd = ADS_CMD_READ \<and> is_known_read ig io \<or> cmd = ADS_CMD_WRITE \<and> is_known_write ig io"
  shows "decode_request h (u32_to_le ig @ u32_to_le io @ u32_to_le sz @ rest) =
     Ok (invoke_id h, \<lparr>pq_command_id = cmd, pq_index_group = ig, pq_index_offset = io, pq_size = sz,
       pq_target_port = target_port h\<rparr>)"
  using assms by (auto simp: decode_request_def at_simps byte_simps ads_consts)

text \<open>The response a read gets: result, length, data.\<close>

definition poll_response :: "u32 \<Rightarrow> u8 list \<Rightarrow> u8 list" where
  "poll_response result data = u32_to_le result @ u32_to_le (of_nat (length data)) @ data"

lemma decode_poll_response:
  assumes "length data < 2 ^ 32" "pq_index_group req = ig" "pq_index_offset req = io"
  shows "decode_read_response (poll_response result data) req =
     (if result \<noteq> 0 then Err ()
      else if ig = IG_RT_SYSTEM \<and> io = IO_EXCEED_COUNTER \<and> length data = 4 then
        Ok (ExceedCounter (u32_from_le data))
      else if ig = IG_RT_SYSTEM \<and> io = IO_TASK_STATS \<and> length data = 16 then
        Ok (TaskStats \<lparr>ts_task_port = pq_target_port req, ts_type_marker = u16_at 2 data,
          ts_cycle_counter = u16_at 0 data, ts_cpu_ticks_100ns = u32_at 4 data,
          ts_exec_ticks_100ns = u32_at 8 data\<rparr>)
      else if ig = IG_RT_USAGE \<and> io = IO_RT_USAGE \<and> length data = 24 then
        Ok (RtUsage \<lparr>ru_peak_latency_us = u32_at 4 data, ru_system_latency_us = u32_at 8 data,
          ru_cpu_percent = u32_at 16 data\<rparr>)
      else Err ())"
proof -
  have n: "unat (of_nat (length data) :: u32) = length data"
    using assms(1) by (simp add: unat_of_nat)
  show ?thesis
    using assms(2,3)
    by (simp add: decode_read_response_def poll_response_def at_simps byte_simps n u16_at_def u32_at_def
        TASK_STATS_LEN_def EXCEED_COUNTER_LEN_def RT_USAGE_LEN_def Let_def)
qed

section \<open>Properties\<close>

text \<open>
  An observed poll is followed from request to event: a task statistics read is recognised, the
  fields of its response are reported for the task port the request was sent to, and a response
  that reports an error gives no event.
\<close>

theorem observed_task_stats:
  assumes "state_flags h = ADS_STATE_REQUEST" "command_id h = ADS_CMD_READ"
    and "state_flags h' AND ADS_STATE_RESPONSE_MASK \<noteq> 0"
  shows "\<exists>req. decode_request h (u32_to_le IG_RT_SYSTEM @ u32_to_le IO_TASK_STATS @ u32_to_le sz @ rest) =
          Ok (invoke_id h, req) \<and>
        decode_response h' (poll_response result
          (u16_to_le counter @ u16_to_le marker @ u32_to_le cpu @ u32_to_le exec @ u32_to_le pad)) req =
        (if result = 0
         then Ok (TaskStats \<lparr>ts_task_port = target_port h, ts_type_marker = marker,
            ts_cycle_counter = counter, ts_cpu_ticks_100ns = cpu, ts_exec_ticks_100ns = exec\<rparr>)
         else Err ())"
  using assms
  by (simp add: decode_poll_request is_known_read_def decode_response_def decode_poll_response
      u16_at_def u32_at_def byte_simps IO_TASK_STATS_def IO_EXCEED_COUNTER_def)

definition read_header :: ams_header where
  "read_header = sample_header\<lparr>command_id := ADS_CMD_READ, invoke_id := 9\<rparr>"

theorem observed_task_stats_witness:
  "\<exists>req. decode_request read_header (u32_to_le IG_RT_SYSTEM @ u32_to_le IO_TASK_STATS @ u32_to_le 16) =
          Ok (9, req) \<and>
        decode_response (ams_header_make_response read_header 0) (poll_response 0
          (u16_to_le 5 @ u16_to_le 0x71 @ u32_to_le 100 @ u32_to_le 80 @ u32_to_le 0)) req =
        Ok (TaskStats \<lparr>ts_task_port = 16150, ts_type_marker = 0x71, ts_cycle_counter = 5,
          ts_cpu_ticks_100ns = 100, ts_exec_ticks_100ns = 80\<rparr>)"
  using observed_task_stats [of read_header "ams_header_make_response read_header 0" 16 "[]" 0 5 "0x71" 100
      80 0]
  by (simp add: read_header_def sample_header_def ams_header_make_response_def ads_consts
      ADS_STATE_RESPONSE_MASK_def)

text \<open>
  A counter reset is reported from any response frame to the write, whatever its payload: also
  when the payload carries an error code, so that a rejected reset counts as one.
\<close>

theorem observed_reset_ignores_result:
  assumes "state_flags h = ADS_STATE_REQUEST" "command_id h = ADS_CMD_WRITE"
    and "state_flags h' AND ADS_STATE_RESPONSE_MASK \<noteq> 0"
  shows "\<exists>req. decode_request h (u32_to_le IG_RT_SYSTEM @ u32_to_le IO_EXCEED_COUNTER @ u32_to_le sz @ rest) =
          Ok (invoke_id h, req) \<and> decode_response h' payload req = Ok ExceedReset"
  using assms
  by (simp add: decode_poll_request is_known_write_def decode_response_def decode_write_response_def
      ads_consts)

theorem observed_reset_ignores_result_witness:
  "\<exists>req. decode_request sample_header (u32_to_le IG_RT_SYSTEM @ u32_to_le IO_EXCEED_COUNTER @ u32_to_le 4) =
          Ok (7, req) \<and>
        decode_response (ams_header_make_response sample_header 0) (u32_to_le ADSERR_DEVICE_SRVNOTSUPP) req =
        Ok ExceedReset"
  using observed_reset_ignores_result [of sample_header "ams_header_make_response sample_header 0" 4 "[]"
      "u32_to_le ADSERR_DEVICE_SRVNOTSUPP"]
  by (simp add: sample_header_def ams_header_make_response_def ads_consts ADS_STATE_RESPONSE_MASK_def)

text \<open>
  The decoders of observed diagnostic polls never panic, whatever the frame: every slice they
  take is covered by their length checks.
\<close>

theorem observed_polls_no_panic:
  "decode_request h payload \<noteq> Panic \<and> decode_response h payload req \<noteq> Panic \<and>
   decode_write_from_request h payload \<noteq> Panic"
proof -
  have "yields (decode_request h payload) (\<lambda>_. True)"
    unfolding decode_request_def Let_def by (rule yields_intros TrueI | linarith)+
  moreover have "yields (decode_read_response payload req) (\<lambda>_. True)"
    unfolding decode_read_response_def Let_def diag_consts
    by (rule yields_intros TrueI | simp | linarith)+
  moreover have "yields (decode_write_from_request h payload) (\<lambda>_. True)"
    unfolding decode_write_from_request_def by (rule yields_intros TrueI | linarith)+
  ultimately show ?thesis
    by (simp add: yields_def decode_response_def decode_write_response_def)
qed

end
