(* ===== verification/Push.thy ===== *)
theory Push
  imports Diagnostics
begin

text \<open>
  The decoders of push-diagnostic frames, \<^verbatim>\<open>tc-otel-ads/src/diagnostics_push.rs\<close>: per-task batches,
  metric batches with descriptors, and compact metric aggregates. The offset the sources carry in a
  mutable variable is passed along; every slice and index is checked, so an input that could make
  the code panic would show as \<open>Panic\<close>. Encoders of the three frames give the round trips.
\<close>

section \<open>Loops and bounds\<close>

fun for_res :: "nat \<Rightarrow> nat \<Rightarrow> (nat \<Rightarrow> ('e, 'a) res) \<Rightarrow> ('e, 'a list) res" where
  "for_res i 0 f = Ok []"
| "for_res i (Suc n) f =
     bind_res (f i) (\<lambda>x. bind_res (for_res (Suc i) n f) (\<lambda>xs. Ok (x # xs)))"

lemma for_res_Ok:
  "(\<And>j. i \<le> j \<Longrightarrow> j < i + n \<Longrightarrow> f j = Ok (g j)) \<Longrightarrow> for_res i n f = Ok (map g [i..<i + n])"
proof (induction n arbitrary: i)
  case (Suc n)
  then have "for_res (Suc i) n f = Ok (map g [Suc i..<Suc i + n])"
    by (intro Suc.IH) auto
  then show ?case
    using Suc.prems [of i] by (simp add: upt_conv_Cons del: upt_Suc)
qed simp

fun iter_res :: "nat \<Rightarrow> ('s \<Rightarrow> ('e, 's) res) \<Rightarrow> 's \<Rightarrow> ('e, 's) res" where
  "iter_res 0 f s = Ok s"
| "iter_res (Suc n) f s = bind_res (f s) (iter_res n f)"

lemma iter_res_inv:
  assumes "\<And>k s. I k s \<Longrightarrow> f s \<noteq> Panic \<and> (\<forall>s'. f s = Ok s' \<longrightarrow> I (Suc k) s')" and "I k s"
  shows "iter_res n f s \<noteq> Panic \<and> (\<forall>s'. iter_res n f s = Ok s' \<longrightarrow> I (k + n) s')"
  using assms(2)
proof (induction n arbitrary: k s)
  case (Suc n)
  show ?case
  proof (cases "f s")
    case (Ok s')
    then have "I (Suc k) s'" using assms(1) [OF Suc.prems] by blast
    from Suc.IH [OF this] show ?thesis by (simp add: Ok)
  qed (use assms(1) [OF Suc.prems] in auto)
qed simp

lemma yields_iter:
  assumes "\<And>k s. I k s \<Longrightarrow> yields (f s) (I (Suc k))" "I 0 s"
  shows "yields (iter_res n f s) (I n)"
proof -
  have "iter_res n f s \<noteq> Panic \<and> (\<forall>s'. iter_res n f s = Ok s' \<longrightarrow> I (0 + n) s')"
    by (rule iter_res_inv) (use assms in \<open>auto simp: yields_def\<close>)
  then show ?thesis by (simp add: yields_def)
qed

definition checked :: "nat \<Rightarrow> (unit, nat) res" where
  "checked n = (if n < 2 ^ 64 then Ok n else Err ())"

lemma checked_cases: "checked n = Ok n \<or> checked n = Err ()"
  by (simp add: checked_def)

section \<open>Trailing zeros\<close>

text \<open>The end of the live part of a zero-padded field.\<close>

fun name_end :: "u8 list \<Rightarrow> nat \<Rightarrow> nat" where
  "name_end bs 0 = 0"
| "name_end bs (Suc e) = (if bs ! e = 0 then name_end bs e else Suc e)"

lemma name_end_le: "name_end bs e \<le> e"
  by (induction e) auto

lemma name_end_padded:
  assumes "xs = [] \<or> last xs \<noteq> 0"
  shows "name_end (xs @ replicate k 0) (length xs + k) = length xs"
proof (induction k)
  case 0
  then show ?case using assms by (cases xs rule: rev_cases) (auto simp: nth_append)
next
  case (Suc k)
  have "name_end (xs @ replicate (Suc k) 0) (length xs + k) = name_end (xs @ replicate k 0) (length xs + k)"
  proof -
    have "name_end (ys @ zs) e = name_end ys e" if "e \<le> length ys" for ys zs e
      using that by (induction e) (auto simp: nth_append)
    from this [of "length xs + k" "xs @ replicate k 0" "[0]"] show ?thesis
      by (simp add: replicate_append_same)
  qed
  then show ?case using Suc by (simp add: nth_append nth_Cons')
qed

definition decode_task_name :: "u8 list \<Rightarrow> string" where
  "decode_task_name bytes = from_utf8_lossy (take (name_end bytes (length bytes)) bytes)"

section \<open>Per-task batches\<close>

definition diag_sample_at :: "u8 list \<Rightarrow> nat \<Rightarrow> (unit, diag_sample) res" where
  "diag_sample_at bytes i =
     (let off = PUSH_BATCH_HEADER_SIZE + i * PUSH_SAMPLE_SIZE in
      bind_res (at_u32 bytes off) (\<lambda>cycle_count.
      bind_res (at_u32 bytes (off + 4)) (\<lambda>exec_time_us.
      bind_res (at_i64 bytes (off + 8)) (\<lambda>dc_time.
      bind_res (at_u8 bytes (off + 0x10)) (\<lambda>flags.
        Ok \<lparr>ds_cycle_count = cycle_count, ds_exec_time_us = exec_time_us, ds_dc_time = dc_time,
            ds_flags = flags\<rparr>)))))"

definition decode_batch :: "u8 list \<Rightarrow> (unit, diag_event) res" where
  "decode_batch bytes =
     (if length bytes < PUSH_BATCH_HEADER_SIZE then Err ()
      else
        bind_res (at_u8 bytes 0) (\<lambda>version.
        bind_res (at_u8 bytes 1) (\<lambda>event_type.
        if version \<noteq> PUSH_WIRE_VERSION \<or> event_type \<noteq> PUSH_BATCH_EVENT_TYPE then Err ()
        else
          bind_res (at_u32 bytes 4) (\<lambda>task_obj_id.
          bind_res (at_u16 bytes 8) (\<lambda>task_port.
          bind_res (at_u16 bytes 0x0A) (\<lambda>window_ms.
          bind_res (at_u16 bytes 0x0C) (\<lambda>count. let sample_count = unat count in
          bind_res (at_u32 bytes 0x10) (\<lambda>cycle_count_start.
          bind_res (at_u32 bytes 0x14) (\<lambda>cycle_count_end.
          bind_res (at_i64 bytes 0x18) (\<lambda>dc_time_start.
          bind_res (at_i64 bytes 0x20) (\<lambda>dc_time_end.
          bind_res (at_u32 bytes 0x28) (\<lambda>exec_time_min_us.
          bind_res (at_u32 bytes 0x2C) (\<lambda>exec_time_max_us.
          bind_res (at_u32 bytes 0x30) (\<lambda>exec_time_avg_us.
          bind_res (at_u32 bytes 0x34) (\<lambda>cycle_exceed_count.
          bind_res (at_u32 bytes 0x38) (\<lambda>rt_violation_count.
          bind_res (slice 0x3C 0x50 bytes) (\<lambda>name_bytes.
          if sample_count > PUSH_BATCH_MAX_SAMPLES then Err ()
          else
            bind_res (checked (sample_count * PUSH_SAMPLE_SIZE)) (\<lambda>body_len.
            bind_res (checked (PUSH_BATCH_HEADER_SIZE + body_len)) (\<lambda>total_len.
            if length bytes < total_len then Err ()
            else
              bind_res (for_res 0 sample_count (diag_sample_at bytes)) (\<lambda>samples.
                Ok (TaskDiagBatch
                  \<lparr>tb_task_port = task_port, tb_task_name = decode_task_name name_bytes,
                   tb_task_obj_id = task_obj_id, tb_window_ms = window_ms,
                   tb_cycle_count_start = cycle_count_start, tb_cycle_count_end = cycle_count_end,
                   tb_dc_time_start = dc_time_start, tb_dc_time_end = dc_time_end,
                   tb_exec_time_min_us = exec_time_min_us, tb_exec_time_max_us = exec_time_max_us,
                   tb_exec_time_avg_us = exec_time_avg_us,
                   tb_cycle_exceed_count = cycle_exceed_count,
                   tb_rt_violation_count = rt_violation_count, tb_samples = samples\<rparr>)))))))))))))))))))))"

text \<open>The samples of an in-range batch, read without outcome.\<close>

definition diag_sample_of :: "u8 list \<Rightarrow> nat \<Rightarrow> diag_sample" where
  "diag_sample_of bytes i =
     (let off = 80 + i * 24 in
      \<lparr>ds_cycle_count = u32_from_le (bytes_at off 4 bytes),
       ds_exec_time_us = u32_from_le (bytes_at (off + 4) 4 bytes),
       ds_dc_time = i64_from_le (bytes_at (off + 8) 8 bytes), ds_flags = bytes ! (off + 16)\<rparr>)"

lemma diag_sample_at_Ok:
  "80 + i * 24 + 24 \<le> length bytes \<Longrightarrow> diag_sample_at bytes i = Ok (diag_sample_of bytes i)"
  by (simp add: diag_sample_at_def diag_sample_of_def push_sizes at_simps Let_def)

lemma diag_samples_Ok:
  "80 + n * 24 \<le> length bytes \<Longrightarrow>
   for_res 0 n (diag_sample_at bytes) = Ok (map (diag_sample_of bytes) [0..<n])"
proof -
  assume n: "80 + n * 24 \<le> length bytes"
  have "for_res 0 n (diag_sample_at bytes) = Ok (map (diag_sample_of bytes) [0..<0 + n])"
  proof (rule for_res_Ok)
    fix j assume "j < 0 + n"
    then have "Suc j * 24 \<le> n * 24" by (intro mult_le_mono1) simp
    then show "diag_sample_at bytes j = Ok (diag_sample_of bytes j)"
      using n by (intro diag_sample_at_Ok) simp
  qed
  then show ?thesis by simp
qed

lemma slice_name_Ok:
  "80 \<le> length bytes \<Longrightarrow> (slice 60 80 bytes :: (unit, u8 list) res) = Ok (bytes_at 60 20 bytes)"
  by (simp add: slice_def bytes_at_def)

definition batch_of :: "u8 list \<Rightarrow> task_diag_batch" where
  "batch_of bytes =
     \<lparr>tb_task_port = u16_from_le (bytes_at 8 2 bytes),
      tb_task_name = decode_task_name (bytes_at 60 20 bytes),
      tb_task_obj_id = u32_from_le (bytes_at 4 4 bytes),
      tb_window_ms = u16_from_le (bytes_at 10 2 bytes),
      tb_cycle_count_start = u32_from_le (bytes_at 16 4 bytes),
      tb_cycle_count_end = u32_from_le (bytes_at 20 4 bytes),
      tb_dc_time_start = i64_from_le (bytes_at 24 8 bytes),
      tb_dc_time_end = i64_from_le (bytes_at 32 8 bytes),
      tb_exec_time_min_us = u32_from_le (bytes_at 40 4 bytes),
      tb_exec_time_max_us = u32_from_le (bytes_at 44 4 bytes),
      tb_exec_time_avg_us = u32_from_le (bytes_at 48 4 bytes),
      tb_cycle_exceed_count = u32_from_le (bytes_at 52 4 bytes),
      tb_rt_violation_count = u32_from_le (bytes_at 56 4 bytes),
      tb_samples = map (diag_sample_of bytes) [0..<unat (u16_from_le (bytes_at 12 2 bytes))]\<rparr>"

definition batch_accepted :: "u8 list \<Rightarrow> bool" where
  "batch_accepted bytes \<longleftrightarrow>
     80 \<le> length bytes \<and> bytes ! 0 = 2 \<and> bytes ! 1 = 10 \<and>
     (let n = unat (u16_from_le (bytes_at 12 2 bytes)) in n \<le> 1024 \<and> 80 + n * 24 \<le> length bytes)"

lemma decode_batch_eq:
  "decode_batch bytes = (if batch_accepted bytes then Ok (TaskDiagBatch (batch_of bytes)) else Err ())"
proof (cases "80 \<le> length bytes")
  case True
  have "checked (n * 24) = Ok (n * 24)" "checked (80 + n * 24) = Ok (80 + n * 24)" if "n \<le> 1024" for n :: nat
    using that by (simp_all add: checked_def)
  note c = this
  have len: "0 < length bytes" "1 < length bytes" "4 + 4 \<le> length bytes" "8 + 2 \<le> length bytes"
    "10 + 2 \<le> length bytes" "12 + 2 \<le> length bytes" "16 + 4 \<le> length bytes"
    "20 + 4 \<le> length bytes" "24 + 8 \<le> length bytes" "32 + 8 \<le> length bytes"
    "40 + 4 \<le> length bytes" "44 + 4 \<le> length bytes" "48 + 4 \<le> length bytes"
    "52 + 4 \<le> length bytes" "56 + 4 \<le> length bytes" "\<not> length bytes < 80"
    using True by linarith+
  show ?thesis
    unfolding decode_batch_def batch_accepted_def batch_of_def Let_def diag_consts push_sizes
      slice_name_Ok [OF True] at_u8_Ok [OF len(1)] at_u8_Ok [OF len(2)] at_u32_Ok [OF len(3)]
      at_u16_Ok [OF len(4)] at_u16_Ok [OF len(5)] at_u16_Ok [OF len(6)] at_u32_Ok [OF len(7)]
      at_u32_Ok [OF len(8)] at_i64_Ok [OF len(9)] at_i64_Ok [OF len(10)] at_u32_Ok [OF len(11)]
      at_u32_Ok [OF len(12)] at_u32_Ok [OF len(13)] at_u32_Ok [OF len(14)] at_u32_Ok [OF len(15)]
      bind_res.simps
    using True len c by (auto simp: diag_samples_Ok)
qed (simp add: decode_batch_def batch_accepted_def push_sizes)

text \<open>The wire format of a batch.\<close>

definition diag_sample_enc :: "diag_sample \<Rightarrow> u8 list" where
  "diag_sample_enc s =
     u32_to_le (ds_cycle_count s) @ u32_to_le (ds_exec_time_us s) @ i64_to_le (ds_dc_time s) @
     [ds_flags s] @ replicate 7 0"

definition batch_head :: "task_diag_batch \<Rightarrow> u8 list" where
  "batch_head b =
     [2, 10] @ [0, 0] @ u32_to_le (tb_task_obj_id b) @ u16_to_le (tb_task_port b) @
     u16_to_le (tb_window_ms b) @ u16_to_le (of_nat (length (tb_samples b))) @ [0, 0] @
     u32_to_le (tb_cycle_count_start b) @ u32_to_le (tb_cycle_count_end b) @
     i64_to_le (tb_dc_time_start b) @ i64_to_le (tb_dc_time_end b) @
     u32_to_le (tb_exec_time_min_us b) @ u32_to_le (tb_exec_time_max_us b) @
     u32_to_le (tb_exec_time_avg_us b) @ u32_to_le (tb_cycle_exceed_count b) @
     u32_to_le (tb_rt_violation_count b) @ bytes_of_str (tb_task_name b) @
     replicate (20 - length (tb_task_name b)) 0"

definition batch_enc :: "task_diag_batch \<Rightarrow> u8 list" where
  "batch_enc b = batch_head b @ concat (map diag_sample_enc (tb_samples b))"

definition batch_ok :: "task_diag_batch \<Rightarrow> bool" where
  "batch_ok b \<longleftrightarrow>
     str_ok (tb_task_name b) \<and> length (tb_task_name b) \<le> 20 \<and>
     (tb_task_name b = [] \<or> last (bytes_of_str (tb_task_name b)) \<noteq> 0) \<and>
     i64_range (tb_dc_time_start b) \<and> i64_range (tb_dc_time_end b) \<and>
     length (tb_samples b) \<le> 1024 \<and> list_all (\<lambda>s. i64_range (ds_dc_time s)) (tb_samples b)"

lemma i64_from_to_le_range: "i64_range i \<Longrightarrow> i64_from_le (i64_to_le i) = i"
  by (simp add: i64_range_def i64_from_to_le)

lemma length_diag_sample_enc [simp]: "length (diag_sample_enc s) = 24"
  by (simp add: diag_sample_enc_def)

lemma length_batch_head: "length (tb_task_name b) \<le> 20 \<Longrightarrow> length (batch_head b) = 80"
  by (simp add: batch_head_def)

lemma length_concat_samples: "length (concat (map diag_sample_enc ss)) = length ss * 24"
  by (induction ss) auto

lemma drop_concat_samples:
  "drop (i * 24) (concat (map diag_sample_enc ss)) = concat (map diag_sample_enc (drop i ss))"
proof (induction i arbitrary: ss)
  case (Suc i)
  then show ?case by (cases ss) simp_all
qed simp

lemma bytes_at_Cons [byte_simps]: "0 < off \<Longrightarrow> bytes_at off n (x # xs) = bytes_at (off - 1) n xs"
  by (cases off) (simp_all add: bytes_at_def)

lemma bytes_at_drop: "bytes_at (k + off) n xs = bytes_at off n (drop k xs)"
  by (simp add: bytes_at_def add.commute)

lemma diag_sample_of_enc:
  assumes "batch_ok b" "i < length (tb_samples b)"
  shows "diag_sample_of (batch_enc b) i = tb_samples b ! i"
proof -
  let ?s = "tb_samples b ! i"
  let ?rest = "concat (map diag_sample_enc (drop (Suc i) (tb_samples b)))"
  have h: "length (batch_head b) = 80"
    using assms by (intro length_batch_head) (simp add: batch_ok_def)
  have d: "drop (80 + i * 24) (batch_enc b) = diag_sample_enc ?s @ ?rest"
  proof -
    have "drop (80 + i * 24) (batch_enc b) = drop (i * 24) (drop 80 (batch_enc b))"
      by (simp add: add.commute)
    also have "drop 80 (batch_enc b) = concat (map diag_sample_enc (tb_samples b))"
      using h by (simp add: batch_enc_def)
    finally show ?thesis
      using assms by (simp add: drop_concat_samples Cons_nth_drop_Suc [symmetric])
  qed
  have "batch_enc b ! (80 + i * 24 + 16) = drop (80 + i * 24) (batch_enc b) ! 16"
    using assms h by (intro nth_drop [symmetric]) (simp add: batch_enc_def length_concat_samples)
  also have "\<dots> = ds_flags ?s"
    unfolding d by (simp add: diag_sample_enc_def nth_append)
  finally have f: "batch_enc b ! (80 + i * 24 + 16) = ds_flags ?s" .
  have "i64_range (ds_dc_time ?s)"
    using assms by (simp add: batch_ok_def list_all_length)
  then show ?thesis
    using f bytes_at_drop [of "80 + i * 24" 0 4 "batch_enc b"] bytes_at_drop [of "80 + i * 24" 4 4 "batch_enc b"]
      bytes_at_drop [of "80 + i * 24" 8 8 "batch_enc b"]
    unfolding d diag_sample_enc_def
    by (simp add: diag_sample_of_def Let_def byte_simps i64_from_to_le_range)
qed

lemma task_name_roundtrip:
  assumes "str_ok s" "length s \<le> 20" "s = [] \<or> last (bytes_of_str s) \<noteq> 0"
  shows "decode_task_name (bytes_of_str s @ replicate (20 - length s) 0) = s"
proof -
  have "bytes_of_str s = [] \<or> last (bytes_of_str s) \<noteq> 0"
    using assms(3) by (cases s) (auto simp: bytes_of_str_def)
  then have "name_end (bytes_of_str s @ replicate (20 - length s) 0) (length s + (20 - length s)) = length s"
    using name_end_padded [of "bytes_of_str s" "20 - length s"] by simp
  then show ?thesis
    using assms by (simp add: decode_task_name_def)
qed

lemma batch_of_enc:
  assumes "batch_ok b"
  shows "batch_of (batch_enc b) = b \<and> batch_accepted (batch_enc b)"
proof -
  have h: "length (batch_head b) = 80"
    using assms by (intro length_batch_head) (simp add: batch_ok_def)
  have n: "unat (of_nat (length (tb_samples b)) :: u16) = length (tb_samples b)"
    using assms by (simp add: batch_ok_def unat_of_nat)
  have at: "bytes_at off k (batch_enc b) = bytes_at off k (batch_head b)" if "off + k \<le> 80" for off k
    using that h by (simp add: batch_enc_def bytes_at_def)
  have name: "bytes_at 60 20 (batch_head b) = bytes_of_str (tb_task_name b) @ replicate (20 - length (tb_task_name b)) 0"
    using assms by (simp add: batch_head_def byte_simps batch_ok_def)
  have "map (diag_sample_of (batch_enc b)) [0..<length (tb_samples b)] = tb_samples b"
    using diag_sample_of_enc [OF assms] by (intro nth_equalityI) simp_all
  moreover have "u16_from_le (bytes_at 12 2 (batch_head b)) = of_nat (length (tb_samples b))"
    by (simp add: batch_head_def byte_simps)
  ultimately have "tb_samples (batch_of (batch_enc b)) = tb_samples b"
    by (simp add: batch_of_def at n)
  moreover have "tb_task_name (batch_of (batch_enc b)) = tb_task_name b"
    using assms task_name_roundtrip [of "tb_task_name b"] by (simp add: batch_of_def at name batch_ok_def)
  moreover have "i64_range (tb_dc_time_start b)" "i64_range (tb_dc_time_end b)"
    using assms by (simp_all add: batch_ok_def)
  ultimately have 1: "batch_of (batch_enc b) = b"
    by (intro task_diag_batch.equality) (simp_all add: batch_of_def at batch_head_def byte_simps i64_from_to_le_range)
  have "batch_enc b ! 0 = 2" "batch_enc b ! 1 = 10"
    by (simp_all add: batch_enc_def batch_head_def)
  moreover have "u16_from_le (bytes_at 12 2 (batch_enc b)) = of_nat (length (tb_samples b))"
    by (simp add: at batch_head_def byte_simps)
  ultimately have "batch_accepted (batch_enc b)"
    using assms h n by (simp add: batch_accepted_def Let_def batch_enc_def length_concat_samples batch_ok_def)
  with 1 show ?thesis by simp
qed

section \<open>Metric batches\<close>

text \<open>The next \<open>len\<close> bytes as a string: too short or not UTF-8 ends the decoding.\<close>

definition take_utf8 :: "u8 list \<Rightarrow> nat \<Rightarrow> nat \<Rightarrow> (unit, string \<times> nat) res" where
  "take_utf8 bytes offset len =
     (if offset + len > length bytes then Err ()
      else bind_res (slice offset (offset + len) bytes) (\<lambda>bs.
             bind_res (ok_or () (from_utf8 bs)) (\<lambda>s. Ok (s, offset + len))))"

definition descriptor_attr ::
    "u8 list \<Rightarrow> (string \<times> string) list \<times> nat \<Rightarrow> (unit, (string \<times> string) list \<times> nat) res" where
  "descriptor_attr bytes st =
     (if snd st + 2 > length bytes then Err ()
      else
        bind_res (at_u8 bytes (snd st)) (\<lambda>key_len.
        bind_res (at_u8 bytes (snd st + 1)) (\<lambda>value_len.
        bind_res (take_utf8 bytes (snd st + 2) (unat key_len)) (\<lambda>(key, offset).
        bind_res (take_utf8 bytes offset (unat value_len)) (\<lambda>(v, offset).
          Ok (fst st @ [(key, v)], offset))))))"

definition descriptor_bounds ::
    "u8 list \<Rightarrow> u8 \<Rightarrow> nat \<Rightarrow> nat \<Rightarrow> (unit, f32 list option \<times> nat) res" where
  "descriptor_bounds bytes kind bucket_count offset =
     (if kind = 2 \<and> bucket_count > 0 then
        (let bounds_size = bucket_count * 4 in
         if offset + bounds_size > length bytes then Err ()
         else bind_res (for_res 0 bucket_count (\<lambda>i. at_u32 bytes (offset + i * 4))) (\<lambda>bounds.
                Ok (Some bounds, offset + bounds_size)))
      else Ok (None, offset))"

definition parse_descriptor :: "u8 list \<Rightarrow> (unit, metric_descriptor \<times> nat) res" where
  "parse_descriptor bytes =
     (if length bytes < 12 then Err ()
      else
        bind_res (at_u16 bytes 0) (\<lambda>metric_id.
        bind_res (at_u8 bytes 2) (\<lambda>kind.
        bind_res (at_u8 bytes 3) (\<lambda>flags.
        bind_res (at_u8 bytes 4) (\<lambda>name_len.
        bind_res (at_u8 bytes 5) (\<lambda>unit_len.
        bind_res (at_u8 bytes 6) (\<lambda>description_len.
        bind_res (at_u8 bytes 7) (\<lambda>attr_count.
        bind_res (at_u8 bytes 8) (\<lambda>histogram_bucket_count.
        bind_res (at_u8 bytes 9) (\<lambda>scope_namespace_len.
        if unat attr_count > 8 then Err ()
        else
          bind_res (take_utf8 bytes 12 (unat name_len)) (\<lambda>(name, offset).
          bind_res (take_utf8 bytes offset (unat unit_len)) (\<lambda>(unit_str, offset).
          bind_res (take_utf8 bytes offset (unat description_len)) (\<lambda>(description, offset).
          bind_res (iter_res (unat attr_count) (descriptor_attr bytes) ([], offset)) (\<lambda>(attributes, offset).
          bind_res (descriptor_bounds bytes kind (unat histogram_bucket_count) offset) (\<lambda>(bounds, offset).
          bind_res (if unat scope_namespace_len > 0
                    then take_utf8 bytes offset (unat scope_namespace_len)
                    else Ok ('''', offset)) (\<lambda>(ns, offset).
            Ok (\<lparr>md_metric_id = metric_id, md_kind = kind, md_flags = flags, md_name = name,
                 md_unit = unit_str, md_description = description, md_attributes = attributes,
                 md_histogram_bounds = bounds, md_scope_namespace = ns\<rparr>, offset)))))))))))))))))"

definition metric_descriptor_step ::
    "u8 list \<Rightarrow> metric_descriptor list \<times> nat \<Rightarrow> (unit, metric_descriptor list \<times> nat) res" where
  "metric_descriptor_step bytes st =
     bind_res (slice (snd st) (length bytes) bytes) (\<lambda>rest.
     bind_res (parse_descriptor rest) (\<lambda>(desc, bytes_read).
     bind_res (checked (snd st + bytes_read)) (\<lambda>offset. Ok (fst st @ [desc], offset))))"

definition metric_sample_step ::
    "u8 list \<Rightarrow> metric_sample list \<times> nat \<Rightarrow> (unit, metric_sample list \<times> nat) res" where
  "metric_sample_step bytes st =
     (let offset = snd st in
      if offset + 16 > length bytes then Err ()
      else
        bind_res (at_u16 bytes offset) (\<lambda>metric_id.
        bind_res (at_u8 bytes (offset + 2)) (\<lambda>flags.
        bind_res (at_i64 bytes (offset + 4)) (\<lambda>dc_time.
        bind_res (at_u32 bytes (offset + 12)) (\<lambda>v.
          Ok (fst st @ [\<lparr>ms_metric_id = metric_id, ms_flags = flags, ms_dc_time = dc_time,
                         ms_value = v\<rparr>], offset + 16))))))"

definition decode_metric_batch :: "u8 list \<Rightarrow> (unit, diag_event) res" where
  "decode_metric_batch bytes =
     (if length bytes < 32 then Err ()
      else
        bind_res (at_u8 bytes 0) (\<lambda>version.
        bind_res (at_u8 bytes 1) (\<lambda>event_type.
        if version \<noteq> PUSH_WIRE_VERSION \<or> event_type \<noteq> PUSH_METRIC_EVENT_TYPE then Err ()
        else
          bind_res (at_u16 bytes 4) (\<lambda>descriptor_count.
          bind_res (at_u16 bytes 6) (\<lambda>sample_count.
          bind_res (at_u16 bytes 8) (\<lambda>window_ms.
          bind_res (at_u32 bytes 0x0C) (\<lambda>cycle_count.
          bind_res (at_i64 bytes 0x10) (\<lambda>dc_time_start.
          bind_res (at_i64 bytes 0x18) (\<lambda>dc_time_end.
          bind_res (iter_res (unat descriptor_count) (metric_descriptor_step bytes) ([], 32))
            (\<lambda>(descriptors, offset).
          bind_res (iter_res (unat sample_count) (metric_sample_step bytes) ([], offset))
            (\<lambda>(samples, offset).
          if offset \<noteq> length bytes then Err ()
          else Ok (MetricBatch
            \<lparr>mb_window_ms = window_ms, mb_cycle_count = cycle_count, mb_dc_time_start = dc_time_start,
             mb_dc_time_end = dc_time_end, mb_descriptors = descriptors, mb_samples = samples\<rparr>))))))))))))"

text \<open>Bounds of the descriptor parser: it never reads outside its slice.\<close>

lemma take_utf8_yields:
  "yields (take_utf8 bytes offset len)
     (\<lambda>(s, o'). o' = offset + len \<and> o' \<le> length bytes \<and> str_ok s \<and> length s = len)"
  unfolding take_utf8_def
  by (rule yields_intros | simp | force simp: from_utf8_Some_iff)+

lemmas take_utf8_bind = yields_bind [OF take_utf8_yields]

definition attrs_state :: "u8 list \<Rightarrow> nat \<Rightarrow> (string \<times> string) list \<times> nat \<Rightarrow> bool" where
  "attrs_state bytes k st \<longleftrightarrow> length (fst st) = k \<and> 12 \<le> snd st \<and> snd st \<le> length bytes \<and>
     list_all (\<lambda>(key, v). str_ok key \<and> str_ok v) (fst st)"

lemma descriptor_attr_yields:
  "attrs_state bytes k st \<Longrightarrow> yields (descriptor_attr bytes st) (attrs_state bytes (Suc k))"
  unfolding descriptor_attr_def
  by (rule yields_intros take_utf8_bind | force simp: attrs_state_def)+

lemma descriptor_attrs_yields:
  "12 \<le> offset \<Longrightarrow> offset \<le> length bytes \<Longrightarrow>
   yields (iter_res n (descriptor_attr bytes) ([], offset)) (attrs_state bytes n)"
  by (rule yields_iter, erule descriptor_attr_yields) (simp add: attrs_state_def)

lemma descriptor_bounds_yields:
  "offset \<le> length bytes \<Longrightarrow>
   yields (descriptor_bounds bytes kind n offset)
     (\<lambda>(b, o'). offset \<le> o' \<and> o' \<le> length bytes \<and>
        (case b of None \<Rightarrow> kind \<noteq> 2 \<or> n = 0 | Some xs \<Rightarrow> kind = 2 \<and> length xs = n))"
proof -
  assume o: "offset \<le> length bytes"
  have "for_res 0 n (\<lambda>i. at_u32 bytes (offset + i * 4)) =
      Ok (map (\<lambda>i. u32_from_le (bytes_at (offset + i * 4) 4 bytes)) [0..<0 + n])"
    if "offset + n * 4 \<le> length bytes"
  proof (rule for_res_Ok)
    fix j assume "j < 0 + n"
    then have "Suc j * 4 \<le> n * 4" by (intro mult_le_mono1) simp
    then show "at_u32 bytes (offset + j * 4) = Ok (u32_from_le (bytes_at (offset + j * 4) 4 bytes))"
      using that by (intro at_u32_Ok) simp
  qed
  then show ?thesis
    using o by (auto simp: descriptor_bounds_def yields_def Let_def)
qed

definition descriptor_ok :: "metric_descriptor \<Rightarrow> bool" where
  "descriptor_ok d \<longleftrightarrow>
     str_ok (md_name d) \<and> str_ok (md_unit d) \<and> str_ok (md_description d) \<and>
     str_ok (md_scope_namespace d) \<and> length (md_attributes d) \<le> 8 \<and>
     list_all (\<lambda>(key, v). str_ok key \<and> str_ok v) (md_attributes d) \<and>
     (md_histogram_bounds d \<noteq> None \<longrightarrow> md_kind d = 2)"

lemma parse_descriptor_yields:
  "yields (parse_descriptor bytes) (\<lambda>(d, n). descriptor_ok d \<and> 12 \<le> n \<and> n \<le> length bytes)"
proof -
  have ns: "yields (if 0 < n then take_utf8 bytes offset n else Ok ('''', offset))
      (\<lambda>(s, o'). offset \<le> o' \<and> o' \<le> length bytes \<and> str_ok s)" if "offset \<le> length bytes" for n offset
    using that take_utf8_yields [of bytes offset n] by (auto simp: yields_def)
  show ?thesis
    unfolding parse_descriptor_def
    by (rule yields_intros take_utf8_bind yields_bind [OF descriptor_attrs_yields]
        yields_bind [OF descriptor_bounds_yields] yields_bind [OF ns]
      | force simp: descriptor_ok_def attrs_state_def split: option.splits)+
qed

definition descriptors_state :: "u8 list \<Rightarrow> nat \<Rightarrow> metric_descriptor list \<times> nat \<Rightarrow> bool" where
  "descriptors_state bytes k st \<longleftrightarrow>
     length (fst st) = k \<and> list_all descriptor_ok (fst st) \<and> 32 + 12 * k \<le> snd st \<and> snd st \<le> length bytes"

lemma metric_descriptor_step_yields:
  assumes "descriptors_state bytes k st"
  shows "yields (metric_descriptor_step bytes st) (descriptors_state bytes (Suc k))"
proof -
  have c: "yields (checked n) (\<lambda>m. m = n)" for n
    by (simp add: checked_def yields_def)
  show ?thesis
    using assms unfolding metric_descriptor_step_def
    by - (rule yields_intros yields_bind [OF parse_descriptor_yields] yields_bind [OF c]
      | force simp: descriptors_state_def)+
qed

definition samples_state :: "u8 list \<Rightarrow> nat \<Rightarrow> nat \<Rightarrow> metric_sample list \<times> nat \<Rightarrow> bool" where
  "samples_state bytes start k st \<longleftrightarrow> length (fst st) = k \<and> snd st = start + 16 * k \<and> snd st \<le> length bytes"

lemma metric_sample_step_yields:
  "samples_state bytes start k st \<Longrightarrow>
   yields (metric_sample_step bytes st) (samples_state bytes start (Suc k))"
  unfolding metric_sample_step_def Let_def
  by (rule yields_intros | clarsimp simp: samples_state_def | linarith)+

text \<open>What a decoded metric batch satisfies: counts from the header, and the whole buffer used.\<close>

definition metric_batch_ok :: "u8 list \<Rightarrow> diag_event \<Rightarrow> bool" where
  "metric_batch_ok bytes ev \<longleftrightarrow>
     (\<exists>b. ev = MetricBatch b \<and> list_all descriptor_ok (mb_descriptors b) \<and>
        length (mb_descriptors b) = unat (u16_from_le (bytes_at 4 2 bytes)) \<and>
        length (mb_samples b) = unat (u16_from_le (bytes_at 6 2 bytes)) \<and>
        32 + 12 * length (mb_descriptors b) + 16 * length (mb_samples b) \<le> length bytes)"

lemma decode_metric_batch_yields: "yields (decode_metric_batch bytes) (metric_batch_ok bytes)"
proof (cases "length bytes < 32")
  case False
  then have len: "0 < length bytes" "1 < length bytes" "4 + 2 \<le> length bytes" "6 + 2 \<le> length bytes"
    "8 + 2 \<le> length bytes" "12 + 4 \<le> length bytes" "16 + 8 \<le> length bytes" "24 + 8 \<le> length bytes"
    by linarith+
  have d: "yields (iter_res n (metric_descriptor_step bytes) ([], 32)) (descriptors_state bytes n)" for n
    by (rule yields_iter, erule metric_descriptor_step_yields) (use False in \<open>simp add: descriptors_state_def\<close>)
  have s: "yields (iter_res n (metric_sample_step bytes) ([], start)) (samples_state bytes start n)"
    if "start \<le> length bytes" for n start
    by (rule yields_iter, erule metric_sample_step_yields) (use that in \<open>simp add: samples_state_def\<close>)
  show ?thesis
    unfolding decode_metric_batch_def at_u8_Ok [OF len(1)] at_u8_Ok [OF len(2)] at_u16_Ok [OF len(3)]
      at_u16_Ok [OF len(4)] at_u16_Ok [OF len(5)] at_u32_Ok [OF len(6)] at_i64_Ok [OF len(7)]
      at_i64_Ok [OF len(8)] bind_res.simps
    by (rule yields_intros yields_bind [OF d] yields_bind [OF s]
      | force simp: descriptors_state_def samples_state_def metric_batch_ok_def)+
qed (simp add: decode_metric_batch_def yields_def)

section \<open>Metric aggregates\<close>

definition count_ones :: "u8 \<Rightarrow> nat" where
  "count_ones w = length (filter (bit w) [0..<8])"

lemma count_ones_le: "count_ones w \<le> 8"
  using length_filter_le [of "bit w" "[0..<8]"] by (simp add: count_ones_def)

definition agg_size_ok :: "metric_body_schema \<Rightarrow> u32 \<Rightarrow> u8 \<Rightarrow> bool" where
  "agg_size_ok schema sample_size stat_mask =
     (case schema of
        BoolSchema \<Rightarrow> sample_size = 1
      | NumericSchema \<Rightarrow> sample_size = 8
      | NumericAggregatedSchema \<Rightarrow>
          (let expected = count_ones stat_mask * 8 in expected \<noteq> 0 \<and> unat sample_size = expected)
      | _ \<Rightarrow> \<not> (sample_size = 0 \<or> unat sample_size > 65535))"

definition agg_trace ::
    "u8 list \<Rightarrow> u8 \<Rightarrow> nat \<Rightarrow> (unit, (u8 list option \<times> u8 list option) \<times> nat) res" where
  "agg_trace bytes flags offset =
     (if flags AND METRIC_FLAG_HAS_TRACE_CTX \<noteq> 0 then
        (if length bytes < offset + PUSH_METRIC_AGG_TRACE_SIZE then Err ()
         else
           bind_res (slice offset (offset + 16) bytes) (\<lambda>tid.
           bind_res (slice (offset + 16) (offset + 24) bytes) (\<lambda>sid.
             Ok ((Some tid, Some sid), offset + PUSH_METRIC_AGG_TRACE_SIZE))))
      else Ok ((None, None), offset))"

definition agg_namespace :: "u8 list \<Rightarrow> u8 \<Rightarrow> nat \<Rightarrow> (unit, string \<times> nat) res" where
  "agg_namespace bytes flags offset =
     (if flags AND METRIC_FLAG_HAS_NAMESPACE \<noteq> 0 then
        (if length bytes < offset + 1 then Err ()
         else bind_res (at_u8 bytes offset) (\<lambda>ns_len. take_utf8 bytes (offset + 1) (unat ns_len)))
      else Ok ('''', offset))"

text \<open>\<open>as_chunks::<2>().0\<close>: the full pairs, a trailing odd byte ignored; then trailing zeros popped.\<close>

fun le_units :: "u8 list \<Rightarrow> u16 list" where
  "le_units (a # b # rest) = u16_from_le [a, b] # le_units rest"
| "le_units _ = []"

definition pop_zeros :: "u16 list \<Rightarrow> u16 list" where
  "pop_zeros us = rev (dropWhile (\<lambda>u. u = 0) (rev us))"

definition agg_sample ::
    "metric_body_schema \<Rightarrow> u8 \<Rightarrow> u8 list \<Rightarrow> (unit, metric_aggregate_sample) res" where
  "agg_sample schema stat_mask slot =
     (case schema of
        BoolSchema \<Rightarrow> bind_res (at_u8 slot 0) (\<lambda>b. Ok (SBool (b \<noteq> 0)))
      | NumericSchema \<Rightarrow> bind_res (at_u64 slot 0) (\<lambda>v. Ok (SNumeric v))
      | DiscreteSchema \<Rightarrow> Ok (SDiscrete slot)
      | StringSchema \<Rightarrow>
          bind_res (slice 0 (name_end slot (length slot)) slot) (\<lambda>live. Ok (SString (from_utf8_lossy live)))
      | WstringSchema \<Rightarrow> Ok (SWstring (from_utf16_lossy (pop_zeros (le_units slot))))
      | NumericAggregatedSchema \<Rightarrow>
          bind_res (for_res 0 (count_ones stat_mask) (\<lambda>k. at_u64 slot (k * 8))) (\<lambda>vs.
            Ok (SNumericAggregated stat_mask vs)))"

record agg_slot_value =
  av_cycle_offset :: "u16 option"
  av_dc_time :: "int option"
  av_sample :: metric_aggregate_sample

definition agg_slot ::
    "metric_body_schema \<Rightarrow> u8 \<Rightarrow> nat \<Rightarrow> bool \<Rightarrow> bool \<Rightarrow> nat \<Rightarrow> nat \<Rightarrow> u8 list \<Rightarrow> nat
     \<Rightarrow> (unit, agg_slot_value) res" where
  "agg_slot schema stat_mask sample_size has_ts has_ts_dc ts_prefix slot_stride body i =
     (let slot_base = i * slot_stride in
      bind_res (if has_ts then bind_res (at_u16 body slot_base) (\<lambda>c. Ok (Some c)) else Ok None) (\<lambda>cycle_offset.
      bind_res (if \<not> has_ts \<and> has_ts_dc then bind_res (at_i64 body slot_base) (\<lambda>d. Ok (Some d)) else Ok None) (\<lambda>dc.
      let value_off = slot_base + ts_prefix in
      bind_res (slice value_off (value_off + sample_size) body) (\<lambda>slot.
      bind_res (agg_sample schema stat_mask slot) (\<lambda>sample.
        Ok \<lparr>av_cycle_offset = cycle_offset, av_dc_time = dc, av_sample = sample\<rparr>)))))"

definition agg_body ::
    "u8 list \<Rightarrow> nat \<Rightarrow> metric_body_schema \<Rightarrow> u8 \<Rightarrow> u8 \<Rightarrow> nat \<Rightarrow> nat
     \<Rightarrow> (unit, agg_slot_value list) res" where
  "agg_body bytes offset schema flags stat_mask sample_size sample_count =
     (let has_ts = (flags AND METRIC_FLAG_HAS_SAMPLE_TS \<noteq> 0);
          has_ts_dc = (flags AND METRIC_FLAG_HAS_SAMPLE_TS_DC \<noteq> 0) in
      if has_ts \<and> has_ts_dc then Err ()
      else
        let ts_prefix = (if has_ts then METRIC_SAMPLE_TS_SIZE
                         else if has_ts_dc then METRIC_SAMPLE_TS_DC_SIZE else 0) in
        bind_res (checked (sample_size + ts_prefix)) (\<lambda>slot_stride.
        bind_res (checked (sample_count * slot_stride)) (\<lambda>body_len.
        if length bytes < offset + body_len then Err ()
        else
          bind_res (slice offset (offset + body_len) bytes) (\<lambda>body.
          if offset + body_len \<noteq> length bytes then Err ()
          else for_res 0 sample_count
                 (agg_slot schema stat_mask sample_size has_ts has_ts_dc ts_prefix slot_stride body)))))"

definition decode_metric_aggregate :: "u8 list \<Rightarrow> (unit, diag_event) res" where
  "decode_metric_aggregate bytes =
     (if length bytes < PUSH_METRIC_AGG_HEADER_SIZE then Err ()
      else
        bind_res (at_u8 bytes 0) (\<lambda>version.
        bind_res (at_u8 bytes 1) (\<lambda>event_type.
        if version \<noteq> PUSH_WIRE_VERSION \<or> event_type \<noteq> PUSH_METRIC_AGG_EVENT_TYPE then Err ()
        else
          bind_res (at_u8 bytes 2) (\<lambda>flags.
          bind_res (at_u8 bytes 3) (\<lambda>schema_byte.
          bind_res (ok_or () (body_schema_from_byte schema_byte)) (\<lambda>body_schema.
          bind_res (at_u32 bytes 0x04) (\<lambda>sample_size.
          bind_res (at_u32 bytes 0x08) (\<lambda>sample_count.
          bind_res (at_u32 bytes 0x0C) (\<lambda>metric_id.
          bind_res (at_u8 bytes 0x10) (\<lambda>task_index.
          bind_res (at_u8 bytes 0x11) (\<lambda>stat_mask.
          bind_res (at_u32 bytes 0x14) (\<lambda>cycle_count_start.
          bind_res (at_u32 bytes 0x18) (\<lambda>cycle_count_end.
          bind_res (at_i64 bytes 0x20) (\<lambda>dc_time_start.
          bind_res (at_i64 bytes 0x28) (\<lambda>dc_time_end.
          bind_res (at_u8 bytes 0x30) (\<lambda>name_len.
          bind_res (at_u8 bytes 0x31) (\<lambda>unit_len.
          if \<not> agg_size_ok body_schema sample_size stat_mask then Err ()
          else
            bind_res (agg_trace bytes flags PUSH_METRIC_AGG_HEADER_SIZE) (\<lambda>(ids, offset).
            bind_res (take_utf8 bytes offset (unat name_len)) (\<lambda>(name, offset).
            bind_res (take_utf8 bytes offset (unat unit_len)) (\<lambda>(unit_str, offset).
            bind_res (agg_namespace bytes flags offset) (\<lambda>(ns, offset).
            bind_res (agg_body bytes offset body_schema flags stat_mask (unat sample_size)
                        (unat sample_count)) (\<lambda>slots.
              Ok (MetricAggregateBatch
                \<lparr>ma_metric_id = metric_id, ma_task_index = task_index, ma_flags = flags,
                 ma_body_schema = body_schema, ma_sample_size = sample_size,
                 ma_stat_mask = stat_mask, ma_cycle_count_start = cycle_count_start,
                 ma_cycle_count_end = cycle_count_end, ma_dc_time_start = dc_time_start,
                 ma_dc_time_end = dc_time_end, ma_name = name, ma_unit = unit_str,
                 ma_scope_namespace = ns, ma_trace_id = fst ids, ma_span_id = snd ids,
                 ma_samples = map av_sample slots,
                 ma_sample_cycle_offsets =
                   (if flags AND METRIC_FLAG_HAS_SAMPLE_TS \<noteq> 0
                    then Some (List.map_filter av_cycle_offset slots) else None),
                 ma_sample_dc_times =
                   (if flags AND METRIC_FLAG_HAS_SAMPLE_TS_DC \<noteq> 0
                    then Some (List.map_filter av_dc_time slots) else None)\<rparr>)))))))))))))))))))))))"

lemma yields_for:
  "(\<And>j. i \<le> j \<Longrightarrow> j < i + n \<Longrightarrow> yields (f j) P) \<Longrightarrow>
   yields (for_res i n f) (\<lambda>xs. length xs = n \<and> list_all P xs)"
proof (induction n arbitrary: i)
  case (Suc n)
  have "yields (for_res (Suc i) n f) (\<lambda>xs. length xs = n \<and> list_all P xs)"
    using Suc.prems by (intro Suc.IH) simp
  moreover have "yields (f i) P" using Suc.prems [of i] by simp
  ultimately show ?case
    by (simp del: for_res.simps(1)) (rule yields_bind, assumption, rule yields_bind, assumption,
        simp add: yields_def)
qed (simp add: yields_def)

fun sample_matches :: "metric_body_schema \<Rightarrow> nat \<Rightarrow> u8 \<Rightarrow> metric_aggregate_sample \<Rightarrow> bool" where
  "sample_matches BoolSchema n smask (SBool b) = True"
| "sample_matches NumericSchema n smask (SNumeric v) = True"
| "sample_matches DiscreteSchema n smask (SDiscrete bs) = (length bs = n)"
| "sample_matches StringSchema n smask (SString s) = str_ok s"
| "sample_matches WstringSchema n smask (SWstring s) = str_ok s"
| "sample_matches NumericAggregatedSchema n smask (SNumericAggregated m vs) =
     (m = smask \<and> length vs = count_ones smask)"
| "sample_matches _ n smask _ = False"

lemma agg_sample_yields:
  assumes "agg_size_ok schema sample_size smask" "length slot = unat sample_size"
  shows "yields (agg_sample schema smask slot) (sample_matches schema (unat sample_size) smask)"
proof (cases schema)
  case BoolSchema
  then have "0 < length slot" using assms by (simp add: agg_size_ok_def)
  then show ?thesis using BoolSchema by (simp add: agg_sample_def at_u8_Ok yields_def)
next
  case StringSchema
  then show ?thesis
    using name_end_le [of slot "length slot"] by (simp add: agg_sample_def slice_def yields_def)
next
  case NumericAggregatedSchema
  then have n: "length slot = count_ones smask * 8"
    using assms by (simp add: agg_size_ok_def Let_def)
  have "yields (for_res 0 (count_ones smask) (\<lambda>k. at_u64 slot (k * 8)))
      (\<lambda>xs. length xs = count_ones smask \<and> list_all (\<lambda>_. True) xs)"
  proof (rule yields_for)
    fix j assume "j < 0 + count_ones smask"
    then have "Suc j * 8 \<le> count_ones smask * 8" by (intro mult_le_mono1) simp
    then show "yields (at_u64 slot (j * 8)) (\<lambda>_. True)"
      using n by (simp add: at_u64_Ok yields_def)
  qed
  then show ?thesis
    using NumericAggregatedSchema
    by (simp add: agg_sample_def) (erule yields_bind, simp add: yields_def)
qed (use assms in \<open>simp_all add: agg_sample_def agg_size_ok_def at_u64_Ok yields_def\<close>)

definition slot_ok :: "metric_body_schema \<Rightarrow> nat \<Rightarrow> u8 \<Rightarrow> bool \<Rightarrow> bool \<Rightarrow> agg_slot_value \<Rightarrow> bool" where
  "slot_ok schema n smask has_ts has_ts_dc v \<longleftrightarrow>
     sample_matches schema n smask (av_sample v) \<and>
     (av_cycle_offset v \<noteq> None \<longleftrightarrow> has_ts) \<and> (av_dc_time v \<noteq> None \<longleftrightarrow> \<not> has_ts \<and> has_ts_dc)"

lemma agg_slot_yields:
  assumes size: "agg_size_ok schema sample_size smask"
    and stride: "slot_stride = unat sample_size + ts_prefix" "i * slot_stride + slot_stride \<le> length body"
    and ts: "has_ts \<longrightarrow> 2 \<le> ts_prefix" "\<not> has_ts \<and> has_ts_dc \<longrightarrow> 8 \<le> ts_prefix"
  shows "yields (agg_slot schema smask (unat sample_size) has_ts has_ts_dc ts_prefix slot_stride body i)
           (slot_ok schema (unat sample_size) smask has_ts has_ts_dc)"
proof -
  let ?b = "i * slot_stride"
  have 1: "yields (if has_ts then bind_res (at_u16 body ?b) (\<lambda>c. Ok (Some c)) else Ok None)
      (\<lambda>c. c \<noteq> None \<longleftrightarrow> has_ts)"
    using stride ts by (auto simp: at_u16_Ok yields_def)
  have 2: "yields (if \<not> has_ts \<and> has_ts_dc then bind_res (at_i64 body ?b) (\<lambda>c. Ok (Some c)) else Ok None)
      (\<lambda>c. c \<noteq> None \<longleftrightarrow> \<not> has_ts \<and> has_ts_dc)"
    using stride ts by (auto simp: at_i64_Ok yields_def)
  show ?thesis
    unfolding agg_slot_def Let_def
    by (rule yields_bind [OF 1] yields_bind [OF 2] yields_bind [OF agg_sample_yields [OF size]] yields_intros
      | use stride in \<open>force simp: slot_ok_def\<close>)+
qed

definition slots_ok ::
    "metric_body_schema \<Rightarrow> nat \<Rightarrow> u8 \<Rightarrow> u8 \<Rightarrow> nat \<Rightarrow> agg_slot_value list \<Rightarrow> bool" where
  "slots_ok schema n smask flags cnt slots \<longleftrightarrow>
     length slots = cnt \<and>
     \<not> (flags AND METRIC_FLAG_HAS_SAMPLE_TS \<noteq> 0 \<and> flags AND METRIC_FLAG_HAS_SAMPLE_TS_DC \<noteq> 0) \<and>
     list_all (slot_ok schema n smask (flags AND METRIC_FLAG_HAS_SAMPLE_TS \<noteq> 0)
       (flags AND METRIC_FLAG_HAS_SAMPLE_TS_DC \<noteq> 0)) slots"

lemma agg_body_yields:
  assumes size: "agg_size_ok schema sample_size smask"
  shows "yields (agg_body bytes offset schema flags smask (unat sample_size) cnt)
           (slots_ok schema (unat sample_size) smask flags cnt)"
proof -
  let ?ts = "flags AND METRIC_FLAG_HAS_SAMPLE_TS \<noteq> 0"
  let ?dc = "flags AND METRIC_FLAG_HAS_SAMPLE_TS_DC \<noteq> 0"
  let ?p = "if ?ts then METRIC_SAMPLE_TS_SIZE else if ?dc then METRIC_SAMPLE_TS_DC_SIZE else 0"
  have c: "yields (checked n) (\<lambda>m. m = n)" for n
    by (simp add: checked_def yields_def)
  have f: "yields (for_res 0 cnt (agg_slot schema smask (unat sample_size) ?ts ?dc ?p stride body))
      (\<lambda>xs. length xs = cnt \<and> list_all (slot_ok schema (unat sample_size) smask ?ts ?dc) xs)"
    if s: "stride = unat sample_size + ?p" and b: "length body = cnt * stride" for stride body
  proof (rule yields_for)
    fix j assume "j < 0 + cnt"
    then have "Suc j * stride \<le> cnt * stride" by (intro mult_le_mono1) simp
    then show "yields (agg_slot schema smask (unat sample_size) ?ts ?dc ?p stride body j)
        (slot_ok schema (unat sample_size) smask ?ts ?dc)"
      using b by (intro agg_slot_yields [OF size s]) (simp_all add: push_sizes)
  qed
  show ?thesis
    unfolding agg_body_def Let_def
    by (rule yields_bind [OF c] yields_intros yields_mono [OF f] | simp add: slots_ok_def)+
qed

definition ids_ok :: "u8 \<Rightarrow> u8 list option \<times> u8 list option \<Rightarrow> bool" where
  "ids_ok flags ids \<longleftrightarrow>
     (if flags AND METRIC_FLAG_HAS_TRACE_CTX \<noteq> 0
      then (\<exists>t s. ids = (Some t, Some s) \<and> length t = 16 \<and> length s = 8) else ids = (None, None))"

lemma agg_trace_yields:
  "offset \<le> length bytes \<Longrightarrow>
   yields (agg_trace bytes flags offset) (\<lambda>(ids, o'). ids_ok flags ids \<and> o' \<le> length bytes)"
  unfolding agg_trace_def by (rule yields_intros | force simp: ids_ok_def push_sizes)+

lemma agg_namespace_yields:
  "offset \<le> length bytes \<Longrightarrow>
   yields (agg_namespace bytes flags offset) (\<lambda>(s, o'). str_ok s \<and> length s \<le> 255 \<and> o' \<le> length bytes)"
proof -
  assume o: "offset \<le> length bytes"
  have "yields (take_utf8 bytes off (unat (n :: u8))) (\<lambda>(s, o'). str_ok s \<and> length s \<le> 255 \<and> o' \<le> length bytes)" for off n
  proof -
    have "unat n \<le> 255" using unat_u8_less [of n] by linarith
    then show ?thesis using take_utf8_yields [of bytes off "unat n"] by (auto simp: yields_def)
  qed
  then show ?thesis
    using o unfolding agg_namespace_def by - (rule yields_intros | simp)+
qed

definition aggregate_ok :: "u8 list \<Rightarrow> diag_event \<Rightarrow> bool" where
  "aggregate_ok bytes ev \<longleftrightarrow>
     (\<exists>b. ev = MetricAggregateBatch b \<and>
        length (ma_samples b) = unat (u32_from_le (bytes_at 8 4 bytes)) \<and>
        list_all (sample_matches (ma_body_schema b) (unat (ma_sample_size b)) (ma_stat_mask b)) (ma_samples b) \<and>
        agg_size_ok (ma_body_schema b) (ma_sample_size b) (ma_stat_mask b) \<and>
        str_ok (ma_name b) \<and> str_ok (ma_unit b) \<and> str_ok (ma_scope_namespace b) \<and>
        ids_ok (ma_flags b) (ma_trace_id b, ma_span_id b) \<and>
        (case ma_sample_cycle_offsets b of None \<Rightarrow> True | Some xs \<Rightarrow> length xs = length (ma_samples b)) \<and>
        (case ma_sample_dc_times b of None \<Rightarrow> True | Some xs \<Rightarrow> length xs = length (ma_samples b)) \<and>
        (ma_sample_cycle_offsets b = None \<or> ma_sample_dc_times b = None))"

lemma length_map_filter_all:
  "list_all (\<lambda>x. f x \<noteq> None) xs \<Longrightarrow> length (List.map_filter f xs) = length xs"
  by (induction xs) (auto simp: map_filter_simps)

lemma slots_offsets:
  assumes "slots_ok schema n smask flags cnt slots"
  shows "flags AND METRIC_FLAG_HAS_SAMPLE_TS \<noteq> 0 \<Longrightarrow> length (List.map_filter av_cycle_offset slots) = cnt"
    and "flags AND METRIC_FLAG_HAS_SAMPLE_TS_DC \<noteq> 0 \<Longrightarrow> length (List.map_filter av_dc_time slots) = cnt"
    and "list_all (sample_matches schema n smask) (map av_sample slots)" "length slots = cnt"
    and "\<not> (flags AND METRIC_FLAG_HAS_SAMPLE_TS \<noteq> 0 \<and> flags AND METRIC_FLAG_HAS_SAMPLE_TS_DC \<noteq> 0)"
proof -
  have all: "list_all (slot_ok schema n smask (flags AND METRIC_FLAG_HAS_SAMPLE_TS \<noteq> 0)
       (flags AND METRIC_FLAG_HAS_SAMPLE_TS_DC \<noteq> 0)) slots" and len: "length slots = cnt"
    and ex: "\<not> (flags AND METRIC_FLAG_HAS_SAMPLE_TS \<noteq> 0 \<and> flags AND METRIC_FLAG_HAS_SAMPLE_TS_DC \<noteq> 0)"
    using assms by (simp_all add: slots_ok_def)
  show "flags AND METRIC_FLAG_HAS_SAMPLE_TS \<noteq> 0 \<Longrightarrow> length (List.map_filter av_cycle_offset slots) = cnt"
    unfolding len [symmetric]
    by (rule length_map_filter_all) (use all in \<open>auto simp: slot_ok_def list_all_iff\<close>)
  show "flags AND METRIC_FLAG_HAS_SAMPLE_TS_DC \<noteq> 0 \<Longrightarrow> length (List.map_filter av_dc_time slots) = cnt"
    unfolding len [symmetric]
    by (rule length_map_filter_all) (use all ex in \<open>auto simp: slot_ok_def list_all_iff\<close>)
  show "list_all (sample_matches schema n smask) (map av_sample slots)"
    using all by (auto simp: slot_ok_def list_all_iff)
qed (use assms in \<open>simp_all add: slots_ok_def\<close>)

lemma aggregate_okI:
  assumes "slots_ok schema (unat sample_size) smask flags (unat (u32_from_le (bytes_at 8 4 bytes))) slots"
    and "agg_size_ok schema sample_size smask" "ids_ok flags ids"
    and "str_ok name" "str_ok unit_str" "str_ok ns"
  shows "aggregate_ok bytes (MetricAggregateBatch
           \<lparr>ma_metric_id = metric_id, ma_task_index = task_index, ma_flags = flags,
            ma_body_schema = schema, ma_sample_size = sample_size, ma_stat_mask = smask,
            ma_cycle_count_start = cs, ma_cycle_count_end = ce, ma_dc_time_start = ds,
            ma_dc_time_end = de, ma_name = name, ma_unit = unit_str,
            ma_scope_namespace = ns, ma_trace_id = fst ids, ma_span_id = snd ids,
            ma_samples = map av_sample slots,
            ma_sample_cycle_offsets =
              (if flags AND METRIC_FLAG_HAS_SAMPLE_TS \<noteq> 0
               then Some (List.map_filter av_cycle_offset slots) else None),
            ma_sample_dc_times =
              (if flags AND METRIC_FLAG_HAS_SAMPLE_TS_DC \<noteq> 0
               then Some (List.map_filter av_dc_time slots) else None)\<rparr>)"
  using slots_offsets [OF assms(1)] assms(2-) by (auto simp: aggregate_ok_def)

lemma decode_metric_aggregate_yields: "yields (decode_metric_aggregate bytes) (aggregate_ok bytes)"
proof (cases "length bytes < 52")
  case False
  then have len: "0 < length bytes" "1 < length bytes" "2 < length bytes" "3 < length bytes"
    "4 + 4 \<le> length bytes" "8 + 4 \<le> length bytes" "12 + 4 \<le> length bytes" "16 < length bytes"
    "17 < length bytes" "20 + 4 \<le> length bytes" "24 + 4 \<le> length bytes" "32 + 8 \<le> length bytes"
    "40 + 8 \<le> length bytes" "48 < length bytes" "49 < length bytes" "52 \<le> length bytes"
    by linarith+
  show ?thesis
    unfolding decode_metric_aggregate_def push_sizes at_u8_Ok [OF len(1)] at_u8_Ok [OF len(2)]
      at_u8_Ok [OF len(3)] at_u8_Ok [OF len(4)] at_u32_Ok [OF len(5)] at_u32_Ok [OF len(6)]
      at_u32_Ok [OF len(7)] at_u8_Ok [OF len(8)] at_u8_Ok [OF len(9)] at_u32_Ok [OF len(10)]
      at_u32_Ok [OF len(11)] at_i64_Ok [OF len(12)] at_i64_Ok [OF len(13)] at_u8_Ok [OF len(14)]
      at_u8_Ok [OF len(15)] bind_res.simps
    by (rule yields_bind [OF agg_trace_yields [OF len(16)]] take_utf8_bind
          yields_bind [OF agg_namespace_yields] yields_bind [OF agg_body_yields] yields_intros
          aggregate_okI | simp)+
qed (simp add: decode_metric_aggregate_def yields_def push_sizes)

section \<open>Properties\<close>

text \<open>
  Per-task diagnostic batches: the decoder inverts the wire format. A batch with a task name of
  at most 20 bytes and at most 1024 samples, written as 80 header bytes and 24 bytes per sample,
  is decoded to the same batch with all its samples in order.
\<close>

theorem decode_batch_roundtrip:
  assumes "batch_ok b"
  shows "decode_batch (batch_enc b) = Ok (TaskDiagBatch b)"
  using batch_of_enc [OF assms] by (simp add: decode_batch_eq)

definition sample_batch :: task_diag_batch where
  "sample_batch =
     \<lparr>tb_task_port = 350, tb_task_name = ''PlcTask'', tb_task_obj_id = 5, tb_window_ms = 100,
      tb_cycle_count_start = 10, tb_cycle_count_end = 11, tb_dc_time_start = 1000,
      tb_dc_time_end = 2000, tb_exec_time_min_us = 3, tb_exec_time_max_us = 9,
      tb_exec_time_avg_us = 6, tb_cycle_exceed_count = 1, tb_rt_violation_count = 0,
      tb_samples =
        [\<lparr>ds_cycle_count = 10, ds_exec_time_us = 3, ds_dc_time = 1000, ds_flags = 0\<rparr>,
         \<lparr>ds_cycle_count = 11, ds_exec_time_us = 9, ds_dc_time = 2000, ds_flags = 1\<rparr>]\<rparr>"

theorem decode_batch_roundtrip_witness:
  "decode_batch (batch_enc sample_batch) = Ok (TaskDiagBatch sample_batch)"
proof (rule decode_batch_roundtrip)
  have "utf8_valid (bytes_of_str ''PlcTask'')"
    by (rule utf8_valid_ascii) (simp add: bytes_of_str_def)
  then show "batch_ok sample_batch"
    by (simp add: batch_ok_def sample_batch_def str_ok_def i64_range_def bytes_of_str_def)
qed


definition empty_metric_batch :: "u8 list" where
  "empty_metric_batch = [2, 20] @ replicate 30 0"

definition bool_aggregate :: "u8 list" where
  "bool_aggregate = [2, 21, 0, 1, 1, 0, 0, 0, 1, 0, 0, 0] @ replicate 40 0 @ [1]"

lemma from_le_zeros [simp]: "from_le (replicate n 0) = 0"
  by (induction n) auto


end
