(* ===== verification/Registry.thy ===== *)
theory Registry
  imports Protocol
begin

text \<open>
  The task registry, \<^verbatim>\<open>tc-otel-ads/src/registry.rs\<close>: a map from (AMS net id, source port, task
  index) to the metadata of a registration. The lock around the map is left out: every operation is
  one critical section. \<open>lookup_partial\<close> scans the map in its unspecified iteration order, which is
  an argument. The locale \<open>metadata_store\<close> is what the router relies on.
\<close>

type_synonym registry = "(registration_key, task_metadata) hmap"

definition registry_new :: registry where
  "registry_new = []"

definition register :: "registration_key \<Rightarrow> task_metadata \<Rightarrow> registry \<Rightarrow> registry" where
  "register k m r = hm_insert k m r"

definition lookup :: "registry \<Rightarrow> registration_key \<Rightarrow> task_metadata option" where
  "lookup r k = hm_get r k"

definition key_matches ::
    "string \<Rightarrow> u16 option \<Rightarrow> u8 option \<Rightarrow> registration_key \<Rightarrow> bool" where
  "key_matches net port task k \<longleftrightarrow>
     rk_ams_net_id k = net \<and>
     (case port of None \<Rightarrow> True | Some p \<Rightarrow> rk_ams_source_port k = p) \<and>
     (case task of None \<Rightarrow> True | Some t \<Rightarrow> rk_task_index k = t)"

definition lookup_partial ::
    "(registration_key, task_metadata) iter \<Rightarrow> registry \<Rightarrow> string \<Rightarrow> u16 option \<Rightarrow> u8 option
     \<Rightarrow> (registration_key \<times> task_metadata) option" where
  "lookup_partial ord r net port task = List.find (\<lambda>(k, v). key_matches net port task k) (ord r)"

definition lookup_by_task ::
    "(registration_key, task_metadata) iter \<Rightarrow> registry \<Rightarrow> string \<Rightarrow> u8
     \<Rightarrow> (registration_key \<times> task_metadata) option" where
  "lookup_by_task ord r net task = lookup_partial ord r net None (Some task)"

definition registry_len :: "registry \<Rightarrow> nat" where
  "registry_len r = length r"

definition registry_is_empty :: "registry \<Rightarrow> bool" where
  "registry_is_empty r \<longleftrightarrow> r = []"

definition all_tasks ::
    "(registration_key, task_metadata) iter \<Rightarrow> registry \<Rightarrow> (registration_key \<times> task_metadata) list" where
  "all_tasks ord r = ord r"

definition registry_clear :: "registry \<Rightarrow> registry" where
  "registry_clear r = []"

section \<open>The interface of a metadata store\<close>

locale metadata_store =
  fixes reg :: "'k \<Rightarrow> 'm \<Rightarrow> 'r \<Rightarrow> 'r" and look :: "'r \<Rightarrow> 'k \<Rightarrow> 'm option"
  assumes look_reg: "look (reg k m r) k' = (if k' = k then Some m else look r k')"
begin

text \<open>After a sequence of registrations the last one of a key counts; other keys are untouched.\<close>

lemma look_fold:
  "look (fold (\<lambda>x. reg (f x) (g x)) xs r) k =
     (case List.find (\<lambda>x. f x = k) (rev xs) of Some x \<Rightarrow> Some (g x) | None \<Rightarrow> look r k)"
proof (induction xs rule: rev_induct)
  case (snoc x xs)
  then show ?case by (simp add: look_reg)
qed simp

lemma look_fold_other: "\<forall>x\<in>set xs. f x \<noteq> k \<Longrightarrow> look (fold (\<lambda>x. reg (f x) (g x)) xs r) k = look r k"
  by (induction xs arbitrary: r) (auto simp: look_reg)

end

interpretation task_registry: metadata_store register lookup
  by unfold_locales (simp add: register_def lookup_def hm.get_insert)

lemma register_wf: "hm_wf r \<Longrightarrow> hm_wf (register k m r)"
  by (simp add: register_def)

section \<open>Properties\<close>

text \<open>
  A partial lookup finds a registration exactly when one matches the given components, in
  whatever order the map is scanned, and what it returns is a stored entry that matches.
\<close>

theorem lookup_partial_correct:
  assumes "iteration ord" "hm_wf r"
  shows "(lookup_partial ord r net port task = None \<longleftrightarrow>
            (\<forall>k m. lookup r k = Some m \<longrightarrow> \<not> key_matches net port task k)) \<and>
         (\<forall>k m. lookup_partial ord r net port task = Some (k, m) \<longrightarrow>
            lookup r k = Some m \<and> key_matches net port task k)"
proof -
  have mem: "(k, m) \<in> set (ord r) \<longleftrightarrow> lookup r k = Some m" for k m
    using assms by (simp add: iteration_set lookup_def hm_get_iff_mem)
  show ?thesis
    unfolding lookup_partial_def
    by (auto simp: find_None_iff find_Some_iff mem [symmetric]) (metis mem nth_mem)+
qed

definition sample_key :: registration_key where
  "sample_key = \<lparr>rk_ams_net_id = ''5.80.201.232.1.1'', rk_ams_source_port = 350, rk_task_index = 1\<rparr>"

definition sample_metadata :: task_metadata where
  "sample_metadata = \<lparr>tm_task_name = ''PlcTask'', tm_app_name = ''App'', tm_project_name = ''Line'',
     tm_online_change_count = 0, tm_app_port = 851\<rparr>"

theorem lookup_partial_correct_witness:
  "lookup_by_task (\<lambda>m. m) (register sample_key sample_metadata registry_new) ''5.80.201.232.1.1'' 1 =
     Some (sample_key, sample_metadata) \<and>
   lookup (register sample_key sample_metadata registry_new) sample_key = Some sample_metadata \<and>
   key_matches ''5.80.201.232.1.1'' None (Some 1) sample_key"
proof -
  let ?r = "register sample_key sample_metadata registry_new"
  have "lookup_partial (\<lambda>m. m) ?r ''5.80.201.232.1.1'' None (Some 1) = Some (sample_key, sample_metadata)"
    by (simp add: lookup_partial_def register_def registry_new_def hm_insert_def key_matches_def
        sample_key_def)
  moreover have "hm_wf ?r"
    by (simp add: register_wf registry_new_def)
  ultimately show ?thesis
    using lookup_partial_correct [OF iteration_id, of ?r "''5.80.201.232.1.1''" None "Some 1"]
    by (simp add: lookup_by_task_def)
qed

end
