(* ===== verification/Router.thy ===== *)
theory Router
  imports Wire Push Registry
begin

text \<open>
  The ADS router, \<^verbatim>\<open>tc-otel-ads/src/router.rs\<close>: one inbound AMS frame gives one response, and a
  write to the router's port is decoded into registrations, log entries, span events and push
  diagnostics. The channels are outputs: \<open>dispatch_out\<close> lists what the code offers to each channel
  with \<^verbatim>\<open>try_send\<close>, in order (a full channel drops the item, the code ignores the result). The
  UUIDs of new log entries and the host's own address are parameters.
\<close>

section \<open>State and effects\<close>

record ads_router =
  rt_ads_port :: u16
  rt_has_metric_tx :: bool
  rt_has_push_tx :: bool
  rt_has_trace_tx :: bool
  rt_registry :: registry

record router_env =
  env_ext :: ext
  env_uuid :: "nat \<Rightarrow> string"
  env_local_source_address :: string

record dispatch_out =
  out_logs :: "log_entry list"
  out_metrics :: "metric_entry list"
  out_push :: "(ams_net_id \<times> diag_event) list"
  out_traces :: "(ams_net_id \<times> u16 \<times> trace_wire_event) list"

definition no_out :: dispatch_out where
  "no_out = \<lparr>out_logs = [], out_metrics = [], out_push = [], out_traces = []\<rparr>"

definition router_new :: "u16 \<Rightarrow> bool \<Rightarrow> registry \<Rightarrow> ads_router" where
  "router_new ads_port has_metric_tx reg =
     \<lparr>rt_ads_port = ads_port, rt_has_metric_tx = has_metric_tx, rt_has_push_tx = False,
      rt_has_trace_tx = False, rt_registry = reg\<rparr>"

definition with_push_sender :: "ads_router \<Rightarrow> ads_router" where
  "with_push_sender rt = rt\<lparr>rt_has_push_tx := True\<rparr>"

definition with_trace_sender :: "ads_router \<Rightarrow> ads_router" where
  "with_trace_sender rt = rt\<lparr>rt_has_trace_tx := True\<rparr>"

definition build_response :: "ams_header \<Rightarrow> u8 list \<Rightarrow> u8 list" where
  "build_response h payload =
     (let rh = (ams_header_make_response h 0)\<lparr>data_length := of_nat (length payload), state_flags := 5\<rparr>
      in ams_header_serialize rh @ payload)"

section \<open>Writes\<close>

definition reg_key :: "string \<Rightarrow> u16 \<Rightarrow> u8 \<Rightarrow> registration_key" where
  "reg_key net port task =
     \<lparr>rk_ams_net_id = net, rk_ams_source_port = port, rk_task_index = task\<rparr>"

definition reg_metadata :: "registration_message \<Rightarrow> task_metadata" where
  "reg_metadata g =
     \<lparr>tm_task_name = rg_task_name g, tm_app_name = rg_app_name g,
      tm_project_name = rg_project_name g, tm_online_change_count = rg_online_change_count g,
      tm_app_port = rg_app_port g\<rparr>"

definition register_all :: "string \<Rightarrow> u16 \<Rightarrow> registration_message list \<Rightarrow> registry \<Rightarrow> registry" where
  "register_all net port gs r =
     fold (\<lambda>g. register (reg_key net port (rg_task_index g)) (reg_metadata g)) gs r"

definition enrich_entry :: "registry \<Rightarrow> string \<Rightarrow> u16 \<Rightarrow> ads_log_entry \<Rightarrow> ads_log_entry \<times> u16" where
  "enrich_entry r net port e =
     (if al_version e = V2 then
        (case lookup r (reg_key net port (word_of_int (al_task_index e))) of
           Some m \<Rightarrow>
             (e\<lparr>al_task_name := tm_task_name m, al_app_name := tm_app_name m,
                al_project_name := tm_project_name m,
                al_online_change_count := tm_online_change_count m\<rparr>, tm_app_port m)
         | None \<Rightarrow> (e, 0))
      else (e, 0))"

definition source_of :: "router_env \<Rightarrow> string option \<Rightarrow> string" where
  "source_of E peer = (case peer of Some p \<Rightarrow> p | None \<Rightarrow> env_local_source_address E)"

text \<open>
  The log entry built from an enriched wire entry. The constructor's own clock readings are
  overwritten by the timestamps of the wire entry.
\<close>

definition log_entry_of ::
    "router_env \<Rightarrow> string \<Rightarrow> u16 \<Rightarrow> string option \<Rightarrow> nat \<Rightarrow> ads_log_entry \<times> u16 \<Rightarrow> log_entry" where
  "log_entry_of E net port peer n ep =
     (let e = fst ep in
      (log_entry_new (env_uuid E n) (utc_now (env_ext E) 0) (utc_now (env_ext E) 0)
         (source_of E peer) '''' (al_message e) (al_logger e) (al_level e))
        \<lparr>le_plc_timestamp := al_plc_timestamp e, le_clock_timestamp := al_clock_timestamp e,
         le_task_index := al_task_index e, le_task_name := al_task_name e,
         le_task_cycle_counter := al_task_cycle_counter e, le_app_name := al_app_name e,
         le_project_name := al_project_name e,
         le_online_change_count := al_online_change_count e, le_arguments := al_arguments e,
         le_context := al_context e, le_ams_net_id := net, le_ams_source_port := port,
         le_ams_app_port := snd ep, le_trace_id := al_trace_id e, le_span_id := al_span_id e\<rparr>)"

definition logs_of ::
    "router_env \<Rightarrow> registry \<Rightarrow> string \<Rightarrow> u16 \<Rightarrow> string option \<Rightarrow> ads_log_entry list \<Rightarrow> log_entry list" where
  "logs_of E r net port peer es =
     map (\<lambda>(n, e). log_entry_of E net port peer n (enrich_entry r net port e)) (enumerate 0 es)"

definition dispatch_write_sync ::
    "router_env \<Rightarrow> ads_router \<Rightarrow> string \<Rightarrow> u16 \<Rightarrow> string option \<Rightarrow> u8 list
     \<Rightarrow> (ads_router \<times> dispatch_out) ads_result" where
  "dispatch_write_sync E rt net port peer data =
     (case parse_all (env_ext E) data of
        Ok pr \<Rightarrow>
          (let r = register_all net port (pr_registrations pr) (rt_registry rt);
               logs = logs_of E r net port peer (pr_entries pr);
               traces = (if rt_has_trace_tx rt then
                           (case net_id_from_str net of
                              Ok net_id \<Rightarrow> map (\<lambda>ev. (net_id, port, ev)) (pr_trace_events pr)
                            | _ \<Rightarrow> [])
                         else [])
           in Ok (rt\<lparr>rt_registry := r\<rparr>, no_out\<lparr>out_logs := logs, out_traces := traces\<rparr>))
      | Err _ \<Rightarrow> Ok (rt, no_out)
      | Panic \<Rightarrow> Panic)"

text \<open>The metric entry of the asynchronous write path, which no caller uses.\<close>

definition metric_entry_of ::
    "router_env \<Rightarrow> registry \<Rightarrow> string \<Rightarrow> u16 \<Rightarrow> string option \<Rightarrow> ads_metric_entry \<Rightarrow> metric_entry" where
  "metric_entry_of E r net port peer m =
     (let (task_name, app_name, project_name, app_port) =
            (case lookup r (reg_key net port (word_of_int (am_task_index m))) of
               Some t \<Rightarrow> (tm_task_name t, tm_app_name t, tm_project_name t, tm_app_port t)
             | None \<Rightarrow> ('''', '''', '''', 0))
      in \<lparr>me_name = am_name m, me_description = am_description m, me_unit = am_unit m,
          me_kind = am_kind m, me_value = am_value m, me_timestamp = am_timestamp m,
          me_source = source_of E peer, me_hostname = '''', me_ams_net_id = net,
          me_ams_source_port = port, me_ams_app_port = app_port, me_task_index = am_task_index m,
          me_task_name = task_name, me_task_cycle_counter = am_task_cycle_counter m,
          me_app_name = app_name, me_project_name = project_name, me_scope_namespace = '''',
          me_attributes = am_attributes m, me_histogram_bounds = am_histogram_bounds m,
          me_histogram_counts = am_histogram_counts m, me_histogram_count = am_histogram_count m,
          me_histogram_sum = am_histogram_sum m, me_is_monotonic = am_is_monotonic m,
          me_trace_id = no_trace, me_span_id = no_span\<rparr>)"

definition dispatch_write ::
    "router_env \<Rightarrow> ads_router \<Rightarrow> string \<Rightarrow> u16 \<Rightarrow> string option \<Rightarrow> u8 list
     \<Rightarrow> (ads_router \<times> dispatch_out) ads_result" where
  "dispatch_write E rt net port peer data =
     (case parse_all (env_ext E) data of
        Ok pr \<Rightarrow>
          (let r = register_all net port (pr_registrations pr) (rt_registry rt);
               logs = logs_of E r net port peer (pr_entries pr);
               metrics = (if rt_has_metric_tx rt
                          then map (metric_entry_of E r net port peer) (pr_metrics pr) else [])
           in Ok (rt\<lparr>rt_registry := r\<rparr>, no_out\<lparr>out_logs := logs, out_metrics := metrics\<rparr>))
      | Err _ \<Rightarrow> Ok (rt, no_out)
      | Panic \<Rightarrow> Panic)"

section \<open>Frames\<close>

text \<open>A write to the push-diagnostic index group.\<close>

definition dispatch_push ::
    "ads_router \<Rightarrow> ams_header \<Rightarrow> ads_write_request \<Rightarrow> (ads_router \<times> dispatch_out) ads_result" where
  "dispatch_push rt h wr =
     (let ev = (if index_offset wr = IO_PUSH_BATCH then decode_batch (write_data wr)
                else if index_offset wr = IO_PUSH_METRIC_AGG then decode_metric_aggregate (write_data wr)
                else Err ())
      in case ev of
           Ok e \<Rightarrow> Ok (rt, if rt_has_push_tx rt then no_out\<lparr>out_push := [(source_net_id h, e)]\<rparr> else no_out)
         | Err _ \<Rightarrow> Ok (rt, no_out)
         | Panic \<Rightarrow> Panic)"

definition handle_write ::
    "router_env \<Rightarrow> ads_router \<Rightarrow> ams_header \<Rightarrow> string option \<Rightarrow> u8 list
     \<Rightarrow> (ads_router \<times> dispatch_out) ads_result" where
  "handle_write E rt h peer payload =
     (case ads_write_request_parse payload of
        Ok wr \<Rightarrow>
          (if target_port h = rt_ads_port rt then
             (if index_group wr = IG_PUSH_DIAG then dispatch_push rt h wr
              else dispatch_write_sync E rt (show_net_id (source_net_id h)) (source_port h) peer
                     (write_data wr))
           else Ok (rt, no_out))
      | Err _ \<Rightarrow> Ok (rt, no_out)
      | Panic \<Rightarrow> Panic)"

definition device_info :: "u8 list" where
  "device_info = u32_to_le 0 @ [0, 1] @ u16_to_le 1 @ bytes_of_str ''tc-otel'' @ replicate 9 0"

definition read_reply :: "u8 list \<Rightarrow> u8 list" where
  "read_reply frame =
     (let read_len = (if length frame \<ge> 44 then u32_at 40 frame else 0)
      in u32_to_le 0 @ u32_to_le read_len @ replicate (unat read_len) 0)"

definition reply_payload :: "u16 \<Rightarrow> u8 list \<Rightarrow> u8 list" where
  "reply_payload cmd frame =
     (if cmd = ADS_CMD_READ_STATE then [0, 0, 0, 0, 5, 0, 0, 0]
      else if cmd = ADS_CMD_READ_DEVICE_INFO then device_info
      else if cmd = ADS_CMD_READ then read_reply frame
      else if cmd = ADS_CMD_WRITE then [0, 0, 0, 0]
      else if cmd = ADS_CMD_READ_WRITE then u32_to_le ADSERR_DEVICE_SRVNOTSUPP @ u32_to_le 0
      else if cmd = ADS_CMD_WRITE_CONTROL then u32_to_le ADSERR_DEVICE_SRVNOTSUPP
      else if cmd = ADS_CMD_ADD_NOTIFICATION then u32_to_le ADSERR_DEVICE_SRVNOTSUPP @ u32_to_le 0
      else u32_to_le ADSERR_DEVICE_SRVNOTSUPP)"

definition dispatch ::
    "router_env \<Rightarrow> ads_router \<Rightarrow> u8 list \<Rightarrow> string option
     \<Rightarrow> (u8 list option \<times> ads_router \<times> dispatch_out) ads_result" where
  "dispatch E rt frame peer =
     (if length frame < 32 then Err (ParseError ''AMS frame too short'')
      else
        bind_res (ams_header_parse frame) (\<lambda>h.
          let response = build_response h (reply_payload (command_id h) frame) in
          if command_id h = ADS_CMD_WRITE then
            bind_res (slice 32 (length frame) frame) (\<lambda>payload.
            bind_res (handle_write E rt h peer payload) (\<lambda>(rt', out).
              Ok (Some response, rt', out)))
          else Ok (Some response, rt, no_out)))"

section \<open>Responses\<close>

definition response_header :: "ams_header \<Rightarrow> nat \<Rightarrow> ams_header" where
  "response_header h n =
     \<lparr>target_net_id = source_net_id h, target_port = source_port h,
      source_net_id = target_net_id h, source_port = target_port h, command_id = command_id h,
      state_flags = 5, data_length = of_nat n, error_code = 0, invoke_id = invoke_id h\<rparr>"

lemma parse_build_response:
  "ams_header_parse (build_response h p) = Ok (response_header h (length p))"
  "drop 32 (build_response h p) = p"
  by (simp_all add: build_response_def header.dec_append Let_def response_header_def
      ams_header_make_response_def)

lemma length_reply_payload:
  "length (reply_payload cmd frame) =
     (if cmd = ADS_CMD_READ \<and> length frame \<ge> 44 then 8 + unat (u32_at 40 frame)
      else if cmd = ADS_CMD_READ_DEVICE_INFO then 24
      else if cmd \<in> {ADS_CMD_READ_STATE, ADS_CMD_READ, ADS_CMD_READ_WRITE, ADS_CMD_ADD_NOTIFICATION}
      then 8 else 4)"
  by (simp add: reply_payload_def read_reply_def device_info_def ads_consts bytes_of_str_def Let_def)

section \<open>Where the effects of a frame go\<close>

text \<open>
  What a frame with header \<open>h\<close> may do: registrations of its own source only, outputs tagged with
  its own source only, nothing else of the router changed.
\<close>

definition keeps_to_source :: "ams_header \<Rightarrow> ads_router \<Rightarrow> ads_router \<times> dispatch_out \<Rightarrow> bool" where
  "keeps_to_source h rt = (\<lambda>(rt', out).
     rt' = rt\<lparr>rt_registry := rt_registry rt'\<rparr> \<and>
     (\<forall>k. rk_ams_net_id k \<noteq> show_net_id (source_net_id h) \<or> rk_ams_source_port k \<noteq> source_port h \<longrightarrow>
        lookup (rt_registry rt') k = lookup (rt_registry rt) k) \<and>
     (hm_wf (rt_registry rt) \<longrightarrow> hm_wf (rt_registry rt')) \<and>
     (\<forall>le\<in>set (out_logs out). le_ams_net_id le = show_net_id (source_net_id h) \<and>
        le_ams_source_port le = source_port h) \<and>
     (\<forall>(n, p, ev)\<in>set (out_traces out). n = source_net_id h \<and> p = source_port h) \<and>
     (\<forall>(n, ev)\<in>set (out_push out). n = source_net_id h) \<and>
     out_metrics out = [])"

lemma keeps_to_source_none: "keeps_to_source h rt (rt, no_out)"
  by (simp add: keeps_to_source_def no_out_def)

lemma lookup_register_all:
  "lookup (register_all net port gs r) k =
     (if rk_ams_net_id k = net \<and> rk_ams_source_port k = port then
        (case List.find (\<lambda>g. rg_task_index g = rk_task_index k) (rev gs) of
           Some g \<Rightarrow> Some (reg_metadata g) | None \<Rightarrow> lookup r k)
      else lookup r k)"
proof -
  have eq: "(\<lambda>g. reg_key net port (rg_task_index g) = k) =
      (\<lambda>g. rk_ams_net_id k = net \<and> rk_ams_source_port k = port \<and> rg_task_index g = rk_task_index k)"
    by (auto simp: reg_key_def)
  have "List.find (\<lambda>g. False) xs = None" for xs :: "registration_message list"
    by (simp add: find_None_iff)
  then show ?thesis
    unfolding register_all_def task_registry.look_fold eq by auto
qed

lemma lookup_register_own:
  "lookup (register_all net port gs r) (reg_key net port task) =
     (case List.find (\<lambda>g. rg_task_index g = task) (rev gs) of
        Some g \<Rightarrow> Some (reg_metadata g) | None \<Rightarrow> lookup r (reg_key net port task))"
proof -
  have "rk_ams_net_id (reg_key net port task) = net" "rk_ams_source_port (reg_key net port task) = port"
    "rk_task_index (reg_key net port task) = task"
    by (simp_all add: reg_key_def)
  then show ?thesis by (simp only: lookup_register_all simp_thms if_True)
qed

lemma register_all_wf: "hm_wf r \<Longrightarrow> hm_wf (register_all net port gs r)"
  unfolding register_all_def by (induction gs arbitrary: r) (simp_all add: register_wf)

lemma log_entry_of_source [simp]:
  "le_ams_net_id (log_entry_of E net port peer n ep) = net"
  "le_ams_source_port (log_entry_of E net port peer n ep) = port"
  by (simp_all add: log_entry_of_def Let_def)

lemma logs_of_source:
  "le \<in> set (logs_of E r net port peer es) \<Longrightarrow> le_ams_net_id le = net \<and> le_ams_source_port le = port"
  by (auto simp: logs_of_def)

lemma dispatch_write_sync_yields:
  assumes "\<not> overflow_checks (env_ext E)"
  shows "\<exists>res. dispatch_write_sync E rt (show_net_id (source_net_id h)) (source_port h) peer data = Ok res
           \<and> keeps_to_source h rt res"
proof (cases "parse_all (env_ext E) data")
  case (Ok pr)
  let ?net = "show_net_id (source_net_id h)"
  let ?r = "register_all ?net (source_port h) (pr_registrations pr) (rt_registry rt)"
  let ?out = "no_out\<lparr>out_logs := logs_of E ?r ?net (source_port h) peer (pr_entries pr),
      out_traces := if rt_has_trace_tx rt
        then map (\<lambda>ev. (source_net_id h, source_port h, ev)) (pr_trace_events pr) else []\<rparr>"
  have "dispatch_write_sync E rt ?net (source_port h) peer data = Ok (rt\<lparr>rt_registry := ?r\<rparr>, ?out)"
    using Ok by (simp add: dispatch_write_sync_def Let_def net_id_from_show)
  moreover have "keeps_to_source h rt (rt\<lparr>rt_registry := ?r\<rparr>, ?out)"
    by (auto simp: keeps_to_source_def no_out_def lookup_register_all register_all_wf
        dest: logs_of_source)
  ultimately show ?thesis by blast
next
  case (Err e)
  then show ?thesis by (simp add: dispatch_write_sync_def keeps_to_source_none)
next
  case Panic
  then show ?thesis using parse_all_cases [OF assms, of data] by simp
qed

lemma dispatch_push_yields: "\<exists>res. dispatch_push rt h wr = Ok res \<and> keeps_to_source h rt res"
proof -
  have "decode_batch (write_data wr) \<noteq> Panic" "decode_metric_aggregate (write_data wr) \<noteq> Panic"
    using decode_metric_aggregate_yields [of "write_data wr"] by (simp_all add: yields_def decode_batch_eq)
  then show ?thesis
    unfolding dispatch_push_def Let_def
    by (auto simp: keeps_to_source_none keeps_to_source_def no_out_def split: res.splits)
qed

lemma handle_write_yields:
  assumes "\<not> overflow_checks (env_ext E)"
  shows "\<exists>res. handle_write E rt h peer payload = Ok res \<and> keeps_to_source h rt res"
proof -
  have "ads_write_request_parse payload \<noteq> Panic"
    by (simp add: ads_write_request_parse_def Let_def)
  then show ?thesis
    using dispatch_write_sync_yields [OF assms, of rt h peer] dispatch_push_yields [of rt h]
      keeps_to_source_none
    by (auto simp: handle_write_def split: res.split)
qed

lemma dispatch_eq:
  assumes "ams_header_parse frame = Ok h"
  shows "dispatch E rt frame peer =
     (if command_id h = ADS_CMD_WRITE then
        bind_res (handle_write E rt h peer (drop 32 frame)) (\<lambda>(rt', out).
          Ok (Some (build_response h [0, 0, 0, 0]), rt', out))
      else Ok (Some (build_response h (reply_payload (command_id h) frame)), rt, no_out))"
proof -
  have "32 \<le> length frame" using assms by (simp add: header.dec_Ok_iff)
  then have "\<not> length frame < 32" "(slice 32 (length frame) frame :: u8 list ads_result) = Ok (drop 32 frame)"
    by (simp_all add: slice_def)
  then show ?thesis
    using assms by (simp add: dispatch_def Let_def reply_payload_def ads_consts)
qed

section \<open>Messages of a write\<close>

fun msg_entry :: "wire_msg \<Rightarrow> ads_log_entry option" where
  "msg_entry (WLog w) = Some (wire_log_entry no_trace no_span w)"
| "msg_entry (WTraced t s w) = Some (wire_log_entry t s w)"
| "msg_entry _ = None"

fun msg_registration :: "wire_msg \<Rightarrow> registration_message option" where
  "msg_registration (WReg g) = Some g"
| "msg_registration _ = None"

fun msg_event :: "wire_msg \<Rightarrow> trace_wire_event option" where
  "msg_event (WEvent ev) = Some ev"
| "msg_event _ = None"

lemma fold_wire_push:
  "pr_entries (fold wire_push ms acc) = pr_entries acc @ List.map_filter msg_entry ms"
  "pr_registrations (fold wire_push ms acc) = pr_registrations acc @ List.map_filter msg_registration ms"
  "pr_trace_events (fold wire_push ms acc) = pr_trace_events acc @ List.map_filter msg_event ms"
proof (induction ms arbitrary: acc)
  case (Cons m ms)
  { case 1 show ?case using Cons by (cases m) (simp_all add: push_defs map_filter_simps) }
  { case 2 show ?case using Cons by (cases m) (simp_all add: push_defs map_filter_simps) }
  { case 3 show ?case using Cons by (cases m) (simp_all add: push_defs map_filter_simps) }
qed (simp_all add: map_filter_simps)

text \<open>The log entry that a wire entry becomes, with the metadata of its task filled in.\<close>

definition enriched :: "task_metadata option \<Rightarrow> ads_log_entry \<Rightarrow> log_entry \<Rightarrow> bool" where
  "enriched md e le \<longleftrightarrow>
     le_message le = al_message e \<and> le_logger le = al_logger e \<and> le_level le = al_level e \<and>
     le_plc_timestamp le = al_plc_timestamp e \<and> le_clock_timestamp le = al_clock_timestamp e \<and>
     le_arguments le = al_arguments e \<and> le_context le = al_context e \<and>
     le_task_index le = al_task_index e \<and> le_task_cycle_counter le = al_task_cycle_counter e \<and>
     le_trace_id le = al_trace_id e \<and> le_span_id le = al_span_id e \<and>
     (case md of
        Some m \<Rightarrow> le_task_name le = tm_task_name m \<and> le_app_name le = tm_app_name m \<and>
          le_project_name le = tm_project_name m \<and>
          le_online_change_count le = tm_online_change_count m \<and> le_ams_app_port le = tm_app_port m
      | None \<Rightarrow> le_task_name le = al_task_name e \<and> le_app_name le = al_app_name e \<and>
          le_project_name le = al_project_name e \<and>
          le_online_change_count le = al_online_change_count e \<and> le_ams_app_port le = 0)"

lemma enriched_logs_of:
  assumes "list_all (\<lambda>e. al_version e = V2) es"
  shows "list_all2 (\<lambda>e. enriched (lookup r (reg_key net port (word_of_int (al_task_index e)))) e)
           es (logs_of E r net port peer es)"
proof -
  have "enriched (lookup r (reg_key net port (word_of_int (al_task_index e)))) e
      (log_entry_of E net port peer n (enrich_entry r net port e))" if "al_version e = V2" for e n
    using that
    by (simp add: enriched_def log_entry_of_def enrich_entry_def log_entry_new_def Let_def
        split: option.split)
  then show ?thesis
    using assms by (simp add: logs_of_def list_all2_conv_all_nth list_all_length nth_enumerate_eq)
qed

lemma msg_entries_V2: "list_all (\<lambda>e. al_version e = V2) (List.map_filter msg_entry ms)"
  by (induction ms rule: list.induct, simp add: map_filter_simps, rename_tac m ms, case_tac m)
     (simp_all add: map_filter_simps wire_log_entry_def)

lemma handle_write_request:
  assumes "length (write_data wr) < 2 ^ 32" "target_port h = rt_ads_port rt" "index_group wr \<noteq> IG_PUSH_DIAG"
  shows "handle_write E rt h peer (ads_write_request_serialize wr @ rest) =
     dispatch_write_sync E rt (show_net_id (source_net_id h)) (source_port h) peer (write_data wr)"
  using assms by (simp add: handle_write_def ads_write_request_append)

section \<open>Properties\<close>

text \<open>
  In a build without overflow checks every frame that holds an AMS header is answered, and
  nothing else is: the answer goes back to the sender with both addresses swapped and the invoke
  id of the request, its length field is the length of its payload modulo \<open>2^32\<close>, and it is the exact
  length for every request but a read that announces almost the full 32-bit range. A frame below
  32 bytes is refused.
\<close>

theorem dispatch_answers:
  assumes "\<not> overflow_checks (env_ext E)"
  shows "if length frame < 32 then \<exists>e. dispatch E rt frame peer = Err e
         else \<exists>h resp rt' out. ams_header_parse frame = Ok h \<and>
           dispatch E rt frame peer = Ok (Some resp, rt', out) \<and>
           ams_header_parse resp = Ok (response_header h (length resp - 32)) \<and>
           (length resp - 32 < 2 ^ 32 \<or>
              command_id h = ADS_CMD_READ \<and> unat (u32_at 40 frame) > 2 ^ 32 - 9)"
proof (cases "length frame < 32")
  case True
  then show ?thesis by (simp add: dispatch_def)
next
  case False
  then obtain h where h: "ams_header_parse frame = Ok h"
    using header.enc_dec [of frame] by auto
  obtain rt' out where "handle_write E rt h peer (drop 32 frame) = Ok (rt', out)"
    using handle_write_yields [OF assms] by fast
  then obtain p rt' out where d: "dispatch E rt frame peer = Ok (Some (build_response h p), rt', out)"
    and p: "p = reply_payload (command_id h) frame"
    by (cases "command_id h = ADS_CMD_WRITE") (auto simp: dispatch_eq [OF h] reply_payload_def ads_consts)
  have len: "length (build_response h p) - 32 = length p"
    by (metis length_drop parse_build_response(2))
  have "length p < 2 ^ 32 \<or> command_id h = ADS_CMD_READ \<and> unat (u32_at 40 frame) > 2 ^ 32 - 9"
    unfolding p length_reply_payload by auto
  then show ?thesis
    using False h d parse_build_response(1) [of h p] len by auto
qed

definition sample_env :: router_env where
  "sample_env = \<lparr>env_ext = unix_ext False, env_uuid = (\<lambda>n. ''uuid-'' @ show_nat n),
     env_local_source_address = ''192.168.1.5''\<rparr>"

definition sample_router :: ads_router where
  "sample_router = with_trace_sender (with_push_sender (router_new 16150 True registry_new))"

definition write_header :: ams_header where
  "write_header = \<lparr>target_net_id = AmsNetId 192 168 1 5 1 1, target_port = 16150,
     source_net_id = AmsNetId 5 80 201 232 1 1, source_port = 350, command_id = 3, state_flags = 4,
     data_length = 0, error_code = 0, invoke_id = 7\<rparr>"

lemma sample_env_checks [simp]: "\<not> overflow_checks (env_ext sample_env)"
  by (simp add: sample_env_def unix_ext_def)

theorem dispatch_answers_witness:
  "\<not> overflow_checks (env_ext sample_env) \<and>
   (\<exists>resp rt' out. dispatch sample_env sample_router (ams_header_serialize write_header) None =
        Ok (Some resp, rt', out) \<and>
      ams_header_parse resp = Ok (response_header write_header (length resp - 32)) \<and>
      length resp - 32 < 2 ^ 32)"
  using dispatch_answers [OF sample_env_checks, of "ams_header_serialize write_header" sample_router None]
    header.dec_append [of write_header "[]"]
  by (auto simp: write_header_def ads_consts)

text \<open>
  C38. Isolation of sources: whatever a frame contains, the router only touches the registrations
  of the net id and port the frame comes from, every log entry, span event and push event it
  emits carries that source, and its configuration does not change. The path in use never
  emits a metric, also when a metric channel is configured and the write contains metrics.
\<close>

theorem dispatch_keeps_to_source:
  assumes "\<not> overflow_checks (env_ext E)" "ams_header_parse frame = Ok h"
  shows "\<exists>resp rt' out. dispatch E rt frame peer = Ok (Some resp, rt', out) \<and>
           keeps_to_source h rt (rt', out)"
proof -
  obtain rt' out where "handle_write E rt h peer (drop 32 frame) = Ok (rt', out)"
      "keeps_to_source h rt (rt', out)"
    using handle_write_yields [OF assms(1)] by fast
  then show ?thesis
    using keeps_to_source_none by (auto simp: dispatch_eq [OF assms(2)])
qed

theorem dispatch_keeps_to_source_witness:
  "\<not> overflow_checks (env_ext sample_env) \<and>
   (\<exists>resp rt' out. dispatch sample_env sample_router (ams_header_serialize write_header @ [1, 2, 3]) None =
        Ok (Some resp, rt', out) \<and> keeps_to_source write_header sample_router (rt', out))"
  using dispatch_keeps_to_source [OF sample_env_checks header.dec_append, of sample_router write_header]
  by simp

text \<open>
  C37. Processing of a write: of a frame that carries any sequence of well-formed messages to the
  router's port, every registration is stored (the last one of a task counts), every log
  entry is emitted once, in order, with the metadata of its task after all registrations of the
  write are stored, wherever they stand in the buffer, and every span event is emitted in order
  when a trace channel is configured. The sender gets an empty success response.
\<close>

theorem dispatch_write_messages:
  assumes "command_id h = ADS_CMD_WRITE" "target_port h = rt_ads_port rt"
    and "index_group wr \<noteq> IG_PUSH_DIAG" "write_data wr = concat (map wire_msg_enc ms) @ pad"
    and "list_all (wire_msg_ok (env_ext E)) ms" "end_of_messages pad"
    and "length (write_data wr) \<le> MAX_MESSAGE_SIZE"
  shows "\<exists>rt' out.
     dispatch E rt (ams_header_serialize h @ ads_write_request_serialize wr) peer =
       Ok (Some (build_response h [0, 0, 0, 0]), rt', out) \<and>
     (\<forall>task. lookup (rt_registry rt') (reg_key (show_net_id (source_net_id h)) (source_port h) task) =
        (case List.find (\<lambda>g. rg_task_index g = task) (rev (List.map_filter msg_registration ms)) of
           Some g \<Rightarrow> Some (reg_metadata g)
         | None \<Rightarrow> lookup (rt_registry rt) (reg_key (show_net_id (source_net_id h)) (source_port h) task))) \<and>
     list_all2 (\<lambda>e. enriched (lookup (rt_registry rt')
         (reg_key (show_net_id (source_net_id h)) (source_port h) (word_of_int (al_task_index e)))) e)
       (List.map_filter msg_entry ms) (out_logs out) \<and>
     out_traces out = (if rt_has_trace_tx rt
       then map (\<lambda>ev. (source_net_id h, source_port h, ev)) (List.map_filter msg_event ms) else [])"
proof -
  let ?net = "show_net_id (source_net_id h)"
  have pa: "parse_all (env_ext E) (write_data wr) = Ok (fold wire_push ms empty_result)"
    using assms by (simp add: parse_all_messages)
  have "length (write_data wr) < 2 ^ 32"
    using assms by (simp add: MAX_MESSAGE_SIZE_def)
  then have "handle_write E rt h peer (ads_write_request_serialize wr) =
      dispatch_write_sync E rt ?net (source_port h) peer (write_data wr)"
    using assms handle_write_request [of wr h rt E peer "[]"] by simp
  moreover let ?r = "register_all ?net (source_port h) (List.map_filter msg_registration ms) (rt_registry rt)"
  let ?logs = "logs_of E ?r ?net (source_port h) peer (List.map_filter msg_entry ms)"
  let ?traces = "if rt_has_trace_tx rt
      then map (\<lambda>ev. (source_net_id h, source_port h, ev)) (List.map_filter msg_event ms) else []"
  have "dispatch_write_sync E rt ?net (source_port h) peer (write_data wr) =
      Ok (rt\<lparr>rt_registry := ?r\<rparr>, no_out\<lparr>out_logs := ?logs, out_traces := ?traces\<rparr>)"
    by (simp add: dispatch_write_sync_def pa Let_def fold_wire_push net_id_from_show empty_result_def)
  ultimately have "dispatch E rt (ams_header_serialize h @ ads_write_request_serialize wr) peer =
      Ok (Some (build_response h [0, 0, 0, 0]), rt\<lparr>rt_registry := ?r\<rparr>,
          no_out\<lparr>out_logs := ?logs, out_traces := ?traces\<rparr>)"
    using assms(1) by (simp add: dispatch_eq [OF header.dec_append])
  moreover have "list_all2 (\<lambda>e. enriched (lookup ?r (reg_key ?net (source_port h)
      (word_of_int (al_task_index e)))) e) (List.map_filter msg_entry ms) ?logs"
    by (rule enriched_logs_of [OF msg_entries_V2])
  ultimately show ?thesis
    by (intro exI conjI) (assumption, simp_all add: lookup_register_own no_out_def)
qed

definition sample_write :: ads_write_request where
  "sample_write = \<lparr>index_group = 1, index_offset = 1,
     write_data = concat (map wire_msg_enc [WLog sample_log, WReg sample_registration]) @ [0]\<rparr>"

theorem dispatch_write_messages_witness:
  "\<exists>rt' out le. dispatch sample_env sample_router
       (ams_header_serialize write_header @ ads_write_request_serialize sample_write) None =
     Ok (Some (build_response write_header [0, 0, 0, 0]), rt', out) \<and>
   out_logs out = [le] \<and> le_message le = ''ready {0}'' \<and>
   le_task_name le = rg_task_name sample_registration \<and>
   le_ams_app_port le = rg_app_port sample_registration"
proof -
  have len: "length (wire_log_body sample_log) < 65536"
    using sample_log_ok [of False] by (simp add: wire_log_ok_def)
  have "\<exists>rt' out.
     dispatch sample_env sample_router
       (ams_header_serialize write_header @ ads_write_request_serialize sample_write) None =
     Ok (Some (build_response write_header [0, 0, 0, 0]), rt', out) \<and>
     (\<forall>task. lookup (rt_registry rt') (reg_key (show_net_id (source_net_id write_header)) (source_port write_header) task) =
        (case List.find (\<lambda>g. rg_task_index g = task)
             (rev (List.map_filter msg_registration [WLog sample_log, WReg sample_registration])) of
           Some g \<Rightarrow> Some (reg_metadata g)
         | None \<Rightarrow> lookup (rt_registry sample_router)
             (reg_key (show_net_id (source_net_id write_header)) (source_port write_header) task))) \<and>
     list_all2 (\<lambda>e. enriched (lookup (rt_registry rt')
         (reg_key (show_net_id (source_net_id write_header)) (source_port write_header) (word_of_int (al_task_index e)))) e)
       (List.map_filter msg_entry [WLog sample_log, WReg sample_registration]) (out_logs out) \<and>
     out_traces out = (if rt_has_trace_tx sample_router
       then map (\<lambda>ev. (source_net_id write_header, source_port write_header, ev))
         (List.map_filter msg_event [WLog sample_log, WReg sample_registration]) else [])"
  proof (rule dispatch_write_messages)
    show "end_of_messages [0]" by (simp add: end_of_messages_def)
    show "list_all (wire_msg_ok (env_ext sample_env)) [WLog sample_log, WReg sample_registration]"
      by (simp add: sample_env_def sample_log_ok sample_registration_def registration_short_def
          short_str_def str_ok_ascii)
    show "length (write_data sample_write) \<le> MAX_MESSAGE_SIZE"
      using len by (simp add: sample_write_def registration_enc_def string_enc_def
          sample_registration_def MAX_MESSAGE_SIZE_def)
  qed (simp_all add: write_header_def sample_router_def with_trace_sender_def with_push_sender_def
      router_new_def sample_write_def IG_PUSH_DIAG_def ads_consts)
  then show ?thesis
    by (clarsimp simp: map_filter_simps list_all2_Cons1 enriched_def wire_log_entry_def sample_log_def
        sample_registration_def reg_metadata_def)
qed

text \<open>
  C39. A diagnostic batch written to the push index group reaches the push channel exactly as it was
  encoded, tagged with the sender's net id; the registry and the other channels are not touched.
\<close>

theorem dispatch_push_batch:
  assumes "batch_ok b" "rt_has_push_tx rt" "command_id h = ADS_CMD_WRITE" "target_port h = rt_ads_port rt"
  shows "dispatch E rt (ams_header_serialize h @ ads_write_request_serialize
           \<lparr>index_group = IG_PUSH_DIAG, index_offset = IO_PUSH_BATCH, write_data = batch_enc b\<rparr>) peer =
         Ok (Some (build_response h [0, 0, 0, 0]), rt, no_out\<lparr>out_push := [(source_net_id h, TaskDiagBatch b)]\<rparr>)"
proof -
  let ?wr = "\<lparr>index_group = IG_PUSH_DIAG, index_offset = IO_PUSH_BATCH, write_data = batch_enc b\<rparr>"
  have "length (write_data ?wr) < 2 ^ 32"
    using assms(1) by (simp add: batch_enc_def length_batch_head length_concat_samples batch_ok_def)
  from ads_write_request_append [OF this, of "[]"]
  have "ads_write_request_parse (ads_write_request_serialize ?wr) = Ok ?wr" by simp
  moreover have "decode_batch (batch_enc b) = Ok (TaskDiagBatch b)"
    using batch_of_enc [OF assms(1)] by (simp add: decode_batch_eq)
  ultimately show ?thesis
    using assms by (simp add: dispatch_eq [OF header.dec_append] handle_write_def dispatch_push_def)
qed

theorem dispatch_push_batch_witness:
  "dispatch sample_env sample_router (ams_header_serialize write_header @ ads_write_request_serialize
     \<lparr>index_group = IG_PUSH_DIAG, index_offset = IO_PUSH_BATCH, write_data = batch_enc sample_batch\<rparr>) None =
   Ok (Some (build_response write_header [0, 0, 0, 0]), sample_router,
       no_out\<lparr>out_push := [(source_net_id write_header, TaskDiagBatch sample_batch)]\<rparr>)"
proof (rule dispatch_push_batch)
  have "str_ok ''PlcTask''" by (rule str_ok_ascii) simp
  then show "batch_ok sample_batch"
    by (simp add: batch_ok_def sample_batch_def i64_range_def bytes_of_str_def)
qed (simp_all add: write_header_def sample_router_def with_trace_sender_def with_push_sender_def
    router_new_def ads_consts)

end
