(* ===== verification/Transitions.thy ===== *)
theory Transitions
  imports Prelude
begin

text \<open>
  Stateful components as transition systems: the states reachable from the initial ones, and the
  contract of an invariant that holds initially and is kept by every step.
\<close>

inductive reachable :: "('s \<Rightarrow> bool) \<Rightarrow> ('s \<Rightarrow> 's \<Rightarrow> bool) \<Rightarrow> 's \<Rightarrow> bool"
  for init :: "'s \<Rightarrow> bool" and step :: "'s \<Rightarrow> 's \<Rightarrow> bool"
where
  reach_init: "init s \<Longrightarrow> reachable init step s"
| reach_step: "reachable init step s \<Longrightarrow> step s t \<Longrightarrow> reachable init step t"

locale inductive_invariant =
  fixes init :: "'s \<Rightarrow> bool"
    and step :: "'s \<Rightarrow> 's \<Rightarrow> bool"
    and inv :: "'s \<Rightarrow> bool"
  assumes inv_init: "init s \<Longrightarrow> inv s"
    and inv_step: "inv s \<Longrightarrow> step s t \<Longrightarrow> inv t"
begin

lemma inv_reachable: "reachable init step s \<Longrightarrow> inv s"
  by (induction rule: reachable.induct) (auto intro: inv_init inv_step)

lemma inv_steps: "step\<^sup>*\<^sup>* s t \<Longrightarrow> inv s \<Longrightarrow> inv t"
  by (induction rule: rtranclp_induct) (auto intro: inv_step)

end

text \<open>A machine driven by inputs, one output list per input.\<close>

fun run_machine :: "('s \<Rightarrow> 'a \<Rightarrow> 's \<times> 'o list) \<Rightarrow> 's \<Rightarrow> 'a list \<Rightarrow> 's \<times> 'o list" where
  "run_machine f s [] = (s, [])"
| "run_machine f s (a # as) =
     (case f s a of (s', out) \<Rightarrow> case run_machine f s' as of (s'', out') \<Rightarrow> (s'', out @ out'))"

lemma run_machine_append:
  "run_machine f s (as @ bs) =
     (case run_machine f s as of (s', out) \<Rightarrow> case run_machine f s' bs of (s'', out') \<Rightarrow> (s'', out @ out'))"
  by (induction as arbitrary: s) (auto split: prod.split)

lemma fst_run_machine: "fst (run_machine f s (a # as)) = fst (run_machine f (fst (f s a)) as)"
  by (simp split: prod.split)

lemma snd_run_machine: "snd (run_machine f s (a # as)) = snd (f s a) @ snd (run_machine f (fst (f s a)) as)"
  by (simp split: prod.split)

locale machine_invariant =
  fixes f :: "'s \<Rightarrow> 'a \<Rightarrow> 's \<times> 'o list"
    and ok :: "'a \<Rightarrow> bool"
    and inv :: "'s \<Rightarrow> bool"
  assumes inv_input: "inv s \<Longrightarrow> ok a \<Longrightarrow> inv (fst (f s a))"
begin

lemma inv_run: "inv s \<Longrightarrow> list_all ok as \<Longrightarrow> inv (fst (run_machine f s as))"
proof (induction as arbitrary: s)
  case (Cons a as)
  then show ?case using inv_input [of s a] by (simp add: fst_run_machine del: run_machine.simps)
qed simp

end

end
