(* ===== verification/Connection_Manager.thy ===== *)
theory Connection_Manager
  imports Transitions Hash_Map "HOL-Library.Multiset"
begin

text \<open>
  Admission of TCP connections, \<^verbatim>\<open>tc-otel-ads/src/connection_manager.rs\<close>. Calls run on several
  threads, so an acquisition and the drop of a permit are sequences of atomic actions (an atomic
  counter operation, a semaphore operation, a section under the lock), one definition each, and the
  whole calls are their composition. The system is the interleaving of any number of calls.

  The semaphore is the one of the runtime library: a parameter with the documented behaviour
  \<open>counting_semaphore\<close>. Instants are nanoseconds of the monotonic clock.
\<close>

section \<open>Semaphores\<close>

datatype 's acquired = Permit 's | NoPermits | Closed

record 's semaphore_ops =
  sem_new :: "nat \<Rightarrow> 's"
  sem_try_acquire :: "'s \<Rightarrow> 's acquired"
  sem_release :: "'s \<Rightarrow> 's"

definition counting_semaphore :: "'s semaphore_ops \<Rightarrow> ('s \<Rightarrow> nat) \<Rightarrow> bool" where
  "counting_semaphore S avail \<longleftrightarrow>
     (\<forall>n. avail (sem_new S n) = n) \<and>
     (\<forall>s. case sem_try_acquire S s of
            Permit s' \<Rightarrow> avail s = Suc (avail s') | NoPermits \<Rightarrow> avail s = 0 | Closed \<Rightarrow> False) \<and>
     (\<forall>s. avail (sem_release S s) = Suc (avail s))"

definition nat_semaphore :: "nat semaphore_ops" where
  "nat_semaphore = \<lparr>sem_new = (\<lambda>n. n), sem_try_acquire = (\<lambda>n. case n of 0 \<Rightarrow> NoPermits | Suc m \<Rightarrow> Permit m),
     sem_release = Suc\<rparr>"

lemma counting_nat_semaphore: "counting_semaphore nat_semaphore (\<lambda>n. n)"
  by (simp add: counting_semaphore_def nat_semaphore_def split: nat.split)

section \<open>State\<close>

datatype ip_addr = IpV4 u32 | IpV6 "128 word"

record connection_config =
  max_connections :: nat
  idle_timeout_secs :: u64
  max_connections_per_ip :: nat
  rate_limit_per_sec_per_ip :: nat
  keepalive_interval_secs :: u64
  send_buffer_size :: nat
  shutdown_timeout_secs :: u64

definition connection_config_default :: connection_config where
  "connection_config_default =
     \<lparr>max_connections = 100, idle_timeout_secs = 300, max_connections_per_ip = 10,
      rate_limit_per_sec_per_ip = 10, keepalive_interval_secs = 60, send_buffer_size = 1048576,
      shutdown_timeout_secs = 30\<rparr>"

datatype connection_rejection =
    MaxConnectionsReached
  | PerIpLimitReached ip_addr nat
  | RateLimitExceeded ip_addr
  | ShuttingDown

record ip_state =
  active_connections :: nat
  connection_timestamps :: "nat list"

definition ip_state_new :: ip_state where
  "ip_state_new = \<lparr>active_connections = 0, connection_timestamps = []\<rparr>"

definition prune_timestamps :: "nat \<Rightarrow> ip_state \<Rightarrow> ip_state" where
  "prune_timestamps now st =
     st\<lparr>connection_timestamps := filter (\<lambda>ts. now - ts < 1000000000) (connection_timestamps st)\<rparr>"

record 's connection_manager =
  cm_config :: connection_config
  cm_semaphore :: 's
  cm_ip_states :: "(ip_addr, ip_state) hmap"
  cm_active_count :: u64
  cm_shutting_down :: bool
  cm_total_accepted :: u64
  cm_total_rejected :: u64

definition connection_manager_new :: "'s semaphore_ops \<Rightarrow> connection_config \<Rightarrow> 's connection_manager" where
  "connection_manager_new S cfg =
     \<lparr>cm_config = cfg, cm_semaphore = sem_new S (max_connections cfg), cm_ip_states = [],
      cm_active_count = 0, cm_shutting_down = False, cm_total_accepted = 0, cm_total_rejected = 0\<rparr>"

section \<open>Atomic actions\<close>

definition count_rejected :: "'s connection_manager \<Rightarrow> 's connection_manager" where
  "count_rejected m = m\<lparr>cm_total_rejected := cm_total_rejected m + 1\<rparr>"

definition release_permit :: "'s semaphore_ops \<Rightarrow> 's connection_manager \<Rightarrow> 's connection_manager" where
  "release_permit S m = m\<lparr>cm_semaphore := sem_release S (cm_semaphore m)\<rparr>"

text \<open>The section under the lock of the per-address table.\<close>

definition admit_ip ::
    "ip_addr \<Rightarrow> nat \<Rightarrow> 's connection_manager \<Rightarrow> 's connection_manager \<times> connection_rejection option" where
  "admit_ip ip now m =
     (let st = (case hm_get (cm_ip_states m) ip of Some st \<Rightarrow> st | None \<Rightarrow> ip_state_new);
          put = (\<lambda>st. m\<lparr>cm_ip_states := hm_insert ip st (cm_ip_states m)\<rparr>)
      in if active_connections st \<ge> max_connections_per_ip (cm_config m) then
           (put st, Some (PerIpLimitReached ip (active_connections st)))
         else
           let st = prune_timestamps now st in
           if length (connection_timestamps st) \<ge> rate_limit_per_sec_per_ip (cm_config m) then
             (put st, Some (RateLimitExceeded ip))
           else
             (put (st\<lparr>active_connections := active_connections st + 1,
                      connection_timestamps := connection_timestamps st @ [now]\<rparr>), None))"

definition count_active :: "'s connection_manager \<Rightarrow> 's connection_manager" where
  "count_active m = m\<lparr>cm_active_count := cm_active_count m + 1\<rparr>"

definition count_accepted :: "'s connection_manager \<Rightarrow> 's connection_manager" where
  "count_accepted m = m\<lparr>cm_total_accepted := cm_total_accepted m + 1\<rparr>"

definition leave_ip :: "ip_addr \<Rightarrow> 's connection_manager \<Rightarrow> 's connection_manager" where
  "leave_ip ip m =
     (case hm_get (cm_ip_states m) ip of
        Some st \<Rightarrow>
          (let st = st\<lparr>active_connections := active_connections st - 1\<rparr> in
           if active_connections st = 0 \<and> connection_timestamps st = []
           then m\<lparr>cm_ip_states := hm_remove ip (hm_insert ip st (cm_ip_states m))\<rparr>
           else m\<lparr>cm_ip_states := hm_insert ip st (cm_ip_states m)\<rparr>)
      | None \<Rightarrow> m)"

definition uncount_active :: "'s connection_manager \<Rightarrow> 's connection_manager" where
  "uncount_active m = m\<lparr>cm_active_count := cm_active_count m - 1\<rparr>"

section \<open>Whole calls\<close>

definition try_acquire ::
    "'s semaphore_ops \<Rightarrow> ip_addr \<Rightarrow> nat \<Rightarrow> 's connection_manager
     \<Rightarrow> 's connection_manager \<times> (connection_rejection, ip_addr) res" where
  "try_acquire S ip now m =
     (if cm_shutting_down m then (count_rejected m, Err ShuttingDown)
      else
        case sem_try_acquire S (cm_semaphore m) of
          NoPermits \<Rightarrow> (count_rejected m, Err MaxConnectionsReached)
        | Closed \<Rightarrow> (count_rejected m, Err ShuttingDown)
        | Permit sem \<Rightarrow>
            (case admit_ip ip now (m\<lparr>cm_semaphore := sem\<rparr>) of
               (m, Some rej) \<Rightarrow> (count_rejected (release_permit S m), Err rej)
             | (m, None) \<Rightarrow> (count_accepted (count_active m), Ok ip)))"

definition drop_permit :: "'s semaphore_ops \<Rightarrow> ip_addr \<Rightarrow> 's connection_manager \<Rightarrow> 's connection_manager" where
  "drop_permit S ip m = release_permit S (uncount_active (leave_ip ip m))"

definition shutdown :: "'s connection_manager \<Rightarrow> 's connection_manager" where
  "shutdown m = m\<lparr>cm_shutting_down := True\<rparr>"

definition connections_for_ip :: "'s connection_manager \<Rightarrow> ip_addr \<Rightarrow> nat" where
  "connections_for_ip m ip =
     (case hm_get (cm_ip_states m) ip of Some st \<Rightarrow> active_connections st | None \<Rightarrow> 0)"

definition connected_ips ::
    "(ip_addr, ip_state) iter \<Rightarrow> 's connection_manager \<Rightarrow> (ip_addr \<times> nat) list" where
  "connected_ips ord m =
     map (\<lambda>(ip, st). (ip, active_connections st))
       (filter (\<lambda>(_, st). active_connections st > 0) (ord (cm_ip_states m)))"

text \<open>
  The drain loop: \<open>counts\<close> are the successive readings of the active count, one per 50 ms sleep, and
  \<open>elapsed\<close> the clock readings, in nanoseconds since the start.
\<close>

fun wait_for_drain :: "u64 \<Rightarrow> (u64 \<times> nat) list \<Rightarrow> bool option" where
  "wait_for_drain timeout_secs [] = None"
| "wait_for_drain timeout_secs ((active, elapsed) # rest) =
     (if active = 0 then Some True
      else if elapsed \<ge> unat timeout_secs * 1000000000 then Some False
      else wait_for_drain timeout_secs rest)"

section \<open>Interleaved calls\<close>

text \<open>
  Where a call stands: before the shutdown check, before the semaphore, holding a permit,
  recorded for its address, counted, established; refused with the permit still held, refused
  without one; closing after the address table was updated, closing after the count was decremented.
\<close>

datatype call =
    Arriving ip_addr | Checked ip_addr | Holding ip_addr | Recorded ip_addr | Counted ip_addr
  | Established ip_addr | Refused | Turned_away | Leaving ip_addr | Uncounted ip_addr

record 's system =
  sys_mgr :: "'s connection_manager"
  sys_calls :: "call multiset"
  sys_clock :: nat
  sys_accepted :: "ip_addr \<Rightarrow> nat list"

text \<open>
  One atomic action of a call at the given time: the manager, what becomes of the call, and
  whether a connection was recorded.
\<close>

fun call_step ::
    "'s semaphore_ops \<Rightarrow> nat \<Rightarrow> call \<Rightarrow> 's connection_manager \<Rightarrow> 's connection_manager \<times> call option" where
  "call_step S now (Arriving ip) m =
     (m, if cm_shutting_down m then Some Turned_away else Some (Checked ip))"
| "call_step S now (Checked ip) m =
     (case sem_try_acquire S (cm_semaphore m) of
        Permit sem \<Rightarrow> (m\<lparr>cm_semaphore := sem\<rparr>, Some (Holding ip))
      | _ \<Rightarrow> (m, Some Turned_away))"
| "call_step S now (Holding ip) m =
     (case admit_ip ip now m of
        (m', Some rej) \<Rightarrow> (m', Some Refused)
      | (m', None) \<Rightarrow> (m', Some (Recorded ip)))"
| "call_step S now (Recorded ip) m = (count_active m, Some (Counted ip))"
| "call_step S now (Counted ip) m = (count_accepted m, Some (Established ip))"
| "call_step S now (Established ip) m = (leave_ip ip m, Some (Leaving ip))"
| "call_step S now Refused m = (release_permit S m, Some Turned_away)"
| "call_step S now Turned_away m = (count_rejected m, None)"
| "call_step S now (Leaving ip) m = (uncount_active m, Some (Uncounted ip))"
| "call_step S now (Uncounted ip) m = (release_permit S m, None)"

text \<open>The times at which connections of an address were recorded, for the rate limit.\<close>

fun record_accept :: "nat \<Rightarrow> call option \<Rightarrow> (ip_addr \<Rightarrow> nat list) \<Rightarrow> ip_addr \<Rightarrow> nat list" where
  "record_accept now (Some (Recorded ip)) h = h(ip := h ip @ [now])"
| "record_accept now _ h = h"

inductive sys_step :: "'s semaphore_ops \<Rightarrow> 's system \<Rightarrow> 's system \<Rightarrow> bool"
  for S :: "'s semaphore_ops"
where
  arrive: "sys_step S s (s\<lparr>sys_calls := add_mset (Arriving ip) (sys_calls s)\<rparr>)"
| tick: "sys_clock s \<le> t \<Longrightarrow> sys_step S s (s\<lparr>sys_clock := t\<rparr>)"
| stop: "sys_step S s (s\<lparr>sys_mgr := shutdown (sys_mgr s)\<rparr>)"
| act: "sys_calls s = add_mset c cs \<Longrightarrow> call_step S (sys_clock s) c (sys_mgr s) = (m, c') \<Longrightarrow>
    sys_step S s (s\<lparr>sys_mgr := m, sys_calls := cs + (case c' of Some c' \<Rightarrow> {#c'#} | None \<Rightarrow> {#}),
      sys_accepted := record_accept (sys_clock s) c' (sys_accepted s)\<rparr>)"

definition sys_init :: "'s semaphore_ops \<Rightarrow> connection_config \<Rightarrow> 's system \<Rightarrow> bool" where
  "sys_init S cfg s \<longleftrightarrow>
     sys_mgr s = connection_manager_new S cfg \<and> sys_calls s = {#} \<and> sys_accepted s = (\<lambda>_. [])"

section \<open>Connections and permits\<close>

fun on_ip :: "ip_addr \<Rightarrow> call \<Rightarrow> bool" where
  "on_ip ip (Recorded ip') = (ip' = ip)"
| "on_ip ip (Counted ip') = (ip' = ip)"
| "on_ip ip (Established ip') = (ip' = ip)"
| "on_ip ip _ = False"

fun holds_permit :: "call \<Rightarrow> bool" where
  "holds_permit (Arriving _) = False"
| "holds_permit (Checked _) = False"
| "holds_permit Turned_away = False"
| "holds_permit _ = True"

fun is_counted :: "call \<Rightarrow> bool" where
  "is_counted (Counted _) = True"
| "is_counted (Established _) = True"
| "is_counted (Leaving _) = True"
| "is_counted _ = False"

definition how_many :: "(call \<Rightarrow> bool) \<Rightarrow> 's system \<Rightarrow> nat" where
  "how_many P s = size (filter_mset P (sys_calls s))"

lemma how_many_mono: "(\<And>c. P c \<Longrightarrow> Q c) \<Longrightarrow> how_many P s \<le> how_many Q s"
  unfolding how_many_def by (intro size_mset_mono filter_mset_mono_strong) auto

definition timestamps_of :: "'s connection_manager \<Rightarrow> ip_addr \<Rightarrow> nat list" where
  "timestamps_of m ip =
     (case hm_get (cm_ip_states m) ip of Some st \<Rightarrow> connection_timestamps st | None \<Rightarrow> [])"

text \<open>The two sections under the lock, seen through the per-address counts and time stamps.\<close>

lemma admit_ip_cases:
  assumes "admit_ip ip now m = (m', rej)"
  obtains
    (limit) "rej = Some (PerIpLimitReached ip (connections_for_ip m ip))"
      "max_connections_per_ip (cm_config m) \<le> connections_for_ip m ip"
      "timestamps_of m' = timestamps_of m" "connections_for_ip m' = connections_for_ip m"
  | (rate) "rej = Some (RateLimitExceeded ip)" "connections_for_ip m' = connections_for_ip m"
      "timestamps_of m' = (timestamps_of m)(ip := filter (\<lambda>ts. now - ts < 1000000000) (timestamps_of m ip))"
      "rate_limit_per_sec_per_ip (cm_config m) \<le> length (timestamps_of m' ip)"
  | (accept) "rej = None" "connections_for_ip m ip < max_connections_per_ip (cm_config m)"
      "connections_for_ip m' = (connections_for_ip m)(ip := Suc (connections_for_ip m ip))"
      "length (filter (\<lambda>ts. now - ts < 1000000000) (timestamps_of m ip)) < rate_limit_per_sec_per_ip (cm_config m)"
      "timestamps_of m' =
         (timestamps_of m)(ip := filter (\<lambda>ts. now - ts < 1000000000) (timestamps_of m ip) @ [now])"
proof -
  show thesis
  proof (cases "hm_get (cm_ip_states m) ip")
    case None
    then show ?thesis
      using assms limit rate accept
      by (auto simp: admit_ip_def Let_def ip_state_new_def prune_timestamps_def connections_for_ip_def
          timestamps_of_def fun_eq_iff hm.get_insert split: if_splits)
  next
    case (Some st)
    then show ?thesis
      using assms limit rate accept
      by (auto simp: admit_ip_def Let_def prune_timestamps_def connections_for_ip_def
          timestamps_of_def fun_eq_iff hm.get_insert split: if_splits)
  qed
qed

lemma admit_ip_frame:
  assumes "admit_ip ip now m = (m', rej)"
  shows "m' = m\<lparr>cm_ip_states := cm_ip_states m'\<rparr>"
    "hm_get (cm_ip_states m') ip \<noteq> None"
    "ip' \<noteq> ip \<Longrightarrow> hm_get (cm_ip_states m') ip' = hm_get (cm_ip_states m) ip'"
    "hm_wf (cm_ip_states m) \<Longrightarrow> hm_wf (cm_ip_states m')"
  using assms by (auto simp: admit_ip_def Let_def hm.get_insert split: if_splits)

lemma leave_ip_frame:
  "leave_ip ip m = m\<lparr>cm_ip_states := cm_ip_states (leave_ip ip m)\<rparr>"
  "hm_wf (cm_ip_states m) \<Longrightarrow> hm_wf (cm_ip_states (leave_ip ip m))"
  by (simp_all add: leave_ip_def Let_def split: option.split)

lemma leave_ip_counts:
  assumes "hm_wf (cm_ip_states m)"
  shows "connections_for_ip (leave_ip ip m) = (connections_for_ip m)(ip := connections_for_ip m ip - 1)"
    "timestamps_of (leave_ip ip m) = timestamps_of m"
  using assms
  by (auto simp: leave_ip_def Let_def connections_for_ip_def timestamps_of_def fun_eq_iff hm.get_insert
      hm.get_remove split: option.split)

section \<open>Invariants\<close>

text \<open>Per-address counts are the connections on record, and within their limit.\<close>

definition ip_inv :: "connection_config \<Rightarrow> 's system \<Rightarrow> bool" where
  "ip_inv cfg s \<longleftrightarrow>
     cm_config (sys_mgr s) = cfg \<and> hm_wf (cm_ip_states (sys_mgr s)) \<and>
     (\<forall>ip. connections_for_ip (sys_mgr s) ip = how_many (on_ip ip) s \<and>
           how_many (on_ip ip) s \<le> max_connections_per_ip cfg)"

text \<open>Permits are neither lost nor forged, and the atomic count follows the calls.\<close>

definition permit_inv :: "'s semaphore_ops \<Rightarrow> ('s \<Rightarrow> nat) \<Rightarrow> connection_config \<Rightarrow> 's system \<Rightarrow> bool" where
  "permit_inv S avail cfg s \<longleftrightarrow>
     (counting_semaphore S avail \<longrightarrow>
        avail (cm_semaphore (sys_mgr s)) + how_many holds_permit s = max_connections cfg) \<and>
     cm_active_count (sys_mgr s) = of_nat (how_many is_counted s)"

lemma sys_init_counts:
  "sys_init S cfg s \<Longrightarrow> how_many P s = 0 \<and> connections_for_ip (sys_mgr s) ip = 0 \<and>
     timestamps_of (sys_mgr s) ip = []"
  by (simp add: sys_init_def how_many_def connection_manager_new_def connections_for_ip_def timestamps_of_def)

lemmas action_defs = release_permit_def count_rejected_def count_active_def count_accepted_def
  uncount_active_def shutdown_def

lemma actions_keep_ips [simp]:
  "connections_for_ip (release_permit S m) = connections_for_ip m"
  "connections_for_ip (count_rejected m) = connections_for_ip m"
  "connections_for_ip (count_active m) = connections_for_ip m"
  "connections_for_ip (count_accepted m) = connections_for_ip m"
  "connections_for_ip (uncount_active m) = connections_for_ip m"
  "connections_for_ip (shutdown m) = connections_for_ip m"
  "connections_for_ip (m\<lparr>cm_semaphore := sem\<rparr>) = connections_for_ip m"
  "timestamps_of (release_permit S m) = timestamps_of m"
  "timestamps_of (count_rejected m) = timestamps_of m"
  "timestamps_of (count_active m) = timestamps_of m"
  "timestamps_of (count_accepted m) = timestamps_of m"
  "timestamps_of (uncount_active m) = timestamps_of m"
  "timestamps_of (shutdown m) = timestamps_of m"
  "timestamps_of (m\<lparr>cm_semaphore := sem\<rparr>) = timestamps_of m"
  by (simp_all add: action_defs connections_for_ip_def timestamps_of_def fun_eq_iff)

lemma actions_keep_table [simp]:
  "cm_ip_states (release_permit S m) = cm_ip_states m" "cm_config (release_permit S m) = cm_config m"
  "cm_ip_states (count_rejected m) = cm_ip_states m" "cm_config (count_rejected m) = cm_config m"
  "cm_ip_states (count_active m) = cm_ip_states m" "cm_config (count_active m) = cm_config m"
  "cm_ip_states (count_accepted m) = cm_ip_states m" "cm_config (count_accepted m) = cm_config m"
  "cm_ip_states (uncount_active m) = cm_ip_states m" "cm_config (uncount_active m) = cm_config m"
  "cm_ip_states (shutdown m) = cm_ip_states m" "cm_config (shutdown m) = cm_config m"
  by (simp_all add: action_defs)

lemma lock_sections_frame [simp]:
  "cm_config (leave_ip ip m) = cm_config m" "cm_semaphore (leave_ip ip m) = cm_semaphore m"
  "cm_active_count (leave_ip ip m) = cm_active_count m"
  by (subst leave_ip_frame(1), simp)+

lemma admit_ip_keeps:
  assumes "admit_ip ip now m = (m', rej)"
  shows "cm_config m' = cm_config m" "cm_semaphore m' = cm_semaphore m"
    "cm_active_count m' = cm_active_count m"
  by (subst admit_ip_frame(1) [OF assms], simp)+

lemma ip_inv_act:
  assumes inv: "ip_inv cfg s" and calls: "sys_calls s = add_mset c cs"
    and step: "call_step S (sys_clock s) c (sys_mgr s) = (m, c')"
  shows "ip_inv cfg (s\<lparr>sys_mgr := m, sys_calls := cs + (case c' of Some c' \<Rightarrow> {#c'#} | None \<Rightarrow> {#}),
      sys_accepted := h\<rparr>)"
proof (cases c)
  case (Holding ip)
  obtain m' rej where a: "admit_ip ip (sys_clock s) (sys_mgr s) = (m', rej)" by fastforce
  then have m: "m = m'" "c' = Some (if rej = None then Recorded ip else Refused)"
    using step Holding by (auto split: option.splits)
  from a show ?thesis
    using inv calls Holding admit_ip_keeps(1) [OF a] admit_ip_frame(4) [OF a]
    by (cases rule: admit_ip_cases) (auto simp: ip_inv_def how_many_def m Suc_le_eq)
next
  case (Established ip)
  then have "connections_for_ip (sys_mgr s) ip = Suc (size (filter_mset (on_ip ip) cs))"
    using inv calls by (simp add: ip_inv_def how_many_def)
  then show ?thesis
    using inv calls step Established leave_ip_counts(1) [of "sys_mgr s" ip]
      leave_ip_frame(2) [of "sys_mgr s" ip]
    by (auto simp: ip_inv_def how_many_def Suc_le_eq split: if_splits)
qed (use inv calls step in \<open>auto simp: ip_inv_def how_many_def split: acquired.splits if_splits\<close>)

lemma permit_inv_act:
  assumes inv: "permit_inv S avail cfg s" and calls: "sys_calls s = add_mset c cs"
    and step: "call_step S (sys_clock s) c (sys_mgr s) = (m, c')"
  shows "permit_inv S avail cfg (s\<lparr>sys_mgr := m,
      sys_calls := cs + (case c' of Some c' \<Rightarrow> {#c'#} | None \<Rightarrow> {#}), sys_accepted := h\<rparr>)"
proof (cases c)
  case (Checked ip)
  have "counting_semaphore S avail \<Longrightarrow>
      (case sem_try_acquire S (cm_semaphore (sys_mgr s)) of
         Permit s' \<Rightarrow> avail (cm_semaphore (sys_mgr s)) = Suc (avail s')
       | NoPermits \<Rightarrow> avail (cm_semaphore (sys_mgr s)) = 0 | Closed \<Rightarrow> False)"
    by (simp add: counting_semaphore_def)
  then show ?thesis
    using inv calls step Checked
    by (auto simp: permit_inv_def how_many_def split: acquired.splits)
next
  case (Holding ip)
  obtain m' rej where a: "admit_ip ip (sys_clock s) (sys_mgr s) = (m', rej)" by fastforce
  then have m: "m = m'" "c' = Some (if rej = None then Recorded ip else Refused)"
    using step Holding by (auto split: option.splits)
  show ?thesis
    using inv calls Holding admit_ip_keeps [OF a] by (simp add: permit_inv_def how_many_def m)
qed (use inv calls step in
    \<open>auto simp: permit_inv_def how_many_def action_defs counting_semaphore_def split: if_splits\<close>)

interpretation ip_limits: inductive_invariant "sys_init S cfg" "sys_step S" "ip_inv cfg"
  for S :: "'s semaphore_ops" and cfg
proof unfold_locales
  fix s :: "'s system"
  assume i: "sys_init S cfg s"
  have "connections_for_ip (sys_mgr s) ip = 0 \<and> how_many (on_ip ip) s = 0" for ip
    using sys_init_counts [OF i, of "on_ip ip" ip] by simp
  then show "ip_inv cfg s"
    using i by (simp add: ip_inv_def) (simp add: sys_init_def connection_manager_new_def)
next
  fix s t :: "'s system"
  assume inv: "ip_inv cfg s" and step: "sys_step S s t"
  from step show "ip_inv cfg t"
  proof cases
    case act
    then show ?thesis using ip_inv_act [OF inv] by simp
  qed (use inv in \<open>simp_all add: ip_inv_def how_many_def\<close>)
qed

interpretation permits: inductive_invariant "sys_init S cfg" "sys_step S" "permit_inv S avail cfg"
  for S :: "'s semaphore_ops" and avail and cfg
proof unfold_locales
  fix s :: "'s system"
  assume i: "sys_init S cfg s"
  then show "permit_inv S avail cfg s"
    using sys_init_counts [OF i, of is_counted] sys_init_counts [OF i, of holds_permit]
    by (simp add: permit_inv_def) (simp add: sys_init_def connection_manager_new_def counting_semaphore_def)
next
  fix s t :: "'s system"
  assume inv: "permit_inv S avail cfg s" and step: "sys_step S s t"
  from step show "permit_inv S avail cfg t"
  proof cases
    case act
    then show ?thesis using permit_inv_act [OF inv] by simp
  qed (use inv in \<open>simp_all add: permit_inv_def how_many_def shutdown_def\<close>)
qed

section \<open>The rate limit\<close>

text \<open>
  The time stamps kept for an address are the end of its acceptance history, what was pruned is a
  second old, and any two acceptances that are \<open>limit\<close> apart in the history are a second apart in time.
\<close>

definition rate_ok :: "nat \<Rightarrow> nat \<Rightarrow> nat list \<Rightarrow> nat list \<Rightarrow> bool" where
  "rate_ok limit clock hist ts \<longleftrightarrow>
     sorted hist \<and> (\<forall>t\<in>set hist. t \<le> clock) \<and>
     (\<exists>old. hist = old @ ts \<and> (\<forall>t\<in>set old. t + 1000000000 \<le> clock)) \<and>
     (\<forall>i. i + limit < length hist \<longrightarrow> hist ! i + 1000000000 \<le> hist ! (i + limit)) \<and>
     (hist \<noteq> [] \<longrightarrow> ts \<noteq> [])"

lemma prune_suffix:
  assumes "sorted ts" "\<forall>t\<in>set ts. t \<le> clock"
  shows "\<exists>old. ts = old @ filter (\<lambda>t. clock - t < 1000000000) ts \<and>
           (\<forall>t\<in>set old. t + 1000000000 \<le> (clock :: nat))"
  using assms
proof (induction ts)
  case (Cons t ts)
  show ?case
  proof (cases "clock - t < 1000000000")
    case True
    then have "\<forall>u\<in>set ts. clock - u < 1000000000" using Cons.prems by fastforce
    then have "filter (\<lambda>t. clock - t < 1000000000) (t # ts) = t # ts"
      using True by (simp add: filter_id_conv)
    then show ?thesis by (intro exI [of _ "[]"]) simp
  next
    case False
    obtain old where old: "ts = old @ filter (\<lambda>t. clock - t < 1000000000) ts"
        "\<forall>t\<in>set old. t + 1000000000 \<le> clock"
      using Cons by auto
    show ?thesis
    proof (intro exI [of _ "t # old"] conjI)
      show "t # ts = (t # old) @ filter (\<lambda>t. clock - t < 1000000000) (t # ts)"
        using False old(1) by simp
    qed (use False old(2) Cons.prems in auto)
  qed
qed simp

lemma rate_ok_tick:
  assumes "rate_ok limit clock hist ts" "clock \<le> clock'"
  shows "rate_ok limit clock' hist ts"
proof -
  obtain old where "hist = old @ ts" "\<forall>t\<in>set old. t + 1000000000 \<le> clock"
    using assms by (auto simp: rate_ok_def)
  then have "\<exists>old. hist = old @ ts \<and> (\<forall>t\<in>set old. t + 1000000000 \<le> clock')"
    using assms(2) by (intro exI [of _ old]) auto
  moreover have "\<forall>t\<in>set hist. t \<le> clock'"
    using assms by (auto simp: rate_ok_def)
  ultimately show ?thesis
    using assms(1) by (simp add: rate_ok_def)
qed

lemma rate_ok_pruned:
  assumes "rate_ok limit clock hist ts"
  obtains old where "hist = old @ filter (\<lambda>t. clock - t < 1000000000) ts"
    "\<forall>t\<in>set old. t + 1000000000 \<le> clock"
proof -
  obtain old where old: "hist = old @ ts" "\<forall>t\<in>set old. t + 1000000000 \<le> clock"
    using assms by (auto simp: rate_ok_def)
  moreover have "sorted ts" "\<forall>t\<in>set ts. t \<le> clock"
    using assms old by (auto simp: rate_ok_def sorted_append)
  then obtain old' where "ts = old' @ filter (\<lambda>t. clock - t < 1000000000) ts"
      "\<forall>t\<in>set old'. t + 1000000000 \<le> clock"
    using prune_suffix by blast
  ultimately show thesis
    using that [of "old @ old'"] by (metis Un_iff append.assoc set_append)
qed

lemma rate_ok_reject:
  assumes "rate_ok limit clock hist ts" "limit \<le> length (filter (\<lambda>t. clock - t < 1000000000) ts)"
  shows "rate_ok limit clock hist (filter (\<lambda>t. clock - t < 1000000000) ts)"
proof -
  obtain old where "hist = old @ filter (\<lambda>t. clock - t < 1000000000) ts"
      "\<forall>t\<in>set old. t + 1000000000 \<le> clock"
    using rate_ok_pruned [OF assms(1)] by blast
  moreover have "hist = []" if "limit = 0"
    using assms(1) that unfolding rate_ok_def by fastforce
  ultimately show ?thesis
    using assms unfolding rate_ok_def by (metis le_zero_eq list.size(3))
qed

lemma rate_ok_accept:
  assumes ok: "rate_ok limit clock hist ts" and len: "length (filter (\<lambda>t. clock - t < 1000000000) ts) < limit"
  shows "rate_ok limit clock (hist @ [clock]) (filter (\<lambda>t. clock - t < 1000000000) ts @ [clock])"
proof -
  obtain old where old: "hist = old @ filter (\<lambda>t. clock - t < 1000000000) ts"
      "\<forall>t\<in>set old. t + 1000000000 \<le> clock"
    using rate_ok_pruned [OF ok] by blast
  have "(hist @ [clock]) ! i + 1000000000 \<le> (hist @ [clock]) ! (i + limit)"
    if i: "i + limit < length (hist @ [clock])" for i
  proof (cases "i + limit < length hist")
    case True
    then show ?thesis using ok by (simp add: rate_ok_def nth_append)
  next
    case False
    then have "i + limit = length hist" using i by simp
    moreover have "length hist = length old + length (filter (\<lambda>t. clock - t < 1000000000) ts)"
      using arg_cong [OF old(1), of length] by simp
    ultimately have "i < length old" using len by linarith
    then have "hist ! i \<in> set old" using old(1) by (metis nth_append nth_mem)
    then show ?thesis
      using old(2) \<open>i < length old\<close> \<open>i + limit = length hist\<close> len by (simp add: nth_append)
  qed
  then show ?thesis
    using ok old unfolding rate_ok_def by (auto simp: sorted_append)
qed

definition rate_inv :: "connection_config \<Rightarrow> 's system \<Rightarrow> bool" where
  "rate_inv cfg s \<longleftrightarrow>
     cm_config (sys_mgr s) = cfg \<and> hm_wf (cm_ip_states (sys_mgr s)) \<and>
     (\<forall>ip. rate_ok (rate_limit_per_sec_per_ip cfg) (sys_clock s) (sys_accepted s ip)
             (timestamps_of (sys_mgr s) ip) \<and>
           (0 < connections_for_ip (sys_mgr s) ip \<longrightarrow> sys_accepted s ip \<noteq> []))"

lemma rate_inv_act:
  assumes inv: "rate_inv cfg s" and calls: "sys_calls s = add_mset c cs"
    and step: "call_step S (sys_clock s) c (sys_mgr s) = (m, c')"
  shows "rate_inv cfg (s\<lparr>sys_mgr := m, sys_calls := cs',
      sys_accepted := record_accept (sys_clock s) c' (sys_accepted s)\<rparr>)"
proof (cases c)
  case (Holding ip)
  obtain m' rej where a: "admit_ip ip (sys_clock s) (sys_mgr s) = (m', rej)" by fastforce
  then have m: "m = m'" "c' = Some (if rej = None then Recorded ip else Refused)"
    using step Holding by (auto split: option.splits)
  note frame = admit_ip_keeps(1) [OF a] admit_ip_frame(4) [OF a]
  from a show ?thesis
  proof (cases rule: admit_ip_cases)
    case rate
    then show ?thesis
      using inv frame rate_ok_reject [of "rate_limit_per_sec_per_ip cfg" "sys_clock s" "sys_accepted s ip"]
      by (auto simp: rate_inv_def m)
  next
    case accept
    then show ?thesis
      using inv frame rate_ok_accept [of "rate_limit_per_sec_per_ip cfg" "sys_clock s" "sys_accepted s ip"]
      by (auto simp: rate_inv_def m)
  qed (use inv frame in \<open>simp add: rate_inv_def m\<close>)
next
  case (Established ip)
  then show ?thesis
    using inv step leave_ip_counts [of "sys_mgr s" ip] leave_ip_frame(2) [of "sys_mgr s" ip]
    by (auto simp: rate_inv_def split: if_splits)
qed (use inv step in \<open>auto simp: rate_inv_def split: acquired.splits if_splits\<close>)

interpretation rates: inductive_invariant "sys_init S cfg" "sys_step S" "rate_inv cfg"
  for S :: "'s semaphore_ops" and cfg
proof unfold_locales
  fix s :: "'s system"
  assume i: "sys_init S cfg s"
  have "timestamps_of (sys_mgr s) ip = [] \<and> connections_for_ip (sys_mgr s) ip = 0" for ip
    using sys_init_counts [OF i] by blast
  then show "rate_inv cfg s"
    using i by (simp add: rate_inv_def rate_ok_def) (simp add: sys_init_def connection_manager_new_def)
next
  fix s t :: "'s system"
  assume inv: "rate_inv cfg s" and step: "sys_step S s t"
  from step show "rate_inv cfg t"
  proof cases
    case act
    then show ?thesis using rate_inv_act [OF inv] by simp
  next
    case (tick t')
    then show ?thesis using inv by (auto simp: rate_inv_def intro: rate_ok_tick)
  qed (use inv in \<open>simp_all add: rate_inv_def\<close>)
qed

section \<open>A call on its own\<close>

text \<open>A whole call without interference is one of the interleavings.\<close>

definition at :: "'s system \<Rightarrow> 's connection_manager \<Rightarrow> call multiset \<Rightarrow> (ip_addr \<Rightarrow> nat list) \<Rightarrow> 's system" where
  "at s m cs h = s\<lparr>sys_mgr := m, sys_calls := cs, sys_accepted := h\<rparr>"

lemma at_fields [simp]:
  "(at s m cs h)\<lparr>sys_calls := cs'\<rparr> = at s m cs' h" "(at s m cs h)\<lparr>sys_clock := t\<rparr> = at (s\<lparr>sys_clock := t\<rparr>) m cs h"
  "sys_calls (at s m cs h) = cs" "sys_clock (at s m cs h) = sys_clock s"
  "sys_mgr (at s m cs h) = m" "sys_accepted (at s m cs h) = h"
  by (cases s; simp add: at_def)+

lemma act_then:
  assumes "call_step S (sys_clock s) c m = (m', Some c')"
    and "(sys_step S)\<^sup>*\<^sup>* (at s m' (add_mset c' cs) (record_accept (sys_clock s) (Some c') h)) t"
  shows "(sys_step S)\<^sup>*\<^sup>* (at s m (add_mset c cs) h) t"
proof -
  have "sys_step S (at s m (add_mset c cs) h) (at s m' (add_mset c' cs) (record_accept (sys_clock s) (Some c') h))"
    using sys_step.act [of "at s m (add_mset c cs) h" c cs S m' "Some c'"] assms(1) by (simp add: at_def)
  then show ?thesis using assms(2) by (rule converse_rtranclp_into_rtranclp)
qed

lemma act_end:
  assumes "call_step S (sys_clock s) c m = (m', None)"
  shows "(sys_step S)\<^sup>*\<^sup>* (at s m (add_mset c cs) h) (at s m' cs h)"
  using sys_step.act [of "at s m (add_mset c cs) h" c cs S m' None] assms by (auto simp: at_def)

lemma refusal_path:
  "(sys_step S)\<^sup>*\<^sup>* (at s m (add_mset Turned_away cs) h) (at s (count_rejected m) cs h)"
  "(sys_step S)\<^sup>*\<^sup>* (at s m (add_mset Refused cs) h) (at s (count_rejected (release_permit S m)) cs h)"
proof -
  show away: "(sys_step S)\<^sup>*\<^sup>* (at s m (add_mset Turned_away cs) h) (at s (count_rejected m) cs h)" for m
    by (rule act_end) simp
  show "(sys_step S)\<^sup>*\<^sup>* (at s m (add_mset Refused cs) h) (at s (count_rejected (release_permit S m)) cs h)"
    by (rule act_then, simp, simp, rule away)
qed

lemma acquire_path:
  assumes "try_acquire S ip (sys_clock s) m = (m', r)"
  shows "(sys_step S)\<^sup>*\<^sup>* (at s m (add_mset (Arriving ip) cs) h)
     (case r of Ok _ \<Rightarrow> at s m' (add_mset (Established ip) cs) (h(ip := h ip @ [sys_clock s])) | _ \<Rightarrow> at s m' cs h)"
proof (cases "cm_shutting_down m")
  case True
  then show ?thesis
    using assms by (intro act_then [of S s "Arriving ip"]) (auto simp: try_acquire_def intro: refusal_path)
next
  case False
  note in_check = act_then [of S s "Arriving ip" m m "Checked ip"]
  show ?thesis
  proof (cases "sem_try_acquire S (cm_semaphore m)")
    case (Permit sem)
    let ?m = "m\<lparr>cm_semaphore := sem\<rparr>"
    obtain a rej where a: "admit_ip ip (sys_clock s) ?m = (a, rej)" by fastforce
    have "(sys_step S)\<^sup>*\<^sup>* (at s ?m (add_mset (Holding ip) cs) h)
       (case r of Ok _ \<Rightarrow> at s m' (add_mset (Established ip) cs) (h(ip := h ip @ [sys_clock s])) | _ \<Rightarrow> at s m' cs h)"
    proof (cases rej)
      case None
      then have r: "r = Ok ip" "m' = count_accepted (count_active a)"
        using assms False Permit a by (simp_all add: try_acquire_def)
      have "(sys_step S)\<^sup>*\<^sup>* (at s a (add_mset (Recorded ip) cs) (h(ip := h ip @ [sys_clock s])))
          (at s m' (add_mset (Established ip) cs) (h(ip := h ip @ [sys_clock s])))"
        unfolding r by (rule act_then, simp, rule act_then, simp) simp
      then show ?thesis
        using a None r by (intro act_then [of S s "Holding ip" ?m a "Recorded ip"]) simp_all
    next
      case (Some e)
      then show ?thesis
        using assms False Permit a refusal_path(2) [of S s a cs h]
        by (intro act_then [of S s "Holding ip" ?m a Refused]) (auto simp: try_acquire_def)
    qed
    then show ?thesis
      using False Permit by (intro in_check) (auto intro: act_then [of S s "Checked ip"])
  next
    case NoPermits
    then have "(sys_step S)\<^sup>*\<^sup>* (at s m (add_mset (Checked ip) cs) h) (at s (count_rejected m) cs h)"
      using refusal_path(1) [of S s m cs h] by (intro act_then [of S s "Checked ip" m m Turned_away]) simp_all
    then show ?thesis
      using assms False NoPermits by (intro in_check) (auto simp: try_acquire_def)
  next
    case Closed
    then have "(sys_step S)\<^sup>*\<^sup>* (at s m (add_mset (Checked ip) cs) h) (at s (count_rejected m) cs h)"
      using refusal_path(1) [of S s m cs h] by (intro act_then [of S s "Checked ip" m m Turned_away]) simp_all
    then show ?thesis
      using assms False Closed by (intro in_check) (auto simp: try_acquire_def)
  qed
qed

lemma drop_path:
  "(sys_step S)\<^sup>*\<^sup>* (at s m (add_mset (Established ip) cs) h) (at s (drop_permit S ip m) cs h)"
  unfolding drop_permit_def
  by (rule act_then, simp, rule act_then, simp, simp, rule act_end) simp

section \<open>Properties\<close>

text \<open>
  C7. Whatever the interleaving of arriving and closing connections: never more connections than the
  global limit hold a permit, never more than the per-address limit are on record for an address, the
  table and the atomic counter agree with the connections, and once no call is in progress every
  permit is available again and every count is back to zero.
\<close>

theorem connection_limits:
  assumes "counting_semaphore S avail" "max_connections cfg < 2 ^ 64"
    and "reachable (sys_init S cfg) (sys_step S) s"
  shows "how_many holds_permit s \<le> max_connections cfg \<and>
    (\<forall>ip. connections_for_ip (sys_mgr s) ip = how_many (on_ip ip) s \<and>
          how_many (on_ip ip) s \<le> max_connections_per_ip cfg) \<and>
    unat (cm_active_count (sys_mgr s)) = how_many is_counted s \<and>
    how_many is_counted s \<le> max_connections cfg \<and>
    (sys_calls s = {#} \<longrightarrow> avail (cm_semaphore (sys_mgr s)) = max_connections cfg \<and>
       cm_active_count (sys_mgr s) = 0 \<and> (\<forall>ip. connections_for_ip (sys_mgr s) ip = 0))"
proof -
  have p: "permit_inv S avail cfg s" by (rule permits.inv_reachable [OF assms(3)])
  have i: "ip_inv cfg s" by (rule ip_limits.inv_reachable [OF assms(3)])
  have "how_many is_counted s \<le> how_many holds_permit s"
    by (rule how_many_mono, rename_tac c, case_tac c) simp_all
  moreover have "how_many holds_permit s \<le> max_connections cfg"
    using p assms(1) by (simp add: permit_inv_def)
  moreover from calculation have "unat (cm_active_count (sys_mgr s)) = how_many is_counted s"
    using p assms(2) by (simp add: permit_inv_def unat_of_nat)
  ultimately show ?thesis
    using p i assms(1) by (auto simp: permit_inv_def ip_inv_def) (simp_all add: how_many_def)
qed

definition local_ip :: ip_addr where
  "local_ip = IpV4 0x7F000001"

definition one_slot :: connection_config where
  "one_slot = connection_config_default\<lparr>max_connections := 1\<rparr>"

definition idle_system :: "nat system" where
  "idle_system = \<lparr>sys_mgr = connection_manager_new nat_semaphore one_slot, sys_calls = {#}, sys_clock = 0,
     sys_accepted = (\<lambda>_. [])\<rparr>"

definition busy_system :: "nat system" where
  "busy_system = at idle_system
     (fst (try_acquire nat_semaphore local_ip 0 (sys_mgr idle_system))) {#Established local_ip#}
     ((\<lambda>_. [])(local_ip := [0]))"

lemma idle_reachable: "reachable (sys_init nat_semaphore one_slot) (sys_step nat_semaphore) idle_system"
  by (rule reach_init) (simp add: sys_init_def idle_system_def)

lemma try_acquire_idle: "snd (try_acquire nat_semaphore local_ip 0 (sys_mgr idle_system)) = Ok local_ip"
  by (simp add: try_acquire_def idle_system_def connection_manager_new_def nat_semaphore_def
      admit_ip_def ip_state_new_def prune_timestamps_def one_slot_def connection_config_default_def)

lemma reachable_steps: "step\<^sup>*\<^sup>* s t \<Longrightarrow> reachable init step s \<Longrightarrow> reachable init step t"
  by (induction rule: rtranclp_induct) (auto intro: reach_step)

lemma busy_reachable: "reachable (sys_init nat_semaphore one_slot) (sys_step nat_semaphore) busy_system"
proof -
  let ?a = "at idle_system (sys_mgr idle_system) (add_mset (Arriving local_ip) {#}) (\<lambda>_. [])"
  have "sys_step nat_semaphore idle_system ?a"
    using sys_step.arrive [of nat_semaphore idle_system local_ip]
    by (simp add: at_def idle_system_def)
  moreover have "(sys_step nat_semaphore)\<^sup>*\<^sup>* ?a busy_system"
    using acquire_path [of nat_semaphore local_ip idle_system "sys_mgr idle_system"
        "fst (try_acquire nat_semaphore local_ip 0 (sys_mgr idle_system))" "Ok local_ip" "{#}" "\<lambda>_. []"]
      try_acquire_idle
    by (simp add: busy_system_def idle_system_def prod_eq_iff)
  ultimately show ?thesis
    using idle_reachable by (metis reach_step reachable_steps)
qed

theorem connection_limits_witness:
  "reachable (sys_init nat_semaphore one_slot) (sys_step nat_semaphore) busy_system \<and>
   how_many holds_permit busy_system = 1 \<and> how_many holds_permit busy_system \<le> max_connections one_slot \<and>
   connections_for_ip (sys_mgr busy_system) local_ip = 1"
proof -
  have "how_many holds_permit busy_system = 1" "how_many (on_ip local_ip) busy_system = 1"
    by (simp_all add: how_many_def busy_system_def at_def)
  then show ?thesis
    using busy_reachable connection_limits [OF counting_nat_semaphore _ busy_reachable]
    by (simp add: one_slot_def)
qed

text \<open>
  C14. The rate limit holds over every window, not only over clock seconds: of the connections accepted
  from one address, in the order of acceptance, any two that are as far apart as the limit are
  at least one second apart, so no window of one second contains more acceptances than the limit.
\<close>

theorem connection_rate:
  assumes "reachable (sys_init S cfg) (sys_step S) s"
    and "i + rate_limit_per_sec_per_ip cfg < length (sys_accepted s ip)"
  shows "sys_accepted s ip ! i + 1000000000 \<le> sys_accepted s ip ! (i + rate_limit_per_sec_per_ip cfg)"
  using rates.inv_reachable [OF assms(1)] assms(2) by (simp add: rate_inv_def rate_ok_def)

definition strict_rate :: connection_config where
  "strict_rate = connection_config_default\<lparr>rate_limit_per_sec_per_ip := 1\<rparr>"

definition quiet :: "nat \<Rightarrow> nat system" where
  "quiet t = \<lparr>sys_mgr = connection_manager_new nat_semaphore strict_rate, sys_calls = {#}, sys_clock = t,
     sys_accepted = (\<lambda>_. [])\<rparr>"

lemma reachable_accept:
  assumes "reachable init (sys_step S) (at s m cs h)"
    and "try_acquire S ip (sys_clock s) m = (m', Ok ip)"
  shows "reachable init (sys_step S) (at s m' (add_mset (Established ip) cs) (h(ip := h ip @ [sys_clock s])))"
proof -
  have "sys_step S (at s m cs h) (at s m (add_mset (Arriving ip) cs) h)"
    using sys_step.arrive [of S "at s m cs h" ip] by simp
  then have "reachable init (sys_step S) (at s m (add_mset (Arriving ip) cs) h)"
    using assms(1) by (rule reach_step [rotated])
  moreover have "(sys_step S)\<^sup>*\<^sup>* (at s m (add_mset (Arriving ip) cs) h)
      (at s m' (add_mset (Established ip) cs) (h(ip := h ip @ [sys_clock s])))"
    using acquire_path [OF assms(2), of cs h] by simp
  ultimately show ?thesis by (rule reachable_steps [rotated])
qed

lemma reachable_tick:
  assumes "reachable init (sys_step S) (at s m cs h)" "sys_clock s \<le> t"
  shows "reachable init (sys_step S) (at (s\<lparr>sys_clock := t\<rparr>) m cs h)"
proof -
  have "sys_step S (at s m cs h) (at (s\<lparr>sys_clock := t\<rparr>) m cs h)"
    using sys_step.tick [of "at s m cs h" t S] assms(2) by simp
  then show ?thesis using assms(1) by (rule reach_step [rotated])
qed

theorem connection_rate_witness:
  "\<exists>s. reachable (sys_init nat_semaphore strict_rate) (sys_step nat_semaphore) s \<and>
       sys_accepted s local_ip = [5, 1000000005] \<and>
       sys_accepted s local_ip ! 0 + 1000000000 \<le> sys_accepted s local_ip ! (0 + rate_limit_per_sec_per_ip strict_rate)"
proof -
  let ?R = "reachable (sys_init nat_semaphore strict_rate) (sys_step nat_semaphore)"
  let ?m = "connection_manager_new nat_semaphore strict_rate"
  obtain m1 where m1: "try_acquire nat_semaphore local_ip 5 ?m = (m1, Ok local_ip)"
      "cm_semaphore m1 = 99" "\<not> cm_shutting_down m1" "cm_config m1 = strict_rate"
      "cm_ip_states m1 = [(local_ip, \<lparr>active_connections = 1, connection_timestamps = [5]\<rparr>)]"
    by (simp add: try_acquire_def connection_manager_new_def nat_semaphore_def admit_ip_def
        ip_state_new_def prune_timestamps_def strict_rate_def connection_config_default_def
        hm_insert_def action_defs)
  obtain m2 where m2: "try_acquire nat_semaphore local_ip 1000000005 m1 = (m2, Ok local_ip)"
    by (simp add: try_acquire_def nat_semaphore_def admit_ip_def m1 hm_get_def prune_timestamps_def
        strict_rate_def connection_config_default_def)
  have "?R (at (quiet 5) ?m {#} (\<lambda>_. []))"
    by (rule reach_init) (simp add: sys_init_def quiet_def at_def)
  from reachable_accept [OF this, of local_ip m1] m1(1)
  have "?R (at (quiet 5) m1 {#Established local_ip#} ((\<lambda>_. [])(local_ip := [5])))"
    by (simp add: quiet_def)
  from reachable_tick [OF this, of 1000000005]
  have "?R (at (quiet 1000000005) m1 {#Established local_ip#} ((\<lambda>_. [])(local_ip := [5])))"
    by (simp add: quiet_def)
  from reachable_accept [OF this, of local_ip m2] m2
  have r: "?R (at (quiet 1000000005) m2 {#Established local_ip, Established local_ip#}
      ((\<lambda>_. [])(local_ip := [5, 1000000005])))"
    by (simp add: quiet_def)
  show ?thesis
    using r connection_rate [OF r, of 0 local_ip]
    by (intro exI conjI) (assumption, simp_all add: at_def strict_rate_def)
qed

text \<open>
  An address that was ever accepted keeps its entry in the table: the cleanup on the drop of the
  last permit needs an empty list of time stamps, but the list is pruned only by later
  acquisitions, which leave it non-empty. The table grows with the number of addresses seen.
\<close>

theorem ip_entries_kept:
  assumes "reachable (sys_init S cfg) (sys_step S) s" "sys_step S s t"
    and "hm_get (cm_ip_states (sys_mgr s)) ip \<noteq> None"
  shows "hm_get (cm_ip_states (sys_mgr t)) ip \<noteq> None"
  using assms(2)
proof cases
  case (act c cs m c')
  have inv: "rate_inv cfg s" "ip_inv cfg s"
    by (rule rates.inv_reachable [OF assms(1)], rule ip_limits.inv_reachable [OF assms(1)])
  have "hm_get (cm_ip_states m) ip \<noteq> None"
  proof (cases c)
    case (Holding ip')
    obtain m' rej where a: "admit_ip ip' (sys_clock s) (sys_mgr s) = (m', rej)" by fastforce
    then have "m = m'" using act Holding by (auto split: option.splits)
    then show ?thesis
      using assms(3) admit_ip_frame(2,3) [OF a] by (cases "ip = ip'") auto
  next
    case (Established ip')
    then have "connections_for_ip (sys_mgr s) ip' > 0"
      using inv(2) act(2) by (simp add: ip_inv_def how_many_def)
    then have "timestamps_of (sys_mgr s) ip' \<noteq> []"
      using inv(1) unfolding rate_inv_def rate_ok_def by metis
    then show ?thesis
      using assms(3) act Established
      by (auto simp: leave_ip_def timestamps_of_def Let_def hm.get_insert split: option.splits)
  qed (use act assms(3) in \<open>auto split: acquired.splits\<close>)
  then show ?thesis using act by simp
qed (use assms(3) in simp_all)

theorem ip_entries_kept_witness:
  "\<exists>t. sys_step nat_semaphore busy_system t \<and> sys_calls t = {#Leaving local_ip#} \<and>
       connections_for_ip (sys_mgr t) local_ip = 0 \<and> hm_get (cm_ip_states (sys_mgr t)) local_ip \<noteq> None"
proof -
  let ?m = "leave_ip local_ip (sys_mgr busy_system)"
  let ?t = "busy_system\<lparr>sys_mgr := ?m, sys_calls := {#Leaving local_ip#}\<rparr>"
  have "sys_calls busy_system = add_mset (Established local_ip) {#}"
    by (simp add: busy_system_def at_def)
  from sys_step.act [OF this, of nat_semaphore ?m "Some (Leaving local_ip)"]
  have s: "sys_step nat_semaphore busy_system ?t" by simp
  have st: "cm_ip_states (sys_mgr busy_system) =
      [(local_ip, \<lparr>active_connections = 1, connection_timestamps = [0]\<rparr>)]"
    by (simp add: busy_system_def at_def idle_system_def try_acquire_def connection_manager_new_def
        nat_semaphore_def admit_ip_def ip_state_new_def prune_timestamps_def one_slot_def
        connection_config_default_def hm_insert_def)
  have "hm_get (cm_ip_states (sys_mgr ?t)) local_ip \<noteq> None"
    by (rule ip_entries_kept [OF busy_reachable s]) (simp add: st hm_get_def)
  moreover have "connections_for_ip (sys_mgr ?t) local_ip = 0"
    by (simp add: connections_for_ip_def leave_ip_def st hm_get_def hm_insert_def)
  ultimately show ?thesis using s by (intro exI [of _ ?t]) simp
qed

end
