(* ===== verification/Span_Dispatcher.thy ===== *)
theory Span_Dispatcher
  imports Registry Transitions
begin

text \<open>
  The span dispatcher, \<^verbatim>\<open>tc-otel-service/src/span_dispatcher.rs\<close>: it collects the begin, attribute,
  event and end messages of a span and emits one trace record when the span ends, times out, or is
  pushed out by newer spans. Spans are kept under net id and span id, with an index from the span id
  alone.

  Monotonic instants are nanoseconds. A handler takes the clock readings it may use: the instant, and
  the wall clock readings by number. The functions of the \<^verbatim>\<open>hex\<close> crate are parameters. Handlers
  return \<open>Panic\<close> where the code can: an arithmetic overflow or a failed debug assertion, in builds with
  these checks.
\<close>

section \<open>State\<close>

record hex_ops =
  hex_encode :: "u8 list \<Rightarrow> string"
  hex_decode :: "string \<Rightarrow> u8 list option"

record span_env =
  sp_ext :: ext
  sp_hex :: hex_ops
  sp_attr_order :: "(string, attr_value) iter"

record span_clock =
  ck_instant :: nat
  ck_utc :: "nat \<Rightarrow> datetime"

record dispatcher_event =
  ev_time :: datetime
  ev_name :: string
  ev_attrs :: "(string \<times> attr_value) list"

record span_key =
  sk_net_id :: ams_net_id
  sk_span_id :: "u8 list"

record pending_span =
  ps_trace_id :: "u8 list"
  ps_span_id :: "u8 list"
  ps_parent_span_id :: "u8 list option"
  ps_name :: string
  ps_kind :: u8
  ps_start_time :: datetime
  ps_attrs :: "(string, attr_value) hmap"
  ps_events :: "dispatcher_event list"
  ps_deadline :: nat
  ps_orphan_reason :: "string option"
  ps_ams_net_id :: ams_net_id
  ps_task_index :: u8
  ps_ams_source_port :: u16
  ps_ams_app_port :: u16
  ps_app_name :: string
  ps_project_name :: string
  ps_scope_namespace :: string

record span_dispatcher =
  sd_pending :: "(span_key, pending_span) hmap"
  sd_by_span_id :: "(u8 list, span_key) hmap"
  sd_span_ttl :: nat
  sd_max_pending :: nat
  sd_orphan_counter :: u64
  sd_service_name :: string
  sd_host_name :: string
  sd_registry :: "registry option"

definition span_dispatcher_new :: "nat \<Rightarrow> nat \<Rightarrow> span_dispatcher" where
  "span_dispatcher_new span_ttl max_pending =
     \<lparr>sd_pending = [], sd_by_span_id = [], sd_span_ttl = span_ttl, sd_max_pending = max_pending,
      sd_orphan_counter = 0, sd_service_name = '''', sd_host_name = '''', sd_registry = None\<rparr>"

definition with_service_metadata :: "string \<Rightarrow> string \<Rightarrow> span_dispatcher \<Rightarrow> span_dispatcher" where
  "with_service_metadata service_name host_name d =
     d\<lparr>sd_service_name := service_name, sd_host_name := host_name\<rparr>"

definition with_task_registry :: "registry \<Rightarrow> span_dispatcher \<Rightarrow> span_dispatcher" where
  "with_task_registry reg d = d\<lparr>sd_registry := Some reg\<rparr>"

section \<open>Helpers\<close>

definition parse_w3c_traceparent :: "hex_ops \<Rightarrow> string \<Rightarrow> (u8 list \<times> u8 list) option" where
  "parse_w3c_traceparent H s =
     (let parts = split_on CHR ''-'' s in
      if length parts \<noteq> 4 then None
      else if parts ! 0 \<noteq> ''00'' then None
      else if length (parts ! 1) \<noteq> 32 then None
      else
        case hex_decode H (parts ! 1) of
          None \<Rightarrow> None
        | Some tid \<Rightarrow>
            if length tid \<noteq> 16 then None
            else if length (parts ! 2) \<noteq> 16 then None
            else
              case hex_decode H (parts ! 2) of
                None \<Rightarrow> None
              | Some sid \<Rightarrow> if length sid \<noteq> 8 then None else Some (tid, sid))"

definition DC_EPOCH_OFFSET_NS :: int where
  "DC_EPOCH_OFFSET_NS = 946684800000000000"

definition dc_time_to_datetime :: "ext \<Rightarrow> datetime \<Rightarrow> int \<Rightarrow> (unit, datetime) res" where
  "dc_time_to_datetime X now dc_nanos =
     (if dc_nanos \<le> 0 then Ok now
      else if overflow_checks X \<and> \<not> i64_range (dc_nanos + DC_EPOCH_OFFSET_NS) then Panic
      else
        let unix_nanos = wrap_i64 (dc_nanos + DC_EPOCH_OFFSET_NS);
            secs = trunc_div unix_nanos 1000000000;
            nanos = unat (word_of_int (trunc_mod unix_nanos 1000000000) :: u32)
        in Ok (case from_timestamp X secs nanos of Some t \<Rightarrow> t | None \<Rightarrow> now))"

fun attr_json :: "ext \<Rightarrow> attr_value \<Rightarrow> json" where
  "attr_json X (AttrI64 n) = JInt n"
| "attr_json X (AttrF64 f) = json_f64 X f"
| "attr_json X (AttrBool b) = JBool b"
| "attr_json X (AttrString s) = JString s"

definition collect_attrs :: "ext \<Rightarrow> (string \<times> attr_value) list \<Rightarrow> attrs" where
  "collect_attrs X kvs = fold (\<lambda>(k, v). hm_insert k (attr_json X v)) kvs []"

fun show_bytes_debug :: "u8 list \<Rightarrow> string" where
  "show_bytes_debug [] = ''''"
| "show_bytes_debug [b] = show_nat (unat b)"
| "show_bytes_debug (b # bs) = show_nat (unat b) @ '', '' @ show_bytes_debug bs"

section \<open>Completed spans\<close>

definition finalise ::
    "span_env \<Rightarrow> span_dispatcher \<Rightarrow> pending_span \<Rightarrow> datetime \<Rightarrow> span_status_code \<Rightarrow> string \<Rightarrow> trace_record" where
  "finalise E d p end_time status_code status_message =
     (let service_name = (if ps_project_name p = '''' then sd_service_name d else ps_project_name p);
          resource = build_otel_resource service_name (ps_app_name p) (sd_host_name d)
            (show_net_id (ps_ams_net_id p)) (ps_ams_app_port p) (ps_ams_source_port p)
      in \<lparr>tr_trace_id = hex_encode (sp_hex E) (ps_trace_id p),
          tr_span_id = hex_encode (sp_hex E) (ps_span_id p),
          tr_parent_span_id =
            (case ps_parent_span_id p of Some s \<Rightarrow> hex_encode (sp_hex E) s | None \<Rightarrow> ''''),
          tr_name = ps_name p, tr_kind = uint (ps_kind p), tr_start_time = ps_start_time p,
          tr_end_time = end_time, tr_status_code = uint (span_status_as_u8 status_code),
          tr_status_message = status_message,
          tr_resource_attributes = hm_insert ''tc.task.index'' (JInt (uint (ps_task_index p))) resource,
          tr_scope_name = ps_scope_namespace p, tr_scope_attributes = [],
          tr_span_attributes = collect_attrs (sp_ext E) (sp_attr_order E (ps_attrs p)),
          tr_events =
            map (\<lambda>ev. \<lparr>tev_timestamp = ev_time ev, tev_name = ev_name ev,
                       tev_attributes = collect_attrs (sp_ext E) (ev_attrs ev)\<rparr>) (ps_events p)\<rparr>)"

definition finalise_timed_out :: "span_env \<Rightarrow> span_dispatcher \<Rightarrow> datetime \<Rightarrow> pending_span \<Rightarrow> trace_record" where
  "finalise_timed_out E d now p =
     finalise E d p now StatusError
       (''span did not end within '' @ show_nat (sd_span_ttl d div 1000000000) @ '' seconds'')"

text \<open>Taking a span out of both maps, as every path that completes one does.\<close>

definition remove_span :: "span_key \<Rightarrow> u8 list \<Rightarrow> span_dispatcher \<Rightarrow> span_dispatcher" where
  "remove_span k sid d =
     d\<lparr>sd_pending := hm_remove k (sd_pending d), sd_by_span_id := hm_remove sid (sd_by_span_id d)\<rparr>"

text \<open>\<open>min_by_key\<close>: the first of the entries with the smallest deadline.\<close>

fun min_deadline :: "(span_key \<times> pending_span) list \<Rightarrow> (span_key \<times> pending_span) option" where
  "min_deadline [] = None"
| "min_deadline ((k, p) # rest) =
     (case min_deadline rest of
        None \<Rightarrow> Some (k, p)
      | Some (k', p') \<Rightarrow> if ps_deadline p' < ps_deadline p then Some (k', p') else Some (k, p))"

definition evict_oldest ::
    "span_env \<Rightarrow> (span_key, pending_span) iter \<Rightarrow> datetime \<Rightarrow> span_dispatcher
     \<Rightarrow> span_dispatcher \<times> trace_record list" where
  "evict_oldest E ord now d =
     (case map_option fst (min_deadline (ord (sd_pending d))) of
        None \<Rightarrow> (d, [])
      | Some key \<Rightarrow>
          (case hm_get (sd_pending d) key of
             None \<Rightarrow> (d, [])
           | Some p \<Rightarrow> (remove_span key (ps_span_id p) d, [finalise_timed_out E d now p])))"

fun sweep_keys ::
    "span_env \<Rightarrow> span_clock \<Rightarrow> nat \<Rightarrow> span_key list \<Rightarrow> span_dispatcher \<Rightarrow> span_dispatcher \<times> trace_record list" where
  "sweep_keys E ck n [] d = (d, [])"
| "sweep_keys E ck n (key # keys) d =
     (case hm_get (sd_pending d) key of
        None \<Rightarrow> sweep_keys E ck n keys d
      | Some p \<Rightarrow>
          (case sweep_keys E ck (Suc n) keys (remove_span key (ps_span_id p) d) of
             (d', out) \<Rightarrow> (d', finalise_timed_out E d (ck_utc ck n) p # out)))"

definition sweep_timed_out ::
    "span_env \<Rightarrow> (span_key, pending_span) iter \<Rightarrow> span_clock \<Rightarrow> span_dispatcher
     \<Rightarrow> span_dispatcher \<times> trace_record list" where
  "sweep_timed_out E ord ck d =
     sweep_keys E ck 0
       (map fst (filter (\<lambda>(_, p). ps_deadline p \<le> ck_instant ck) (ord (sd_pending d)))) d"

section \<open>Events\<close>

text \<open>Trace id, parent and orphan reason of a new span, and whether it counts as an orphan.\<close>

definition resolve_parent ::
    "span_env \<Rightarrow> span_dispatcher \<Rightarrow> span_begin \<Rightarrow> (u8 list \<times> u8 list option \<times> string option) \<times> bool" where
  "resolve_parent E d b =
     (case sb_traceparent b of
        Some tp \<Rightarrow>
          (case parse_w3c_traceparent (sp_hex E) tp of
             Some (tid, sid) \<Rightarrow> ((tid, Some sid, None), False)
           | None \<Rightarrow> ((sb_trace_id b, None, None), False))
      | None \<Rightarrow>
          if sb_parent_span_id b \<noteq> no_span then
            (case hm_get (sd_by_span_id d) (sb_parent_span_id b) of
               Some parent_key \<Rightarrow>
                 (case hm_get (sd_pending d) parent_key of
                    Some parent \<Rightarrow> ((ps_trace_id parent, Some (sb_parent_span_id b), None), False)
                  | None \<Rightarrow> ((sb_trace_id b, None, Some ''parent_span_id_not_in_pending''), False))
             | None \<Rightarrow>
                 ((sb_trace_id b, None,
                   Some (''parent_span_id_['' @ show_bytes_debug (sb_parent_span_id b) @ '']_not_found'')), True))
          else ((sb_trace_id b, None, None), False))"

text \<open>An entry under the same key is flushed before it is replaced.\<close>

definition flush_stale ::
    "span_env \<Rightarrow> datetime \<Rightarrow> span_key \<Rightarrow> span_dispatcher \<Rightarrow> (unit, span_dispatcher \<times> trace_record list) res" where
  "flush_stale E now key d =
     (case hm_get (sd_pending d) key of
        None \<Rightarrow> Ok (d, [])
      | Some stale \<Rightarrow>
          (case hm_get (sd_by_span_id d) (ps_span_id stale) of
             Some old_key \<Rightarrow>
               if overflow_checks (sp_ext E) \<and> old_key \<noteq> key then Panic
               else Ok (remove_span key (ps_span_id stale) d, [finalise_timed_out E d now stale])
           | None \<Rightarrow> Ok (remove_span key (ps_span_id stale) d, [finalise_timed_out E d now stale])))"

text \<open>Counting an orphan, and eviction when the table is full.\<close>

definition make_room ::
    "span_env \<Rightarrow> (span_key, pending_span) iter \<Rightarrow> span_clock \<Rightarrow> bool \<Rightarrow> span_dispatcher
     \<Rightarrow> span_dispatcher \<times> trace_record list" where
  "make_room E ord ck orphan d =
     (let d = (if orphan then d\<lparr>sd_orphan_counter := sd_orphan_counter d + 1\<rparr> else d)
      in if length (sd_pending d) \<ge> sd_max_pending d then evict_oldest E ord (ck_utc ck 0) d else (d, []))"

definition task_identity :: "span_dispatcher \<Rightarrow> ams_net_id \<Rightarrow> u16 \<Rightarrow> u8 \<Rightarrow> string \<times> string \<times> u16" where
  "task_identity d net_id port task_index =
     (case Option.bind (sd_registry d) (\<lambda>reg. lookup reg
             \<lparr>rk_ams_net_id = show_net_id net_id, rk_ams_source_port = port, rk_task_index = task_index\<rparr>) of
        Some m \<Rightarrow> (tm_app_name m, tm_project_name m, tm_app_port m)
      | None \<Rightarrow> ('''', '''', 0))"

definition new_span ::
    "span_clock \<Rightarrow> ams_net_id \<Rightarrow> u16 \<Rightarrow> span_begin \<Rightarrow> u8 list \<times> u8 list option \<times> string option \<Rightarrow> datetime
     \<Rightarrow> span_dispatcher \<Rightarrow> pending_span" where
  "new_span ck net_id port b = (\<lambda>(trace_id, parent, orphan_reason) start d.
     let (app_name, project_name, app_port) = task_identity d net_id port (sb_task_index b)
     in \<lparr>ps_trace_id = trace_id, ps_span_id = sb_span_id b, ps_parent_span_id = parent,
         ps_name = sb_name b, ps_kind = sb_kind b, ps_start_time = start,
         ps_attrs = (case orphan_reason of
                       Some reason \<Rightarrow> hm_insert ''TCOTEL.orphan_reason'' (AttrString reason) []
                     | None \<Rightarrow> []),
         ps_events = [], ps_deadline = ck_instant ck + sd_span_ttl d,
         ps_orphan_reason = orphan_reason, ps_ams_net_id = net_id,
         ps_task_index = sb_task_index b, ps_ams_source_port = port,
         ps_ams_app_port = app_port, ps_app_name = app_name,
         ps_project_name = project_name, ps_scope_namespace = sb_scope_namespace b\<rparr>)"

definition on_begin ::
    "span_env \<Rightarrow> (span_key, pending_span) iter \<Rightarrow> span_clock \<Rightarrow> ams_net_id \<Rightarrow> u16 \<Rightarrow> span_begin
     \<Rightarrow> span_dispatcher \<Rightarrow> (unit, span_dispatcher \<times> trace_record list) res" where
  "on_begin E ord ck net_id port b d =
     (let key = \<lparr>sk_net_id = net_id, sk_span_id = sb_span_id b\<rparr>;
          (resolved, orphan) = resolve_parent E d b;
          (d, out1) = make_room E ord ck orphan d
      in bind_res (flush_stale E (ck_utc ck 1) key d) (\<lambda>(d, out2).
         bind_res (dc_time_to_datetime (sp_ext E) (ck_utc ck 2) (sb_dc_time b)) (\<lambda>start.
           Ok (d\<lparr>sd_by_span_id := hm_insert (sb_span_id b) key (sd_by_span_id d),
                 sd_pending := hm_insert key (new_span ck net_id port b resolved start d) (sd_pending d)\<rparr>,
               out1 @ out2))))"

text \<open>The span an attribute, event or end message is for.\<close>

definition update_span :: "u8 list \<Rightarrow> (pending_span \<Rightarrow> pending_span) \<Rightarrow> span_dispatcher \<Rightarrow> span_dispatcher" where
  "update_span sid f d =
     (case hm_get (sd_by_span_id d) sid of
        None \<Rightarrow> d
      | Some key \<Rightarrow>
          (case hm_get (sd_pending d) key of
             None \<Rightarrow> d
           | Some p \<Rightarrow> d\<lparr>sd_pending := hm_insert key (f p) (sd_pending d)\<rparr>))"

definition on_attr :: "span_attr \<Rightarrow> span_dispatcher \<Rightarrow> span_dispatcher" where
  "on_attr a d =
     update_span (sa_span_id a) (\<lambda>p. p\<lparr>ps_attrs := hm_insert (sa_key a) (sa_value a) (ps_attrs p)\<rparr>) d"

definition on_event_ev ::
    "span_env \<Rightarrow> span_clock \<Rightarrow> span_event_ev \<Rightarrow> span_dispatcher \<Rightarrow> (unit, span_dispatcher) res" where
  "on_event_ev E ck v d =
     (case Option.bind (hm_get (sd_by_span_id d) (sn_span_id v)) (hm_get (sd_pending d)) of
        None \<Rightarrow> Ok d
      | Some _ \<Rightarrow>
          bind_res (dc_time_to_datetime (sp_ext E) (ck_utc ck 0) (sn_dc_time v)) (\<lambda>time.
            Ok (update_span (sn_span_id v) (\<lambda>p. p\<lparr>ps_events := ps_events p @
                  [\<lparr>ev_time = time, ev_name = sn_name v, ev_attrs = sn_attrs v\<rparr>]\<rparr>) d)))"

definition on_end ::
    "span_env \<Rightarrow> span_clock \<Rightarrow> span_end \<Rightarrow> span_dispatcher \<Rightarrow> (unit, span_dispatcher \<times> trace_record list) res" where
  "on_end E ck e d =
     (case hm_get (sd_by_span_id d) (se_span_id e) of
        None \<Rightarrow> Ok (d, [])
      | Some key \<Rightarrow>
          (case hm_get (sd_pending d) key of
             None \<Rightarrow> Ok (d, [])
           | Some p \<Rightarrow>
               bind_res (dc_time_to_datetime (sp_ext E) (ck_utc ck 0) (se_dc_time e)) (\<lambda>end_time.
                 let status = (if se_status e = 0 then StatusUnset else if se_status e = 1 then StatusOk
                               else if se_status e = 2 then StatusError else StatusUnset)
                 in Ok (remove_span key (se_span_id e) d, [finalise E d p end_time status (se_message e)]))))"

fun on_event ::
    "span_env \<Rightarrow> (span_key, pending_span) iter \<Rightarrow> span_clock \<Rightarrow> ams_net_id \<Rightarrow> u16 \<Rightarrow> trace_wire_event
     \<Rightarrow> span_dispatcher \<Rightarrow> (unit, span_dispatcher \<times> trace_record list) res" where
  "on_event E ord ck net_id port (Begin b) d = on_begin E ord ck net_id port b d"
| "on_event E ord ck net_id port (Attr a) d = Ok (on_attr a d, [])"
| "on_event E ord ck net_id port (Event v) d = bind_res (on_event_ev E ck v d) (\<lambda>d. Ok (d, []))"
| "on_event E ord ck net_id port (End e) d = on_end E ck e d"

definition pending_count :: "span_dispatcher \<Rightarrow> nat" where
  "pending_count d = length (sd_pending d)"

definition pending_by_span_id :: "span_dispatcher \<Rightarrow> u8 list \<Rightarrow> pending_span option" where
  "pending_by_span_id d sid =
     Option.bind (hm_get (sd_by_span_id d) sid) (hm_get (sd_pending d))"

definition later :: "datetime \<Rightarrow> datetime \<Rightarrow> bool" where
  "later a b \<longleftrightarrow> dt_secs a > dt_secs b \<or> dt_secs a = dt_secs b \<and> dt_nanos a > dt_nanos b"

definition current_step ::
    "span_env \<Rightarrow> ams_net_id \<Rightarrow> u8 \<Rightarrow> span_key \<times> pending_span
     \<Rightarrow> (span_key \<times> datetime \<times> string \<times> string) option \<Rightarrow> (span_key \<times> datetime \<times> string \<times> string) option" where
  "current_step E net_id task_index = (\<lambda>(key, p) best.
     if sk_net_id key = net_id \<and> ps_task_index p = task_index then
       (let this = Some (key, ps_start_time p, hex_encode (sp_hex E) (ps_trace_id p),
                         hex_encode (sp_hex E) (ps_span_id p))
        in case best of
             None \<Rightarrow> this
           | Some (_, best_time, _, _) \<Rightarrow> if later (ps_start_time p) best_time then this else best)
     else best)"

definition current_context ::
    "span_env \<Rightarrow> (span_key, pending_span) iter \<Rightarrow> span_dispatcher \<Rightarrow> ams_net_id \<Rightarrow> u8
     \<Rightarrow> (string \<times> string) option" where
  "current_context E ord d net_id task_index =
     map_option (\<lambda>(_, _, trace_hex, span_hex). (trace_hex, span_hex))
       (fold (current_step E net_id task_index) (ord (sd_pending d)) None)"

section \<open>Consistency of the two maps\<close>

definition maps_ok :: "span_dispatcher \<Rightarrow> bool" where
  "maps_ok d \<longleftrightarrow>
     hm_wf (sd_pending d) \<and> hm_wf (sd_by_span_id d) \<and>
     (\<forall>k p. hm_get (sd_pending d) k = Some p \<longrightarrow> ps_span_id p = sk_span_id k \<and> ps_ams_net_id p = sk_net_id k) \<and>
     (\<forall>sid k. hm_get (sd_by_span_id d) sid = Some k \<longrightarrow> sk_span_id k = sid \<and> hm_get (sd_pending d) k \<noteq> None)"

lemma maps_okD:
  assumes "maps_ok d" "hm_get (sd_by_span_id d) sid = Some k"
  obtains p where "hm_get (sd_pending d) k = Some p" "sk_span_id k = sid" "ps_span_id p = sid"
proof -
  have "sk_span_id k = sid" "hm_get (sd_pending d) k \<noteq> None"
    using assms by (simp_all add: maps_ok_def)
  then show thesis using assms(1) that by (auto simp: maps_ok_def)
qed

text \<open>The configuration, which no handler changes.\<close>

definition same_config :: "span_dispatcher \<Rightarrow> span_dispatcher \<Rightarrow> bool" where
  "same_config d d' \<longleftrightarrow>
     sd_max_pending d' = sd_max_pending d \<and> sd_span_ttl d' = sd_span_ttl d \<and>
     sd_service_name d' = sd_service_name d \<and> sd_host_name d' = sd_host_name d \<and>
     sd_registry d' = sd_registry d"

definition pending_ids :: "span_dispatcher \<Rightarrow> u8 list multiset" where
  "pending_ids d = image_mset (ps_span_id \<circ> snd) (mset (sd_pending d))"

definition record_ids :: "trace_record list \<Rightarrow> string multiset" where
  "record_ids out = mset (map tr_span_id out)"

lemma size_pending_ids [simp]: "size (pending_ids d) = length (sd_pending d)"
  by (simp add: pending_ids_def)

lemma tr_span_id_finalise [simp]:
  "tr_span_id (finalise E d p t c m) = hex_encode (sp_hex E) (ps_span_id p)"
  "tr_span_id (finalise_timed_out E d now p) = hex_encode (sp_hex E) (ps_span_id p)"
  by (simp_all add: finalise_def finalise_timed_out_def Let_def)

lemma remove_span_fields [simp]:
  "sd_pending (remove_span k sid d) = hm_remove k (sd_pending d)"
  "sd_by_span_id (remove_span k sid d) = hm_remove sid (sd_by_span_id d)"
  "sd_max_pending (remove_span k sid d) = sd_max_pending d"
  "sd_registry (remove_span k sid d) = sd_registry d"
  "sd_span_ttl (remove_span k sid d) = sd_span_ttl d"
  by (simp_all add: remove_span_def)

lemma same_config_refl [simp]: "same_config d d"
  by (simp add: same_config_def)

lemma same_config_trans: "same_config a b \<Longrightarrow> same_config b c \<Longrightarrow> same_config a c"
  by (simp add: same_config_def)

lemma same_config_remove [simp]: "same_config d (remove_span k sid d)"
  by (simp add: same_config_def remove_span_def)

lemma remove_span_ok:
  assumes ok: "maps_ok d" and p: "hm_get (sd_pending d) k = Some p" "ps_span_id p = sid"
  shows "maps_ok (remove_span k sid d)" "pending_ids d = add_mset sid (pending_ids (remove_span k sid d))"
proof -
  have sid: "sk_span_id k = sid" using ok p by (auto simp: maps_ok_def)
  then have other: "k' \<noteq> k" if "hm_get (sd_by_span_id d) s = Some k'" "s \<noteq> sid" for s k'
    using ok that by (auto simp: maps_ok_def)
  show "maps_ok (remove_span k sid d)"
    using ok other by (auto simp: maps_ok_def hm.get_remove split: if_splits)
  have "mset (sd_pending d) = add_mset (k, p) (mset (hm_remove k (sd_pending d)))"
    using ok p(1) by (intro mset_hm_remove) (simp_all add: maps_ok_def)
  then show "pending_ids d = add_mset sid (pending_ids (remove_span k sid d))"
    using p(2) by (simp add: pending_ids_def)
qed

text \<open>
  What every path that completes spans guarantees: the maps stay consistent, and every span that
  leaves them is in the output, once.
\<close>

definition accounts :: "span_env \<Rightarrow> span_dispatcher \<Rightarrow> u8 list multiset \<Rightarrow> span_dispatcher \<times> trace_record list \<Rightarrow> bool" where
  "accounts E d new = (\<lambda>(d', out). maps_ok d' \<and> same_config d d' \<and>
     image_mset (hex_encode (sp_hex E)) (pending_ids d + new) =
       record_ids out + image_mset (hex_encode (sp_hex E)) (pending_ids d'))"

lemma accounts_none: "maps_ok d \<Longrightarrow> accounts E d {#} (d, [])"
  by (simp add: accounts_def record_ids_def)

lemma accounts_remove:
  assumes "maps_ok d" "hm_get (sd_pending d) k = Some p" "ps_span_id p = sid"
    and "tr_span_id r = hex_encode (sp_hex E) sid"
  shows "accounts E d {#} (remove_span k sid d, [r])"
  using remove_span_ok [OF assms(1-3)] assms(4) by (simp add: accounts_def record_ids_def)

lemma accounts_trans:
  assumes "accounts E d m (d1, out1)" "accounts E d1 n (d2, out2)"
  shows "accounts E d (m + n) (d2, out1 @ out2)"
proof -
  let ?h = "image_mset (hex_encode (sp_hex E))"
  have 1: "?h (pending_ids d) + ?h m = record_ids out1 + ?h (pending_ids d1)"
    and 2: "?h (pending_ids d1) + ?h n = record_ids out2 + ?h (pending_ids d2)"
    using assms by (simp_all add: accounts_def)
  have "?h (pending_ids d + (m + n)) = (?h (pending_ids d) + ?h m) + ?h n" by simp
  also have "\<dots> = record_ids out1 + (?h (pending_ids d1) + ?h n)" by (simp add: 1)
  also have "\<dots> = record_ids (out1 @ out2) + ?h (pending_ids d2)" by (simp add: 2 record_ids_def)
  finally show ?thesis
    using assms same_config_trans by (auto simp: accounts_def)
qed

lemma min_deadline_mem: "min_deadline xs = Some (k, p) \<Longrightarrow> (k, p) \<in> set xs"
proof (induction xs arbitrary: k p)
  case (Cons x xs)
  then show ?case
    by (cases x) (auto split: option.splits if_splits prod.splits)
qed simp

lemma min_deadline_None: "min_deadline xs = None \<longleftrightarrow> xs = []"
  by (cases xs) (auto split: option.splits prod.splits)

lemma min_deadline_le: "min_deadline xs = Some (k, p) \<Longrightarrow> (k', p') \<in> set xs \<Longrightarrow> ps_deadline p \<le> ps_deadline p'"
proof (induction xs arbitrary: k p k' p')
  case (Cons x xs)
  show ?case
  proof (cases "min_deadline xs")
    case None
    then show ?thesis using Cons.prems by (cases x) (auto simp: min_deadline_None)
  next
    case (Some kp)
    obtain k1 p1 where kp: "kp = (k1, p1)" by fastforce
    have "(k'', p'') \<in> set xs \<Longrightarrow> ps_deadline p1 \<le> ps_deadline p''" for k'' p''
      using Cons.IH Some kp by blast
    then show ?thesis
      using Cons.prems Some kp by (cases x) (fastforce split: if_splits)
  qed
qed simp

lemma evict_oldest_accounts:
  assumes "iteration ord" "maps_ok d"
  shows "accounts E d {#} (evict_oldest E ord now d)"
    and "length (sd_pending (fst (evict_oldest E ord now d))) = length (sd_pending d) - 1"
proof -
  have "accounts E d {#} (evict_oldest E ord now d) \<and>
      length (sd_pending (fst (evict_oldest E ord now d))) = length (sd_pending d) - 1"
  proof (cases "min_deadline (ord (sd_pending d))")
    case None
    then have "length (sd_pending d) = 0"
      using iteration_length [OF assms(1), of "sd_pending d"] by (simp add: min_deadline_None)
    then show ?thesis using None accounts_none [OF assms(2)] by (simp add: evict_oldest_def)
  next
    case (Some kp)
    obtain k p where kp: "kp = (k, p)" by fastforce
    then have "(k, p) \<in> set (sd_pending d)"
      using min_deadline_mem Some iteration_set [OF assms(1)] by metis
    then have g: "hm_get (sd_pending d) k = Some p"
      using assms(2) by (simp add: maps_ok_def hm_mem_get)
    then show ?thesis
      using Some kp accounts_remove [OF assms(2) g refl] assms(2)
      by (simp add: evict_oldest_def hm.len_remove_old maps_ok_def)
  qed
  then show "accounts E d {#} (evict_oldest E ord now d)"
    and "length (sd_pending (fst (evict_oldest E ord now d))) = length (sd_pending d) - 1"
    by simp_all
qed

lemma sweep_keys_accounts: "maps_ok d \<Longrightarrow> accounts E d {#} (sweep_keys E ck n keys d)"
proof (induction keys arbitrary: d n)
  case Nil
  then show ?case by (simp add: accounts_none)
next
  case (Cons k keys)
  show ?case
  proof (cases "hm_get (sd_pending d) k")
    case None
    then show ?thesis using Cons by simp
  next
    case (Some p)
    let ?d = "remove_span k (ps_span_id p) d"
    obtain d' out where s: "sweep_keys E ck (Suc n) keys ?d = (d', out)" by fastforce
    have "accounts E ?d {#} (d', out)"
      using Cons.IH [OF remove_span_ok(1) [OF Cons.prems Some refl], of "Suc n"] s by simp
    from accounts_trans [OF accounts_remove [OF Cons.prems Some refl] this]
    show ?thesis using Some s by simp
  qed
qed

lemma dc_time_to_datetime_Ok: "\<not> overflow_checks X \<Longrightarrow> \<exists>t. dc_time_to_datetime X now dc = Ok t"
  by (simp add: dc_time_to_datetime_def Let_def)

lemma flush_stale_accounts:
  assumes "\<not> overflow_checks (sp_ext E)" "maps_ok d" "flush_stale E now key d = r"
  shows "\<exists>d' out. r = Ok (d', out) \<and> accounts E d {#} (d', out) \<and> hm_get (sd_pending d') key = None \<and>
           length (sd_pending d') \<le> length (sd_pending d)"
proof (cases "hm_get (sd_pending d) key")
  case None
  then show ?thesis using assms accounts_none [of d E] by (auto simp: flush_stale_def)
next
  case (Some p)
  have r: "r = Ok (remove_span key (ps_span_id p) d, [finalise_timed_out E d now p])"
    using assms Some by (auto simp: flush_stale_def split: option.split)
  show ?thesis
    unfolding r using accounts_remove [OF assms(2) Some refl] assms(2)
    by (auto simp: hm.get_remove hm.len_remove_le maps_ok_def)
qed

lemma insert_span_accounts:
  assumes "maps_ok d" "hm_get (sd_pending d) key = None"
    and "ps_span_id p = sk_span_id key" "ps_ams_net_id p = sk_net_id key"
  shows "accounts E d {#sk_span_id key#}
     (d\<lparr>sd_by_span_id := hm_insert (sk_span_id key) key (sd_by_span_id d), sd_pending := hm_insert key p (sd_pending d)\<rparr>, [])"
  using assms
  by (auto simp: accounts_def maps_ok_def same_config_def hm.get_insert record_ids_def pending_ids_def
      mset_hm_insert_new)

lemma update_span_accounts:
  assumes "maps_ok d" "\<And>p. ps_span_id (f p) = ps_span_id p \<and> ps_ams_net_id (f p) = ps_ams_net_id p"
  shows "accounts E d {#} (update_span sid f d, [])"
    and "length (sd_pending (update_span sid f d)) = length (sd_pending d)"
proof -
  have "accounts E d {#} (update_span sid f d, []) \<and> length (sd_pending (update_span sid f d)) = length (sd_pending d)"
  proof (cases "Option.bind (hm_get (sd_by_span_id d) sid) (hm_get (sd_pending d))")
    case None
    then have "update_span sid f d = d" by (auto simp: update_span_def split: option.splits)
    then show ?thesis using accounts_none [OF assms(1)] by simp
  next
    case (Some p)
    then obtain k where k: "hm_get (sd_by_span_id d) sid = Some k" "hm_get (sd_pending d) k = Some p"
      by (auto simp: bind_eq_Some_conv)
    have wf: "hm_wf (sd_pending d)" using assms(1) by (simp add: maps_ok_def)
    have "pending_ids (d\<lparr>sd_pending := hm_insert k (f p) (sd_pending d)\<rparr>) = pending_ids d"
      using mset_hm_insert_old [OF wf k(2)] mset_hm_remove [OF wf k(2)] assms(2)
      by (simp add: pending_ids_def)
    moreover have "maps_ok (d\<lparr>sd_pending := hm_insert k (f p) (sd_pending d)\<rparr>)"
      using assms k by (auto simp: maps_ok_def hm.get_insert)
    ultimately show ?thesis
      using k wf by (simp add: update_span_def accounts_def record_ids_def same_config_def hm.len_insert_old)
  qed
  then show "accounts E d {#} (update_span sid f d, [])"
    and "length (sd_pending (update_span sid f d)) = length (sd_pending d)" by simp_all
qed

lemma new_span_key [simp]:
  "ps_span_id (new_span ck net port b r start d) = sb_span_id b"
  "ps_ams_net_id (new_span ck net port b r start d) = net"
  by (cases r, simp add: new_span_def Let_def split: prod.split)+

lemma make_room_accounts:
  assumes "iteration ord" "maps_ok d"
  shows "accounts E d {#} (make_room E ord ck orphan d)"
    and "length (sd_pending (fst (make_room E ord ck orphan d))) =
      (if length (sd_pending d) \<ge> sd_max_pending d then length (sd_pending d) - 1 else length (sd_pending d))"
proof -
  let ?d = "if orphan then d\<lparr>sd_orphan_counter := sd_orphan_counter d + 1\<rparr> else d"
  have d: "maps_ok ?d" "sd_pending ?d = sd_pending d" "sd_max_pending ?d = sd_max_pending d"
    using assms(2) by (simp_all add: maps_ok_def)
  have "accounts E d {#} (?d, [])"
    using assms(2) by (auto simp: accounts_def record_ids_def pending_ids_def same_config_def maps_ok_def)
  moreover have "accounts E ?d {#} (make_room E ord ck orphan d)"
    using evict_oldest_accounts(1) [OF assms(1) d(1)] accounts_none [OF d(1)]
    by (simp add: make_room_def Let_def)
  ultimately show "accounts E d {#} (make_room E ord ck orphan d)"
    using accounts_trans [of E d "{#}" ?d "[]" "{#}"]
    by (cases "make_room E ord ck orphan d") simp
  show "length (sd_pending (fst (make_room E ord ck orphan d))) =
      (if length (sd_pending d) \<ge> sd_max_pending d then length (sd_pending d) - 1 else length (sd_pending d))"
    using evict_oldest_accounts(2) [OF assms(1) d(1)] d(2,3) by (simp add: make_room_def Let_def)
qed

lemma on_begin_accounts:
  assumes ne: "\<not> overflow_checks (sp_ext E)" and ord: "iteration ord" and ok: "maps_ok d"
  shows "\<exists>d' out. on_begin E ord ck net port b d = Ok (d', out) \<and> accounts E d {#sb_span_id b#} (d', out) \<and>
           length (sd_pending d') \<le> Suc (if length (sd_pending d) \<ge> sd_max_pending d
             then length (sd_pending d) - 1 else length (sd_pending d))"
proof -
  let ?key = "\<lparr>sk_net_id = net, sk_span_id = sb_span_id b\<rparr>"
  obtain r orphan where rp: "resolve_parent E d b = (r, orphan)" by fastforce
  obtain d1 out1 where e: "make_room E ord ck orphan d = (d1, out1)" by fastforce
  have a1: "accounts E d {#} (d1, out1)"
    using make_room_accounts(1) [OF ord ok, of E ck orphan] e by simp
  obtain d2 out2 where fl: "flush_stale E (ck_utc ck 1) ?key d1 = Ok (d2, out2)"
    "accounts E d1 {#} (d2, out2)" "hm_get (sd_pending d2) ?key = None"
    "length (sd_pending d2) \<le> length (sd_pending d1)"
    using flush_stale_accounts [OF ne, of d1 _ ?key] a1 by (force simp: accounts_def)
  obtain t where t: "dc_time_to_datetime (sp_ext E) (ck_utc ck 2) (sb_dc_time b) = Ok t"
    using dc_time_to_datetime_Ok [OF ne] by blast
  let ?p = "new_span ck net port b r t d2"
  have b: "on_begin E ord ck net port b d =
      Ok (d2\<lparr>sd_by_span_id := hm_insert (sb_span_id b) ?key (sd_by_span_id d2),
             sd_pending := hm_insert ?key ?p (sd_pending d2)\<rparr>, out1 @ out2)"
    by (simp add: on_begin_def Let_def rp e fl(1) [unfolded One_nat_def] t)
  have ok2: "maps_ok d2" using fl(2) by (simp add: accounts_def)
  from insert_span_accounts [OF ok2 fl(3), of ?p E]
  have "accounts E d2 {#sb_span_id b#} (d2\<lparr>sd_by_span_id := hm_insert (sb_span_id b) ?key (sd_by_span_id d2),
             sd_pending := hm_insert ?key ?p (sd_pending d2)\<rparr>, [])"
    by simp
  from accounts_trans [OF accounts_trans [OF a1 fl(2)] this] fl(4) b
    make_room_accounts(2) [OF ord ok, of E ck orphan]
  show ?thesis
    using hm.len_insert_le [of "sd_pending d2" ?key ?p] ok2 e by (simp add: maps_ok_def)
qed

lemma on_end_accounts:
  assumes "\<not> overflow_checks (sp_ext E)" "maps_ok d"
  shows "\<exists>d' out. on_end E ck e d = Ok (d', out) \<and> accounts E d {#} (d', out) \<and>
           length (sd_pending d') \<le> length (sd_pending d)"
proof (cases "Option.bind (hm_get (sd_by_span_id d) (se_span_id e)) (hm_get (sd_pending d))")
  case None
  then have "on_end E ck e d = Ok (d, [])" by (auto simp: on_end_def split: option.splits)
  then show ?thesis using accounts_none [OF assms(2)] by auto
next
  case (Some p)
  then obtain k where k: "hm_get (sd_by_span_id d) (se_span_id e) = Some k" "hm_get (sd_pending d) k = Some p"
    by (auto simp: bind_eq_Some_conv)
  obtain t where t: "dc_time_to_datetime (sp_ext E) (ck_utc ck 0) (se_dc_time e) = Ok t"
    using dc_time_to_datetime_Ok [OF assms(1)] by blast
  have sid: "ps_span_id p = se_span_id e" using assms(2) k by (auto simp: maps_ok_def)
  obtain st where "on_end E ck e d =
      Ok (remove_span k (se_span_id e) d, [finalise E d p t st (se_message e)])"
    using k t by (simp add: on_end_def Let_def)
  then show ?thesis
    using accounts_remove [OF assms(2) k(2) sid] sid assms(2)
    by (simp add: hm.len_remove_le maps_ok_def)
qed

section \<open>The dispatcher as a machine\<close>

text \<open>
  The service drives the dispatcher from two tasks under one lock: one feeds it the events of the
  channel, one sweeps every second.
\<close>

datatype span_input =
    Wire span_clock ams_net_id u16 trace_wire_event
  | Sweep span_clock

fun span_step ::
    "span_env \<Rightarrow> (span_key, pending_span) iter \<Rightarrow> span_dispatcher \<Rightarrow> span_input \<Rightarrow> span_dispatcher \<times> trace_record list" where
  "span_step E ord d (Wire ck net port ev) =
     (case on_event E ord ck net port ev d of Ok r \<Rightarrow> r | _ \<Rightarrow> (d, []))"
| "span_step E ord d (Sweep ck) = sweep_timed_out E ord ck d"

fun begun :: "span_input \<Rightarrow> u8 list multiset" where
  "begun (Wire ck net port (Begin b)) = {#sb_span_id b#}"
| "begun _ = {#}"

definition capacity_ok :: "span_dispatcher \<Rightarrow> bool" where
  "capacity_ok d \<longleftrightarrow> length (sd_pending d) \<le> max 1 (sd_max_pending d)"

lemma on_event_accounts:
  assumes "\<not> overflow_checks (sp_ext E)" "iteration ord" "maps_ok d" "capacity_ok d"
  shows "\<exists>d' out. on_event E ord ck net port ev d = Ok (d', out) \<and>
           accounts E d (begun (Wire ck net port ev)) (d', out) \<and> capacity_ok d'"
proof (cases ev)
  case (Begin b)
  obtain d' out where "on_begin E ord ck net port b d = Ok (d', out)" "accounts E d {#sb_span_id b#} (d', out)"
    "length (sd_pending d') \<le> Suc (if length (sd_pending d) \<ge> sd_max_pending d
             then length (sd_pending d) - 1 else length (sd_pending d))"
    using on_begin_accounts [OF assms(1-3)] by metis
  then show ?thesis
    using Begin assms(4) by (auto simp: capacity_ok_def accounts_def same_config_def split: if_splits)
next
  case (Attr a)
  then show ?thesis
    using update_span_accounts [OF assms(3)] assms(4)
    by (simp add: on_attr_def capacity_ok_def) (simp add: update_span_def split: option.split)
next
  case (Event v)
  obtain t where t: "dc_time_to_datetime (sp_ext E) (ck_utc ck 0) (sn_dc_time v) = Ok t"
    using dc_time_to_datetime_Ok [OF assms(1)] by blast
  let ?f = "\<lambda>p. p\<lparr>ps_events := ps_events p @ [\<lparr>ev_time = t, ev_name = sn_name v, ev_attrs = sn_attrs v\<rparr>]\<rparr>"
  have "on_event_ev E ck v d = Ok (update_span (sn_span_id v) ?f d)"
    using t by (auto simp: on_event_ev_def update_span_def split: option.split)
  moreover have "accounts E d {#} (update_span (sn_span_id v) ?f d, [])"
    "length (sd_pending (update_span (sn_span_id v) ?f d)) = length (sd_pending d)"
    using update_span_accounts [OF assms(3), of ?f] by auto
  ultimately show ?thesis
    using Event assms(4) by (simp add: capacity_ok_def accounts_def same_config_def)
next
  case (End e)
  then show ?thesis
    using on_end_accounts [OF assms(1,3), of ck e] assms(4)
    by (fastforce simp: capacity_ok_def accounts_def same_config_def)
qed

lemma sweep_keys_length: "maps_ok d \<Longrightarrow> length (sd_pending (fst (sweep_keys E ck n keys d))) \<le> length (sd_pending d)"
proof (induction keys arbitrary: d n)
  case (Cons k keys)
  show ?case
  proof (cases "hm_get (sd_pending d) k")
    case (Some p)
    let ?d = "remove_span k (ps_span_id p) d"
    have "length (sd_pending (fst (sweep_keys E ck (Suc n) keys ?d))) \<le> length (sd_pending ?d)"
      by (rule Cons.IH) (rule remove_span_ok(1) [OF Cons.prems Some refl])
    also have "length (sd_pending ?d) \<le> length (sd_pending d)"
      using Cons.prems by (simp add: hm.len_remove_le maps_ok_def)
    finally show ?thesis using Some by (auto split: prod.split)
  qed (use Cons in simp)
qed simp

lemma span_step_accounts:
  assumes "\<not> overflow_checks (sp_ext E)" "iteration ord" "maps_ok d" "capacity_ok d"
  shows "accounts E d (begun i) (span_step E ord d i) \<and> capacity_ok (fst (span_step E ord d i))"
proof (cases i)
  case (Wire ck net port ev)
  then show ?thesis using on_event_accounts [OF assms, of ck net port ev] by auto
next
  case (Sweep ck)
  have "accounts E d {#} (sweep_timed_out E ord ck d)"
    unfolding sweep_timed_out_def by (rule sweep_keys_accounts [OF assms(3)])
  moreover from this have "sd_max_pending (fst (sweep_timed_out E ord ck d)) = sd_max_pending d"
    by (auto simp: accounts_def same_config_def split: prod.splits)
  moreover have "length (sd_pending (fst (sweep_timed_out E ord ck d))) \<le> length (sd_pending d)"
    unfolding sweep_timed_out_def by (rule sweep_keys_length [OF assms(3)])
  ultimately show ?thesis
    using Sweep assms(4) by (simp add: capacity_ok_def)
qed

interpretation spans: machine_invariant "span_step E ord" "\<lambda>_. True"
    "\<lambda>d. iteration ord \<and> \<not> overflow_checks (sp_ext E) \<longrightarrow> maps_ok d \<and> capacity_ok d"
  for E ord
proof unfold_locales
  fix d i
  assume "iteration ord \<and> \<not> overflow_checks (sp_ext E) \<longrightarrow> maps_ok d \<and> capacity_ok d"
  then show "iteration ord \<and> \<not> overflow_checks (sp_ext E) \<longrightarrow>
      maps_ok (fst (span_step E ord d i)) \<and> capacity_ok (fst (span_step E ord d i))"
    using span_step_accounts [of E ord d i] by (auto simp: accounts_def split: prod.splits)
qed

lemma span_run_accounts:
  assumes "\<not> overflow_checks (sp_ext E)" "iteration ord"
  shows "maps_ok d \<Longrightarrow> capacity_ok d \<Longrightarrow>
    accounts E d (sum_list (map begun ins)) (run_machine (span_step E ord) d ins)"
proof (induction ins arbitrary: d)
  case (Cons i ins)
  obtain d1 out1 where s: "span_step E ord d i = (d1, out1)" by fastforce
  obtain d2 out2 where r: "run_machine (span_step E ord) d1 ins = (d2, out2)" by fastforce
  have a: "accounts E d (begun i) (d1, out1)" "capacity_ok d1"
    using span_step_accounts [OF assms Cons.prems, of i] s by simp_all
  then have "accounts E d1 (sum_list (map begun ins)) (d2, out2)"
    using Cons.IH [of d1] r by (simp add: accounts_def)
  from accounts_trans [OF a(1) this] show ?case using s r by simp
qed (simp add: accounts_none)

lemma maps_ok_new: "sd_pending d = [] \<Longrightarrow> sd_by_span_id d = [] \<Longrightarrow> maps_ok d \<and> capacity_ok d"
  by (simp add: maps_ok_def capacity_ok_def)

section \<open>Abstract specification: one table by span id\<close>

text \<open>
  What the two maps together mean to a sender: a table from span ids to open spans. The specification
  of the events knows this table only.
\<close>

type_synonym span_table = "u8 list \<Rightarrow> pending_span option"

definition spec_resolve ::
    "span_env \<Rightarrow> span_table \<Rightarrow> span_begin \<Rightarrow> u8 list \<times> u8 list option \<times> string option" where
  "spec_resolve E tbl b =
     (case sb_traceparent b of
        Some tp \<Rightarrow>
          (case parse_w3c_traceparent (sp_hex E) tp of
             Some (tid, sid) \<Rightarrow> (tid, Some sid, None)
           | None \<Rightarrow> (sb_trace_id b, None, None))
      | None \<Rightarrow>
          if sb_parent_span_id b = no_span then (sb_trace_id b, None, None)
          else case tbl (sb_parent_span_id b) of
                 Some parent \<Rightarrow> (ps_trace_id parent, Some (sb_parent_span_id b), None)
               | None \<Rightarrow>
                   (sb_trace_id b, None,
                    Some (''parent_span_id_['' @ show_bytes_debug (sb_parent_span_id b) @ '']_not_found'')))"

definition add_event :: "datetime \<Rightarrow> span_event_ev \<Rightarrow> pending_span \<Rightarrow> pending_span" where
  "add_event time v p =
     p\<lparr>ps_events := ps_events p @ [\<lparr>ev_time = time, ev_name = sn_name v, ev_attrs = sn_attrs v\<rparr>]\<rparr>"

definition add_attr :: "span_attr \<Rightarrow> pending_span \<Rightarrow> pending_span" where
  "add_attr a p = p\<lparr>ps_attrs := hm_insert (sa_key a) (sa_value a) (ps_attrs p)\<rparr>"

definition end_status :: "u8 \<Rightarrow> span_status_code" where
  "end_status s = (if s = 1 then StatusOk else if s = 2 then StatusError else StatusUnset)"

fun spec_event ::
    "span_env \<Rightarrow> span_dispatcher \<Rightarrow> span_clock \<Rightarrow> ams_net_id \<Rightarrow> u16 \<Rightarrow> trace_wire_event \<Rightarrow> span_table
     \<Rightarrow> (unit, span_table \<times> trace_record list) res" where
  "spec_event E cfg ck net port (Begin b) tbl =
     bind_res (dc_time_to_datetime (sp_ext E) (ck_utc ck 2) (sb_dc_time b)) (\<lambda>start.
       Ok (tbl(sb_span_id b \<mapsto> new_span ck net port b (spec_resolve E tbl b) start cfg), []))"
| "spec_event E cfg ck net port (Attr a) tbl =
     Ok (tbl(sa_span_id a := map_option (add_attr a) (tbl (sa_span_id a))), [])"
| "spec_event E cfg ck net port (Event v) tbl =
     (case tbl (sn_span_id v) of
        None \<Rightarrow> Ok (tbl, [])
      | Some p \<Rightarrow>
          bind_res (dc_time_to_datetime (sp_ext E) (ck_utc ck 0) (sn_dc_time v)) (\<lambda>time.
            Ok (tbl(sn_span_id v \<mapsto> add_event time v p), [])))"
| "spec_event E cfg ck net port (End e) tbl =
     (case tbl (se_span_id e) of
        None \<Rightarrow> Ok (tbl, [])
      | Some p \<Rightarrow>
          bind_res (dc_time_to_datetime (sp_ext E) (ck_utc ck 0) (se_dc_time e)) (\<lambda>end_time.
            Ok (tbl(se_span_id e := None), [finalise E cfg p end_time (end_status (se_status e)) (se_message e)])))"

lemma table_update_span:
  assumes "maps_ok d"
  shows "pending_by_span_id (update_span sid f d) =
           (pending_by_span_id d)(sid := map_option f (pending_by_span_id d sid))"
proof
  fix s
  show "pending_by_span_id (update_span sid f d) s =
      ((pending_by_span_id d)(sid := map_option f (pending_by_span_id d sid))) s"
  proof (cases "hm_get (sd_by_span_id d) sid")
    case None
    then show ?thesis by (simp add: pending_by_span_id_def update_span_def)
  next
    case (Some k)
    then obtain p where p: "hm_get (sd_pending d) k = Some p" "sk_span_id k = sid"
      using maps_okD [OF assms] by metis
    have "k' \<noteq> k" if "hm_get (sd_by_span_id d) s = Some k'" "s \<noteq> sid" for k'
      using assms that p(2) by (auto simp: maps_ok_def)
    then show ?thesis
      using Some p(1) by (cases "hm_get (sd_by_span_id d) s")
        (auto simp: pending_by_span_id_def update_span_def hm.get_insert)
  qed
qed

lemma table_remove_span:
  assumes "maps_ok d" "sk_span_id k = sid"
  shows "pending_by_span_id (remove_span k sid d) = (pending_by_span_id d)(sid := None)"
proof
  fix s
  have "k' \<noteq> k" if "hm_get (sd_by_span_id d) s = Some k'" "s \<noteq> sid" for k'
    using assms that by (auto simp: maps_ok_def)
  then show "pending_by_span_id (remove_span k sid d) s = ((pending_by_span_id d)(sid := None)) s"
    using assms(1) by (cases "hm_get (sd_by_span_id d) s")
      (auto simp: pending_by_span_id_def hm.get_remove maps_ok_def)
qed

lemma table_insert_span:
  assumes "maps_ok d" "sk_span_id k = sid"
  shows "pending_by_span_id (d\<lparr>sd_by_span_id := hm_insert sid k (sd_by_span_id d),
      sd_pending := hm_insert k p (sd_pending d)\<rparr>) = (pending_by_span_id d)(sid \<mapsto> p)"
proof
  fix s
  have "k' \<noteq> k" if "hm_get (sd_by_span_id d) s = Some k'" "s \<noteq> sid" for k'
    using assms that by (auto simp: maps_ok_def)
  then show "pending_by_span_id (d\<lparr>sd_by_span_id := hm_insert sid k (sd_by_span_id d),
      sd_pending := hm_insert k p (sd_pending d)\<rparr>) s = ((pending_by_span_id d)(sid \<mapsto> p)) s"
    by (cases "hm_get (sd_by_span_id d) s") (auto simp: pending_by_span_id_def hm.get_insert)
qed

lemma resolve_parent_table:
  assumes "maps_ok d"
  shows "fst (resolve_parent E d b) = spec_resolve E (pending_by_span_id d) b"
proof (cases "hm_get (sd_by_span_id d) (sb_parent_span_id b)")
  case (Some k)
  then obtain p where "hm_get (sd_pending d) k = Some p" using maps_okD [OF assms] by metis
  then show ?thesis
    using Some by (auto simp: resolve_parent_def spec_resolve_def pending_by_span_id_def split: option.split)
qed (auto simp: resolve_parent_def spec_resolve_def pending_by_span_id_def split: option.split)

definition map_res :: "('a \<Rightarrow> 'b) \<Rightarrow> ('e, 'a) res \<Rightarrow> ('e, 'b) res" where
  "map_res f r = bind_res r (\<lambda>x. Ok (f x))"

lemma map_res_simps [simp]: "map_res f (Ok x) = Ok (f x)" "map_res f (Err e) = Err e" "map_res f Panic = Panic"
  by (simp_all add: map_res_def)

lemma map_res_bind: "map_res f (bind_res r g) = bind_res r (\<lambda>x. map_res f (g x))"
  by (cases r) simp_all

lemma maps_ok_orphan [simp]: "maps_ok (d\<lparr>sd_orphan_counter := n\<rparr>) = maps_ok d"
  by (simp add: maps_ok_def)

lemma table_orphan [simp]: "pending_by_span_id (d\<lparr>sd_orphan_counter := n\<rparr>) = pending_by_span_id d"
  by (simp add: pending_by_span_id_def fun_eq_iff)

lemma new_span_orphan [simp]:
  "new_span ck net port b r start (d\<lparr>sd_orphan_counter := n\<rparr>) = new_span ck net port b r start d"
  by (cases r) (simp add: new_span_def task_identity_def)

definition admissible :: "ams_net_id \<Rightarrow> trace_wire_event \<Rightarrow> span_dispatcher \<Rightarrow> bool" where
  "admissible net ev d =
     (case ev of
        Begin b \<Rightarrow> length (sd_pending d) < sd_max_pending d \<and>
          hm_get (sd_pending d) \<lparr>sk_net_id = net, sk_span_id = sb_span_id b\<rparr> = None
      | _ \<Rightarrow> True)"

definition table_of :: "span_dispatcher \<times> trace_record list \<Rightarrow> span_table \<times> trace_record list" where
  "table_of = (\<lambda>(d, out). (pending_by_span_id d, out))"

lemma on_begin_table:
  assumes ok: "maps_ok d" and adm: "admissible net (Begin b) d"
  shows "map_res table_of (on_begin E ord ck net port b d) =
           spec_event E d ck net port (Begin b) (pending_by_span_id d)"
proof -
  let ?key = "\<lparr>sk_net_id = net, sk_span_id = sb_span_id b\<rparr>"
  obtain r orphan where rp: "resolve_parent E d b = (r, orphan)" by fastforce
  let ?d = "if orphan then d\<lparr>sd_orphan_counter := sd_orphan_counter d + 1\<rparr> else d"
  have room: "make_room E ord ck orphan d = (?d, [])"
    using adm by (simp add: make_room_def admissible_def)
  have flush: "flush_stale E now ?key ?d = Ok (?d, [])" for now
    using adm by (simp add: flush_stale_def admissible_def)
  have d: "maps_ok ?d" "pending_by_span_id ?d = pending_by_span_id d"
    "new_span ck net port b r t ?d = new_span ck net port b r t d" for t
    using ok by simp_all
  have t: "table_of (?d\<lparr>sd_by_span_id := hm_insert (sb_span_id b) ?key (sd_by_span_id ?d),
        sd_pending := hm_insert ?key (new_span ck net port b r t ?d) (sd_pending ?d)\<rparr>, []) =
      ((pending_by_span_id d)(sb_span_id b \<mapsto> new_span ck net port b r t d), [])" for t
    unfolding table_of_def using table_insert_span [OF d(1), of ?key "sb_span_id b"] d(2,3) by simp
  have b: "on_begin E ord ck net port b d =
      bind_res (dc_time_to_datetime (sp_ext E) (ck_utc ck 2) (sb_dc_time b)) (\<lambda>t.
        Ok (?d\<lparr>sd_by_span_id := hm_insert (sb_span_id b) ?key (sd_by_span_id ?d),
               sd_pending := hm_insert ?key (new_span ck net port b r t ?d) (sd_pending ?d)\<rparr>, []))"
    unfolding on_begin_def Let_def rp prod.case room flush by simp
  have r: "spec_resolve E (pending_by_span_id d) b = r"
    using resolve_parent_table [OF ok, of E b] rp by simp
  show ?thesis by (simp only: b map_res_bind map_res_simps t spec_event.simps r)
qed

lemma on_end_table:
  assumes ok: "maps_ok d"
  shows "map_res table_of (on_end E ck e d) = spec_event E d ck net port (End e) (pending_by_span_id d)"
proof (cases "hm_get (sd_by_span_id d) (se_span_id e)")
  case (Some k)
  then obtain p where p: "hm_get (sd_pending d) k = Some p" "sk_span_id k = se_span_id e"
    using maps_okD [OF ok] by metis
  have "table_of (remove_span k (se_span_id e) d, out) = ((pending_by_span_id d)(se_span_id e := None), out)" for out
    using table_remove_span [OF ok p(2)] by (simp add: table_of_def)
  moreover have "pending_by_span_id d (se_span_id e) = Some p"
    using Some p by (simp add: pending_by_span_id_def)
  ultimately show ?thesis
    using Some p by (simp add: on_end_def Let_def map_res_bind end_status_def)
qed (simp add: on_end_def pending_by_span_id_def table_of_def)

lemma on_event_ev_table:
  assumes ok: "maps_ok d"
  shows "map_res (\<lambda>d. (pending_by_span_id d, [])) (on_event_ev E ck v d) =
           spec_event E d ck net port (Event v) (pending_by_span_id d)"
proof (cases "pending_by_span_id d (sn_span_id v)")
  case (Some p)
  then have "Option.bind (hm_get (sd_by_span_id d) (sn_span_id v)) (hm_get (sd_pending d)) = Some p"
    by (simp add: pending_by_span_id_def)
  then show ?thesis
    using Some by (simp add: on_event_ev_def map_res_bind table_update_span [OF ok] add_event_def)
next
  case None
  then have "Option.bind (hm_get (sd_by_span_id d) (sn_span_id v)) (hm_get (sd_pending d)) = None"
    by (simp add: pending_by_span_id_def)
  then show ?thesis using None by (simp add: on_event_ev_def)
qed

lemma on_event_table:
  assumes "maps_ok d" "admissible net ev d"
  shows "map_res table_of (on_event E ord ck net port ev d) =
           spec_event E d ck net port ev (pending_by_span_id d)"
proof (cases ev)
  case (Begin b)
  then show ?thesis using on_begin_table [OF assms(1)] assms(2) by simp
next
  case (Attr a)
  then show ?thesis
    using table_update_span [OF assms(1), of "sa_span_id a" "add_attr a"]
    by (simp add: on_attr_def table_of_def add_attr_def [abs_def])
next
  case (Event v)
  then show ?thesis
    using on_event_ev_table [OF assms(1), of E ck v net port] by (simp add: map_res_bind table_of_def) (simp add: map_res_def)
next
  case (End e)
  then show ?thesis using on_end_table [OF assms(1), of E ck e net port] by simp
qed

section \<open>The life of one span among others\<close>

definition dc_time :: "ext \<Rightarrow> datetime \<Rightarrow> int \<Rightarrow> datetime" where
  "dc_time X now dc = (case dc_time_to_datetime X now dc of Ok t \<Rightarrow> t | _ \<Rightarrow> now)"

lemma dc_time_Ok: "\<not> overflow_checks X \<Longrightarrow> dc_time_to_datetime X now dc = Ok (dc_time X now dc)"
  using dc_time_to_datetime_Ok [of X now dc] by (auto simp: dc_time_def)

text \<open>Inputs that leave the span \<open>sid\<close> open: no sweep, no begin or end of that span.\<close>

fun keeps_open :: "u8 list \<Rightarrow> span_input \<Rightarrow> bool" where
  "keeps_open sid (Wire ck net port (Begin b)) = (sb_span_id b \<noteq> sid)"
| "keeps_open sid (Wire ck net port (End e)) = (se_span_id e \<noteq> sid)"
| "keeps_open sid (Wire ck net port _) = True"
| "keeps_open sid (Sweep ck) = False"

fun live :: "span_env \<Rightarrow> u8 list \<Rightarrow> span_input \<Rightarrow> pending_span \<Rightarrow> pending_span" where
  "live E sid (Wire ck net port (Attr a)) p = (if sa_span_id a = sid then add_attr a p else p)"
| "live E sid (Wire ck net port (Event v)) p =
     (if sn_span_id v = sid then add_event (dc_time (sp_ext E) (ck_utc ck 0) (sn_dc_time v)) v p else p)"
| "live E sid _ p = p"

lemma on_begin_other:
  assumes ok: "maps_ok d" and room: "length (sd_pending d) < sd_max_pending d"
    and other: "sb_span_id b \<noteq> sid" and r: "on_begin E ord ck net port b d = Ok (d', out)"
  shows "pending_by_span_id d' sid = pending_by_span_id d sid"
proof -
  let ?key = "\<lparr>sk_net_id = net, sk_span_id = sb_span_id b\<rparr>"
  obtain res orphan where rp: "resolve_parent E d b = (res, orphan)" by fastforce
  let ?d = "if orphan then d\<lparr>sd_orphan_counter := sd_orphan_counter d + 1\<rparr> else d"
  have mr: "make_room E ord ck orphan d = (?d, [])" using room by (simp add: make_room_def)
  have okd: "maps_ok ?d" "pending_by_span_id ?d = pending_by_span_id d" using ok by simp_all
  obtain d2 out2 where fl: "flush_stale E (ck_utc ck 1) ?key ?d = Ok (d2, out2)"
    using r unfolding on_begin_def Let_def rp prod.case mr by (auto simp: bind_res_Ok_iff)
  have d2: "maps_ok d2 \<and> pending_by_span_id d2 sid = pending_by_span_id d sid"
  proof (cases "hm_get (sd_pending ?d) ?key")
    case None
    then show ?thesis using fl okd by (simp add: flush_stale_def)
  next
    case (Some stale)
    have id: "ps_span_id stale = sb_span_id b" using Some okd(1) by (auto simp: maps_ok_def)
    then have "d2 = remove_span ?key (sb_span_id b) ?d"
      using fl Some by (auto simp: flush_stale_def split: option.splits if_splits)
    then show ?thesis
      using remove_span_ok(1) [OF okd(1) Some id] table_remove_span [OF okd(1), of ?key] okd(2) other
      by simp
  qed
  obtain t where "d' = d2\<lparr>sd_by_span_id := hm_insert (sb_span_id b) ?key (sd_by_span_id d2),
      sd_pending := hm_insert ?key (new_span ck net port b res t d2) (sd_pending d2)\<rparr>"
    using r unfolding on_begin_def Let_def rp prod.case mr fl by (auto simp: bind_res_Ok_iff)
  then show ?thesis using table_insert_span [of d2 ?key "sb_span_id b"] d2 other by simp
qed

lemma span_step_live:
  assumes ne: "\<not> overflow_checks (sp_ext E)" and ord: "iteration ord" and ok: "maps_ok d"
    and op: "keeps_open sid i" and p: "pending_by_span_id d sid = Some p"
    and room: "length (sd_pending d) + size (begun i) \<le> sd_max_pending d"
  shows "pending_by_span_id (fst (span_step E ord d i)) sid = Some (live E sid i p)"
proof (cases i)
  case (Wire ck net port ev)
  have "capacity_ok d" using room by (simp add: capacity_ok_def)
  from on_event_accounts [OF ne ord ok this, of ck net port ev]
  obtain d' out where r: "on_event E ord ck net port ev d = Ok (d', out)" by metis
  show ?thesis
  proof (cases ev)
    case (Begin b)
    then show ?thesis
      using Wire on_begin_other [OF ok, of b sid E ord ck net port d' out] r p op room by simp
  next
    case (Attr a)
    then show ?thesis
      using Wire p table_update_span [OF ok, of "sa_span_id a" "add_attr a"]
      by (auto simp: on_attr_def add_attr_def [abs_def])
  next
    case (Event v)
    then have "spec_event E d ck net port ev (pending_by_span_id d) = Ok (pending_by_span_id d', out)"
      using on_event_table [OF ok, of net ev E ord ck port] r
      by (simp add: admissible_def table_of_def del: spec_event.simps)
    then show ?thesis
      using Wire Event r p by (cases "pending_by_span_id d (sn_span_id v)") (auto simp: dc_time_Ok [OF ne] dest!: sym [of _ "pending_by_span_id d'"])
  next
    case (End e)
    then have "spec_event E d ck net port ev (pending_by_span_id d) = Ok (pending_by_span_id d', out)"
      using on_event_table [OF ok, of net ev E ord ck port] r
      by (simp add: admissible_def table_of_def del: spec_event.simps)
    then show ?thesis
      using Wire End r p op by (cases "pending_by_span_id d (se_span_id e)")
        (auto simp: dc_time_Ok [OF ne] dest!: sym [of _ "pending_by_span_id d'"])
  qed
qed (use op in simp)

lemma span_step_size:
  assumes ne: "\<not> overflow_checks (sp_ext E)" and ord: "iteration ord" and ok: "maps_ok d" "capacity_ok d"
  shows "length (sd_pending (fst (span_step E ord d i))) \<le> length (sd_pending d) + size (begun i)"
proof -
  obtain d' out where s: "span_step E ord d i = (d', out)" by fastforce
  then have "image_mset (hex_encode (sp_hex E)) (pending_ids d + begun i) =
      record_ids out + image_mset (hex_encode (sp_hex E)) (pending_ids d')"
    using span_step_accounts [OF ne ord ok, of i] by (simp add: accounts_def)
  then have "size (pending_ids d + begun i) = length out + size (pending_ids d')"
    by (metis record_ids_def length_map size_image_mset size_mset size_union)
  then show ?thesis using s by simp
qed

lemma span_run_live:
  assumes ne: "\<not> overflow_checks (sp_ext E)" and ord: "iteration ord"
  shows "maps_ok d \<Longrightarrow> list_all (keeps_open sid) ins \<Longrightarrow> pending_by_span_id d sid = Some p \<Longrightarrow>
    length (sd_pending d) + size (sum_list (map begun ins)) \<le> sd_max_pending d \<Longrightarrow>
    (let d' = fst (run_machine (span_step E ord) d ins) in
       pending_by_span_id d' sid = Some (fold (live E sid) ins p) \<and> maps_ok d' \<and> same_config d d')"
proof (induction ins arbitrary: d p)
  case (Cons i ins)
  let ?d = "fst (span_step E ord d i)"
  have cap: "capacity_ok d" using Cons.prems(4) by (simp add: capacity_ok_def)
  have a: "maps_ok ?d" "same_config d ?d"
    using span_step_accounts [OF ne ord Cons.prems(1) cap, of i] by (auto simp: accounts_def split: prod.splits)
  have "pending_by_span_id ?d sid = Some (live E sid i p)"
    using Cons.prems by (intro span_step_live [OF ne ord]) simp_all
  moreover have "length (sd_pending ?d) + size (sum_list (map begun ins)) \<le> sd_max_pending ?d"
    using span_step_size [OF ne ord Cons.prems(1) cap, of i] Cons.prems(4) a(2) by (simp add: same_config_def)
  ultimately have "let d' = fst (run_machine (span_step E ord) ?d ins) in
      pending_by_span_id d' sid = Some (fold (live E sid) ins (live E sid i p)) \<and> maps_ok d' \<and> same_config ?d d'"
    using Cons.prems(2) a by (intro Cons.IH) simp_all
  then show ?case
    using a(2) by (simp add: fst_run_machine Let_def del: run_machine.simps) (auto intro: same_config_trans)
qed simp

end
