(* ===== verification/Span_Properties.thy ===== *)
theory Span_Properties
  imports Span_Dispatcher
begin

text \<open>
  The correctness of the span dispatcher: accounting for every span, refinement of the abstract table,
  the life of a span among others, time-outs, the trace context of incoming requests and of log
  entries.
\<close>

section \<open>Hexadecimal text\<close>

text \<open>The documented behaviour of the \<^verbatim>\<open>hex\<close> crate, and an instance.\<close>

definition hex_codec :: "hex_ops \<Rightarrow> bool" where
  "hex_codec H \<longleftrightarrow>
     (\<forall>bs. hex_decode H (hex_encode H bs) = Some bs \<and> length (hex_encode H bs) = 2 * length bs \<and>
           CHR ''-'' \<notin> set (hex_encode H bs))"

fun unhex :: "string \<Rightarrow> u8 list option" where
  "unhex [] = Some []"
| "unhex [c] = None"
| "unhex (a # b # s) =
     (case (hex_val a, hex_val b, unhex s) of
        (Some x, Some y, Some bs) \<Rightarrow> Some (of_nat (16 * x + y) # bs) | _ \<Rightarrow> None)"

definition std_hex :: hex_ops where
  "std_hex = \<lparr>hex_encode = hex_string, hex_decode = unhex\<rparr>"

lemma hex_codec_std: "hex_codec std_hex"
proof -
  have "unhex (hex_string bs) = Some bs \<and> CHR ''-'' \<notin> set (hex_string bs)" for bs
  proof (induction bs)
    case (Cons b bs)
    have "unat b div 16 < 16" "unat b mod 16 < 16"
      using unat_u8_less [of b] by (simp_all del: unat_u8_less)
    from hex_val_digit [OF this(1)] hex_val_digit [OF this(2)] show ?case
      using Cons by (auto simp: hex_string_def show_hex2_def dest: sym)
  qed (simp add: hex_string_def)
  then show ?thesis by (simp add: hex_codec_def std_hex_def)
qed

section \<open>Time-outs\<close>

lemma finalise_timed_out_config: "same_config d d' \<Longrightarrow> finalise_timed_out E d' now p = finalise_timed_out E d now p"
  by (simp add: finalise_timed_out_def finalise_def same_config_def)

lemma sweep_keys_pending:
  "hm_wf (sd_pending d) \<Longrightarrow>
   hm_get (sd_pending (fst (sweep_keys E ck n keys d))) k =
     (if k \<in> set keys then None else hm_get (sd_pending d) k)"
proof (induction keys arbitrary: d n)
  case (Cons key keys)
  show ?case
  proof (cases "hm_get (sd_pending d) key")
    case None
    then show ?thesis using Cons.IH [OF Cons.prems, of n] by auto
  next
    case (Some p)
    have "hm_wf (sd_pending (remove_span key (ps_span_id p) d))" using Cons.prems by simp
    from Cons.IH [OF this, of "Suc n"] show ?thesis
      using Some Cons.prems by (auto simp: hm.get_remove split: prod.split)
  qed
qed simp

lemma sweep_keys_out:
  assumes "hm_wf (sd_pending d)" "distinct (map fst kps)" "\<forall>(k, p)\<in>set kps. hm_get (sd_pending d) k = Some p"
  shows "snd (sweep_keys E ck n (map fst kps) d) =
     map (\<lambda>(i, _, p). finalise_timed_out E d (ck_utc ck i) p) (enumerate n kps)"
  using assms
proof (induction kps arbitrary: d n)
  case (Cons kp kps)
  obtain k p where kp: "kp = (k, p)" by fastforce
  let ?d = "remove_span k (ps_span_id p) d"
  have g: "hm_get (sd_pending d) k = Some p" using Cons.prems kp by auto
  have "\<forall>(k', p')\<in>set kps. hm_get (sd_pending ?d) k' = Some p'"
    using Cons.prems kp by (force simp: hm.get_remove)
  then have "snd (sweep_keys E ck (Suc n) (map fst kps) ?d) =
      map (\<lambda>(i, _, p). finalise_timed_out E ?d (ck_utc ck i) p) (enumerate (Suc n) kps)"
    using Cons.prems kp by (intro Cons.IH) simp_all
  moreover have "finalise_timed_out E ?d now q = finalise_timed_out E d now q" for now q
    by (rule finalise_timed_out_config) simp
  ultimately show ?case using g kp by (auto split: prod.split)
qed simp

section \<open>Log entries\<close>

text \<open>
  A log entry without trace context gets the one of the span that is open for its task
  (\<^verbatim>\<open>service.rs\<close>, the enrichment task).
\<close>

definition enrich_log ::
    "span_env \<Rightarrow> (span_key, pending_span) iter \<Rightarrow> span_dispatcher \<Rightarrow> log_entry \<Rightarrow> log_entry" where
  "enrich_log E ord d le =
     (if list_all (\<lambda>b. b = 0) (le_trace_id le) \<and> list_all (\<lambda>b. b = 0) (le_span_id le) then
        (case net_id_from_str (le_ams_net_id le) of
           Ok net_id \<Rightarrow>
             (case current_context E ord d net_id (word_of_int (le_task_index le)) of
                Some (tid_hex, sid_hex) \<Rightarrow>
                  (case (hex_decode (sp_hex E) tid_hex, hex_decode (sp_hex E) sid_hex) of
                     (Some tid, Some sid) \<Rightarrow>
                       if length tid = 16 \<and> length sid = 8
                       then le\<lparr>le_trace_id := tid, le_span_id := sid\<rparr> else le
                   | _ \<Rightarrow> le)
              | None \<Rightarrow> le)
         | _ \<Rightarrow> le)
      else le)"

text \<open>An open span of a task that no other open span of the task was begun later than.\<close>

definition innermost :: "span_dispatcher \<Rightarrow> ams_net_id \<Rightarrow> u8 \<Rightarrow> pending_span \<Rightarrow> bool" where
  "innermost d net task p \<longleftrightarrow>
     (\<exists>k. hm_get (sd_pending d) k = Some p \<and> sk_net_id k = net) \<and> ps_task_index p = task \<and>
     (\<forall>k' p'. hm_get (sd_pending d) k' = Some p' \<longrightarrow> sk_net_id k' = net \<longrightarrow> ps_task_index p' = task \<longrightarrow>
        \<not> later (ps_start_time p') (ps_start_time p))"

definition of_task :: "ams_net_id \<Rightarrow> u8 \<Rightarrow> span_key \<times> pending_span \<Rightarrow> bool" where
  "of_task net task = (\<lambda>(k, p). sk_net_id k = net \<and> ps_task_index p = task)"

definition context_entry :: "span_env \<Rightarrow> span_key \<times> pending_span \<Rightarrow> span_key \<times> datetime \<times> string \<times> string" where
  "context_entry E = (\<lambda>(k, p).
     (k, ps_start_time p, hex_encode (sp_hex E) (ps_trace_id p), hex_encode (sp_hex E) (ps_span_id p)))"

definition best_so_far ::
    "span_env \<Rightarrow> ams_net_id \<Rightarrow> u8 \<Rightarrow> (span_key \<times> pending_span) list
     \<Rightarrow> (span_key \<times> datetime \<times> string \<times> string) option \<Rightarrow> bool" where
  "best_so_far E net task kps best =
     (case best of
        None \<Rightarrow> \<forall>kp\<in>set kps. \<not> of_task net task kp
      | Some b \<Rightarrow> \<exists>kp\<in>set kps. of_task net task kp \<and> b = context_entry E kp \<and>
          (\<forall>kp'\<in>set kps. of_task net task kp' \<longrightarrow> \<not> later (ps_start_time (snd kp')) (ps_start_time (snd kp))))"

lemma current_step_eq:
  "current_step E net task kp best =
     (if of_task net task kp then
        (case best of
           None \<Rightarrow> Some (context_entry E kp)
         | Some (_, t, _, _) \<Rightarrow> if later (ps_start_time (snd kp)) t then Some (context_entry E kp) else best)
      else best)"
  by (cases kp) (auto simp: current_step_def of_task_def context_entry_def Let_def split: option.split)

lemma later_irrefl [simp]: "\<not> later t t"
  by (simp add: later_def)

lemma later_mono: "later c b \<Longrightarrow> \<not> later a b \<Longrightarrow> \<not> later a c"
  by (auto simp: later_def)

lemma best_so_far_step:
  assumes "best_so_far E net task kps best"
  shows "best_so_far E net task (kps @ [kp]) (current_step E net task kp best)"
proof (cases best)
  case None
  then show ?thesis using assms by (simp add: best_so_far_def current_step_eq)
next
  case (Some b)
  then obtain kp0 where kp0: "kp0 \<in> set kps" "of_task net task kp0" "b = context_entry E kp0"
    "\<forall>kp'\<in>set kps. of_task net task kp' \<longrightarrow> \<not> later (ps_start_time (snd kp')) (ps_start_time (snd kp0))"
    using assms by (auto simp: best_so_far_def)
  have step: "current_step E net task kp best =
      (if of_task net task kp \<and> later (ps_start_time (snd kp)) (ps_start_time (snd kp0))
       then Some (context_entry E kp) else Some (context_entry E kp0))"
    using Some kp0(3) by (cases kp0) (simp add: current_step_eq context_entry_def)
  show ?thesis
  proof (cases "of_task net task kp \<and> later (ps_start_time (snd kp)) (ps_start_time (snd kp0))")
    case True
    then have "\<forall>kp'\<in>set kps. of_task net task kp' \<longrightarrow> \<not> later (ps_start_time (snd kp')) (ps_start_time (snd kp))"
      using kp0(4) later_mono by blast
    then show ?thesis using True step by (simp add: best_so_far_def)
  next
    case False
    then show ?thesis using step kp0 by (auto simp: best_so_far_def)
  qed
qed

lemma best_of_fold: "best_so_far E net task kps (fold (current_step E net task) kps None)"
proof (induction kps rule: rev_induct)
  case (snoc kp kps)
  then show ?case by (simp add: best_so_far_step)
qed (simp add: best_so_far_def)

lemma current_context_innermost:
  assumes "iteration ord" "maps_ok d"
  shows "case current_context E ord d net task of
           None \<Rightarrow> \<nexists>p. innermost d net task p
         | Some (t, s) \<Rightarrow> \<exists>p. innermost d net task p \<and> t = hex_encode (sp_hex E) (ps_trace_id p) \<and>
             s = hex_encode (sp_hex E) (ps_span_id p)"
proof -
  have mem: "(k, p) \<in> set (ord (sd_pending d)) \<longleftrightarrow> hm_get (sd_pending d) k = Some p" for k p
    using assms by (simp add: iteration_set hm_get_iff_mem maps_ok_def)
  have "best_so_far E net task (ord (sd_pending d)) (fold (current_step E net task) (ord (sd_pending d)) None)"
    by (rule best_of_fold)
  then show ?thesis
    unfolding current_context_def
    by (cases "fold (current_step E net task) (ord (sd_pending d)) None")
      (fastforce simp: best_so_far_def of_task_def context_entry_def innermost_def mem)+
qed

section \<open>Properties\<close>


definition sample_span_env :: span_env where
  "sample_span_env = \<lparr>sp_ext = unix_ext False, sp_hex = std_hex, sp_attr_order = (\<lambda>m. m)\<rparr>"

definition sample_clock :: span_clock where
  "sample_clock = \<lparr>ck_instant = 5, ck_utc = (\<lambda>n. DateTime (int n) 0)\<rparr>"

definition plc_a :: ams_net_id where "plc_a = AmsNetId 5 80 201 232 1 1"
definition plc_b :: ams_net_id where "plc_b = AmsNetId 5 80 201 233 1 1"

definition sample_begin :: span_begin where
  "sample_begin = \<lparr>sb_local_id = 0, sb_task_index = 1, sb_flags = 0, sb_dc_time = 1000, sb_parent_span_id = no_span,
     sb_kind = 0, sb_name = ''recipe'', sb_traceparent = None, sb_trace_id = replicate 16 7,
     sb_span_id = replicate 8 9, sb_scope_namespace = ''MAIN''\<rparr>"

definition sample_attr :: span_attr where
  "sample_attr = \<lparr>sa_span_id = replicate 8 9, sa_task_index = 1, sa_flags = 0, sa_dc_time = 1100,
     sa_key = ''lot'', sa_value = AttrI64 42\<rparr>"

definition sample_end :: span_end where
  "sample_end = \<lparr>se_span_id = replicate 8 9, se_task_index = 1, se_flags = 0, se_dc_time = 2000,
     se_status = 1, se_message = ''ok''\<rparr>"

definition sample_dispatcher :: span_dispatcher where
  "sample_dispatcher = with_service_metadata ''tc-otel'' ''ipc'' (span_dispatcher_new 10 100)"

lemmas sample_span_defs = sample_span_env_def sample_clock_def plc_a_def plc_b_def sample_begin_def
  sample_attr_def sample_end_def sample_dispatcher_def with_service_metadata_def span_dispatcher_new_def






text \<open>
  C11. A sweep closes exactly the spans whose deadline has passed: each of them is emitted once with the
  error status, and every other span stays pending unchanged.
\<close>

theorem sweep_closes_expired:
  assumes "iteration ord" "maps_ok d" "sweep_timed_out E ord ck d = (d', out)"
  shows "(\<forall>k. hm_get (sd_pending d') k =
            (case hm_get (sd_pending d) k of
               Some p \<Rightarrow> if ps_deadline p \<le> ck_instant ck then None else Some p | None \<Rightarrow> None)) \<and>
         out = map (\<lambda>(i, _, p). finalise_timed_out E d (ck_utc ck i) p)
           (enumerate 0 (filter (\<lambda>(_, p). ps_deadline p \<le> ck_instant ck) (ord (sd_pending d)))) \<and>
         (\<forall>r\<in>set out. tr_status_code r = 2)"
proof -
  let ?expired = "filter (\<lambda>(_, p). ps_deadline p \<le> ck_instant ck) (ord (sd_pending d))"
  have wf: "hm_wf (sd_pending d)" using assms(2) by (simp add: maps_ok_def)
  have mem: "(k, p) \<in> set (ord (sd_pending d)) \<longleftrightarrow> hm_get (sd_pending d) k = Some p" for k p
    using assms(1) wf by (simp add: iteration_set hm_get_iff_mem)
  have "distinct (map fst ?expired)"
    using iteration_distinct [OF assms(1) wf] by (rule distinct_map_filter)
  moreover have "\<forall>(k, p)\<in>set ?expired. hm_get (sd_pending d) k = Some p"
    by (auto simp: mem)
  ultimately have out: "out = map (\<lambda>(i, _, p). finalise_timed_out E d (ck_utc ck i) p) (enumerate 0 ?expired)"
    using sweep_keys_out [OF wf, of ?expired E ck 0] assms(3) by (simp add: sweep_timed_out_def)
  moreover have "\<forall>r\<in>set out. tr_status_code r = 2"
    unfolding out by (auto simp: finalise_timed_out_def finalise_def Let_def)
  moreover have "k \<in> set (map fst ?expired) \<longleftrightarrow> (\<exists>p. hm_get (sd_pending d) k = Some p \<and> ps_deadline p \<le> ck_instant ck)" for k
    by (force simp: mem)
  then have "hm_get (sd_pending d') k =
      (case hm_get (sd_pending d) k of
         Some p \<Rightarrow> if ps_deadline p \<le> ck_instant ck then None else Some p | None \<Rightarrow> None)" for k
    using sweep_keys_pending [OF wf, of E ck 0 "map fst ?expired" k] assms(3)
    by (auto simp: sweep_timed_out_def split: option.split)
  ultimately show ?thesis by blast
qed

definition late_clock :: span_clock where
  "late_clock = sample_clock\<lparr>ck_instant := 1000\<rparr>"

definition busy_dispatcher :: span_dispatcher where
  "busy_dispatcher = fst (span_step sample_span_env (\<lambda>m. m) sample_dispatcher
     (Wire sample_clock plc_a 350 (Begin sample_begin)))"

lemma busy_dispatcher_pending:
  "\<exists>p. sd_pending busy_dispatcher = [(\<lparr>sk_net_id = plc_a, sk_span_id = replicate 8 9\<rparr>, p)] \<and>
       ps_deadline p = 15 \<and> ps_trace_id p = replicate 16 7 \<and> ps_span_id p = replicate 8 9 \<and>
       ps_task_index p = 1 \<and> maps_ok busy_dispatcher \<and>
       sd_by_span_id busy_dispatcher = [(replicate 8 9, \<lparr>sk_net_id = plc_a, sk_span_id = replicate 8 9\<rparr>)]"
proof -
  have "\<not> overflow_checks (sp_ext sample_span_env)" "maps_ok sample_dispatcher" "capacity_ok sample_dispatcher"
    by (simp_all add: maps_ok_def capacity_ok_def sample_span_defs unix_ext_def)
  then have "maps_ok busy_dispatcher"
    using span_step_accounts [OF _ iteration_id, of sample_span_env sample_dispatcher
        "Wire sample_clock plc_a 350 (Begin sample_begin)"]
    unfolding busy_dispatcher_def accounts_def case_prod_unfold by blast
  moreover have "\<exists>t. dc_time_to_datetime (unix_ext False) (DateTime 2 0) 1000 = Ok t"
    by (rule dc_time_to_datetime_Ok) (simp add: unix_ext_def)
  ultimately show ?thesis
    by (auto simp: busy_dispatcher_def on_begin_def resolve_parent_def make_room_def flush_stale_def
        new_span_def task_identity_def sample_span_defs hm_insert_def Let_def)
qed

theorem sweep_closes_expired_witness:
  "\<exists>d' out. sweep_timed_out sample_span_env (\<lambda>m. m) late_clock busy_dispatcher = (d', out) \<and>
     (\<forall>k. hm_get (sd_pending d') k = None) \<and> length out = 1 \<and> (\<forall>r\<in>set out. tr_status_code r = 2)"
proof -
  obtain d' out where s: "sweep_timed_out sample_span_env (\<lambda>m. m) late_clock busy_dispatcher = (d', out)" by fastforce
  obtain p where p: "sd_pending busy_dispatcher = [(\<lparr>sk_net_id = plc_a, sk_span_id = replicate 8 9\<rparr>, p)]"
    "ps_deadline p = 15" "maps_ok busy_dispatcher"
    using busy_dispatcher_pending by blast
  have "ps_deadline p \<le> ck_instant late_clock" by (simp add: p late_clock_def)
  then show ?thesis
    using s sweep_closes_expired [OF iteration_id p(3) s] by (simp add: p hm_get_def)
qed

text \<open>
  C13. A request context is continued: a begin event with a well-formed W3C \<open>traceparent\<close> opens a span
  with the trace id and the parent span id of the header, whatever else the event says.
\<close>

theorem traceparent_continued:
  assumes "hex_codec (sp_hex E)" "length tid = 16" "length sid = 8" "CHR ''-'' \<notin> set flags"
    and "sb_traceparent b = Some (''00-'' @ hex_encode (sp_hex E) tid @ ''-'' @ hex_encode (sp_hex E) sid @ ''-'' @ flags)"
    and "on_begin E ord ck net port b d = Ok (d', out)"
  shows "\<exists>p. hm_get (sd_pending d') \<lparr>sk_net_id = net, sk_span_id = sb_span_id b\<rparr> = Some p \<and>
           ps_trace_id p = tid \<and> ps_parent_span_id p = Some sid \<and> ps_span_id p = sb_span_id b"
proof -
  let ?H = "sp_hex E"
  have h: "hex_decode ?H (hex_encode ?H bs) = Some bs" "length (hex_encode ?H bs) = 2 * length bs"
    "CHR ''-'' \<notin> set (hex_encode ?H bs)" for bs
    using assms(1) by (simp_all add: hex_codec_def)
  have "split_on CHR ''-'' (''00'' @ CHR ''-'' # hex_encode ?H tid @ CHR ''-'' # hex_encode ?H sid @ CHR ''-'' # flags) =
      [''00'', hex_encode ?H tid, hex_encode ?H sid, flags]"
    using assms(4) h(3) by (subst split_on_append, simp)+ (simp add: split_on_no_sep)
  then have "parse_w3c_traceparent ?H (''00-'' @ hex_encode ?H tid @ ''-'' @ hex_encode ?H sid @ ''-'' @ flags) = Some (tid, sid)"
    using assms(2,3) h by (simp add: parse_w3c_traceparent_def)
  then have "resolve_parent E d b = ((tid, Some sid, None), False)"
    using assms(5) by (simp add: resolve_parent_def)
  then obtain d2 t where "d' = d2\<lparr>sd_by_span_id := hm_insert (sb_span_id b) \<lparr>sk_net_id = net, sk_span_id = sb_span_id b\<rparr> (sd_by_span_id d2),
      sd_pending := hm_insert \<lparr>sk_net_id = net, sk_span_id = sb_span_id b\<rparr>
        (new_span ck net port b (tid, Some sid, None) t d2) (sd_pending d2)\<rparr>"
    using assms(6) by (auto simp: on_begin_def Let_def bind_res_Ok_iff split: prod.splits)
  moreover have "ps_trace_id (new_span ck net port b (tid, Some sid, None) t d2) = tid"
    "ps_parent_span_id (new_span ck net port b (tid, Some sid, None) t d2) = Some sid"
    by (simp_all add: new_span_def Let_def split: prod.split)
  ultimately show ?thesis by (simp add: hm.get_insert)
qed

definition remote_begin :: span_begin where
  "remote_begin = sample_begin\<lparr>sb_traceparent :=
     Some (''00-'' @ hex_string (replicate 16 1) @ ''-'' @ hex_string (replicate 8 2) @ ''-'' @ ''01'')\<rparr>"

theorem traceparent_continued_witness:
  "\<exists>d' out p. on_begin sample_span_env (\<lambda>m. m) sample_clock plc_a 350 remote_begin sample_dispatcher = Ok (d', out) \<and>
     hm_get (sd_pending d') \<lparr>sk_net_id = plc_a, sk_span_id = sb_span_id remote_begin\<rparr> = Some p \<and>
     ps_trace_id p = replicate 16 1 \<and> ps_parent_span_id p = Some (replicate 8 2)"
proof -
  have "\<not> overflow_checks (sp_ext sample_span_env)" "maps_ok sample_dispatcher"
    by (simp_all add: maps_ok_def sample_span_defs unix_ext_def)
  then obtain d' out where b: "on_begin sample_span_env (\<lambda>m. m) sample_clock plc_a 350 remote_begin sample_dispatcher = Ok (d', out)"
    using on_begin_accounts [OF _ iteration_id] by metis
  show ?thesis
    using b traceparent_continued [of sample_span_env "replicate 16 1" "replicate 8 2" "''01''" remote_begin, OF _ _ _ _ _ b]
      hex_codec_std
    by (simp add: sample_span_env_def remote_begin_def std_hex_def) blast
qed

text \<open>
  C12. Log entries join the trace of their task: an entry without trace context gets the ids of an open
  span of the same PLC and task that was begun last, and it stays as it is when no span of its task
  is open or when it already carries a context.
\<close>

theorem log_joins_trace:
  assumes "hex_codec (sp_hex E)" "iteration ord" "maps_ok d"
    and "le_ams_net_id le = show_net_id net" "task = word_of_int (le_task_index le)"
    and "\<forall>p. innermost d net task p \<longrightarrow> length (ps_trace_id p) = 16 \<and> length (ps_span_id p) = 8"
  shows "if le_trace_id le = no_trace \<and> le_span_id le = no_span \<and> (\<exists>p. innermost d net task p)
         then \<exists>p. innermost d net task p \<and>
                enrich_log E ord d le = le\<lparr>le_trace_id := ps_trace_id p, le_span_id := ps_span_id p\<rparr>
         else length (le_trace_id le) = 16 \<longrightarrow> length (le_span_id le) = 8 \<longrightarrow> enrich_log E ord d le = le"
proof -
  have zero: "list_all (\<lambda>b. b = 0) bs \<Longrightarrow> length bs = n \<Longrightarrow> bs = replicate n 0" for bs :: "u8 list" and n
    by (induction bs arbitrary: n) auto
  have h: "hex_decode (sp_hex E) (hex_encode (sp_hex E) bs) = Some bs" for bs
    using assms(1) by (simp add: hex_codec_def)
  have net: "net_id_from_str (le_ams_net_id le) = Ok net"
    using assms(4) by (simp add: net_id_from_show)
  show ?thesis
  proof (cases "current_context E ord d net task")
    case None
    then have "\<nexists>p. innermost d net task p"
      using current_context_innermost [OF assms(2,3), where E = E and net = net and task = task] by simp
    then show ?thesis using None net assms(5) by (simp add: enrich_log_def)
  next
    case (Some ts)
    then obtain p where p: "innermost d net task p"
      "ts = (hex_encode (sp_hex E) (ps_trace_id p), hex_encode (sp_hex E) (ps_span_id p))"
      using current_context_innermost [OF assms(2,3), where E = E and net = net and task = task] by (cases ts) auto
    have "length (ps_trace_id p) = 16" "length (ps_span_id p) = 8" using assms(6) p(1) by simp_all
    then have e: "enrich_log E ord d le =
        (if list_all (\<lambda>b. b = 0) (le_trace_id le) \<and> list_all (\<lambda>b. b = 0) (le_span_id le)
         then le\<lparr>le_trace_id := ps_trace_id p, le_span_id := ps_span_id p\<rparr> else le)"
      using Some p(2) net assms(5) by (simp add: enrich_log_def h)
    show ?thesis
    proof (cases "le_trace_id le = no_trace \<and> le_span_id le = no_span")
      case True
      then have "list_all (\<lambda>b. b = 0) (le_trace_id le) \<and> list_all (\<lambda>b. b = 0) (le_span_id le)"
        by (simp add: list_all_iff)
      then have "enrich_log E ord d le = le\<lparr>le_trace_id := ps_trace_id p, le_span_id := ps_span_id p\<rparr>"
        using e by simp
      then show ?thesis using True p(1) by (subst if_P) blast+
    next
      case False
      then show ?thesis
        using zero [of "le_trace_id le" 16] zero [of "le_span_id le" 8] e by meson
    qed
  qed
qed

definition sample_entry :: log_entry where
  "sample_entry = (log_entry_new ''id'' (DateTime 0 0) (DateTime 0 0) ''src'' '''' ''hello'' ''Axis'' LInfo)
     \<lparr>le_ams_net_id := show_net_id plc_a, le_task_index := 1\<rparr>"

theorem log_joins_trace_witness:
  "enrich_log sample_span_env (\<lambda>m. m) busy_dispatcher sample_entry =
     sample_entry\<lparr>le_trace_id := replicate 16 7, le_span_id := replicate 8 9\<rparr>"
proof -
  obtain p where p: "sd_pending busy_dispatcher = [(\<lparr>sk_net_id = plc_a, sk_span_id = replicate 8 9\<rparr>, p)]"
    "ps_trace_id p = replicate 16 7" "ps_span_id p = replicate 8 9" "ps_task_index p = 1" "maps_ok busy_dispatcher"
    using busy_dispatcher_pending by blast
  have inner: "innermost busy_dispatcher plc_a 1 q \<longleftrightarrow> q = p" for q
    using p(1,4) by (auto simp: innermost_def hm_get_def)
  have "le_ams_net_id sample_entry = show_net_id plc_a" "le_task_index sample_entry = 1"
    "le_trace_id sample_entry = no_trace" "le_span_id sample_entry = no_span"
    "hex_codec (sp_hex sample_span_env)"
    by (simp_all add: sample_entry_def log_entry_new_def sample_span_env_def hex_codec_std)
  then show ?thesis
    using log_joins_trace [OF _ iteration_id p(5), of sample_span_env sample_entry plc_a 1] p inner by simp
qed

text \<open>
  Span ids are not kept apart by sender: when two PLCs use the same span id, the begin event of the
  second one takes over the index, and a new begin of the first one violates the code's debug assertion,
  so that the dispatcher panics in a build with assertions.
\<close>

theorem span_id_collision:
  assumes "overflow_checks (sp_ext E)" "length (sd_pending d) < sd_max_pending d" "maps_ok d"
    and "hm_get (sd_pending d) \<lparr>sk_net_id = net, sk_span_id = sb_span_id b\<rparr> \<noteq> None"
    and "hm_get (sd_by_span_id d) (sb_span_id b) = Some \<lparr>sk_net_id = net', sk_span_id = sb_span_id b\<rparr>"
    and "net' \<noteq> net"
  shows "on_begin E ord ck net port b d = Panic"
proof -
  let ?key = "\<lparr>sk_net_id = net, sk_span_id = sb_span_id b\<rparr>"
  obtain stale where s: "hm_get (sd_pending d) ?key = Some stale" using assms(4) by auto
  then have id: "ps_span_id stale = sb_span_id b" using assms(3) by (auto simp: maps_ok_def)
  have "make_room E ord ck orphan d = (if orphan then d\<lparr>sd_orphan_counter := sd_orphan_counter d + 1\<rparr> else d, [])" for orphan
    using assms(2) by (simp add: make_room_def)
  moreover have "flush_stale E now ?key (if orphan then d\<lparr>sd_orphan_counter := sd_orphan_counter d + 1\<rparr> else d) = Panic" for now orphan
    using s id assms(1,5,6) by (simp add: flush_stale_def)
  ultimately show ?thesis
    unfolding on_begin_def Let_def by (simp split: prod.split)
qed

definition checked_env :: span_env where
  "checked_env = sample_span_env\<lparr>sp_ext := unix_ext True\<rparr>"

definition shared_dispatcher :: span_dispatcher where
  "shared_dispatcher = fst (span_step sample_span_env (\<lambda>m. m) busy_dispatcher
     (Wire sample_clock plc_b 350 (Begin sample_begin)))"

theorem span_id_collision_witness:
  "on_begin checked_env (\<lambda>m. m) sample_clock plc_a 350 sample_begin shared_dispatcher = Panic"
proof -
  obtain p where p: "sd_pending busy_dispatcher = [(\<lparr>sk_net_id = plc_a, sk_span_id = replicate 8 9\<rparr>, p)]"
    "maps_ok busy_dispatcher"
    "sd_by_span_id busy_dispatcher = [(replicate 8 9, \<lparr>sk_net_id = plc_a, sk_span_id = replicate 8 9\<rparr>)]"
    using busy_dispatcher_pending by blast
  have ne: "\<not> overflow_checks (sp_ext sample_span_env)" by (simp add: sample_span_env_def unix_ext_def)
  have "same_config sample_dispatcher busy_dispatcher"
    using span_step_accounts [OF ne iteration_id, of sample_dispatcher "Wire sample_clock plc_a 350 (Begin sample_begin)"]
    unfolding busy_dispatcher_def accounts_def case_prod_unfold
    by (simp add: maps_ok_def capacity_ok_def sample_dispatcher_def with_service_metadata_def span_dispatcher_new_def)
  then have mx: "sd_max_pending busy_dispatcher = 100"
    by (simp add: same_config_def sample_dispatcher_def with_service_metadata_def span_dispatcher_new_def)
  have cap: "capacity_ok busy_dispatcher" by (simp add: capacity_ok_def p mx)
  have adm: "admissible plc_b (Begin sample_begin) busy_dispatcher"
    by (simp add: admissible_def p mx sample_begin_def hm_get_def plc_a_def plc_b_def)
  obtain d1 out where b: "on_begin sample_span_env (\<lambda>m. m) sample_clock plc_b 350 sample_begin busy_dispatcher = Ok (d1, out)"
    using on_begin_accounts [OF ne iteration_id p(2)] by metis
  let ?k = "\<lparr>sk_net_id = plc_b, sk_span_id = replicate 8 9\<rparr>"
  obtain q where d1: "d1 = busy_dispatcher\<lparr>sd_by_span_id := hm_insert (replicate 8 9) ?k (sd_by_span_id busy_dispatcher),
      sd_pending := hm_insert ?k q (sd_pending busy_dispatcher)\<rparr>"
    using b adm mx
    by (auto simp: on_begin_def Let_def make_room_def flush_stale_def admissible_def sample_begin_def
        resolve_parent_def bind_res_Ok_iff)
  have sh: "shared_dispatcher = d1" using b by (simp add: shared_dispatcher_def)
  have ok: "maps_ok d1"
    using span_step_accounts [OF ne iteration_id p(2) cap, of "Wire sample_clock plc_b 350 (Begin sample_begin)"] b
    by (simp add: accounts_def)
  show ?thesis
    unfolding sh
    by (rule span_id_collision [OF _ _ ok, where net' = plc_b])
       (simp_all add: d1 p mx checked_env_def unix_ext_def sample_begin_def hm_get_def hm_insert_def plc_a_def plc_b_def)
qed

lemma wrap_i64_sub: "wrap_i64 (i - 2 ^ 64) = wrap_i64 i"
  unfolding wrap_i64_def by (rule arg_cong [of _ _ sint]) (simp add: word_of_int_eq_iff take_bit_eq_mod)

text \<open>
  The conversion of PLC time is exact as long as the sum with the epoch offset fits into 64 bits. For
  the positive times beyond that, which a sender can put on the wire, it panics in a build with overflow
  checks, and otherwise asks for a time before 1970.
\<close>

theorem dc_time_overflow:
  assumes "0 < dc" "i64_range dc"
  shows "dc_time_to_datetime X now dc =
     (if dc + DC_EPOCH_OFFSET_NS < 2 ^ 63 then
        Ok (case from_timestamp X ((dc + DC_EPOCH_OFFSET_NS) div 1000000000)
                   (nat ((dc + DC_EPOCH_OFFSET_NS) mod 1000000000)) of Some t \<Rightarrow> t | None \<Rightarrow> now)
      else if overflow_checks X then Panic
      else Ok (case from_timestamp X (- ((2 ^ 64 - (dc + DC_EPOCH_OFFSET_NS)) div 1000000000))
                 (unat (word_of_int (- ((2 ^ 64 - (dc + DC_EPOCH_OFFSET_NS)) mod 1000000000)) :: u32)) of
                 Some t \<Rightarrow> t | None \<Rightarrow> now))"
proof (cases "dc + DC_EPOCH_OFFSET_NS < 2 ^ 63")
  case True
  have r: "i64_range (dc + DC_EPOCH_OFFSET_NS)"
    using assms True by (simp add: i64_range_def DC_EPOCH_OFFSET_NS_def)
  then have w: "wrap_i64 (dc + DC_EPOCH_OFFSET_NS) = dc + DC_EPOCH_OFFSET_NS"
    by (rule wrap_i64_id)
  have p: "0 \<le> dc + DC_EPOCH_OFFSET_NS" using assms by (simp add: DC_EPOCH_OFFSET_NS_def)
  have "unat (word_of_int ((dc + DC_EPOCH_OFFSET_NS) mod 1000000000) :: u32) =
      nat ((dc + DC_EPOCH_OFFSET_NS) mod 1000000000)"
    by (simp add: unat_eq_nat_uint uint_word_of_int take_bit_int_eq_self)
  then show ?thesis
    using assms True r w p by (simp add: dc_time_to_datetime_def Let_def trunc_div_def trunc_mod_def)
next
  case False
  have r: "\<not> i64_range (dc + DC_EPOCH_OFFSET_NS)" using False by (simp add: i64_range_def)
  have b: "dc + DC_EPOCH_OFFSET_NS < 2 ^ 64" using assms by (simp add: i64_range_def DC_EPOCH_OFFSET_NS_def)
  have "wrap_i64 (dc + DC_EPOCH_OFFSET_NS) = wrap_i64 (dc + DC_EPOCH_OFFSET_NS - 2 ^ 64)"
    by (rule wrap_i64_sub [symmetric])
  also have "\<dots> = dc + DC_EPOCH_OFFSET_NS - 2 ^ 64"
    using False b by (intro wrap_i64_id) (simp add: i64_range_def)
  finally show ?thesis
    using assms False r b by (simp add: dc_time_to_datetime_def Let_def trunc_div_def trunc_mod_def)
qed

theorem dc_time_overflow_witness:
  "dc_time_to_datetime (unix_ext True) (DateTime 0 0) (2 ^ 63 - 1) = Panic \<and>
   dc_time_to_datetime (unix_ext True) (DateTime 0 0) 5000000007 = Ok (DateTime 946684805 7)"
  using dc_time_overflow [of "2 ^ 63 - 1" "unix_ext True" "DateTime 0 0"]
    dc_time_overflow [of 5000000007 "unix_ext True" "DateTime 0 0"]
  by (simp add: i64_range_def DC_EPOCH_OFFSET_NS_def unix_ext_def)

end
