(* ===== verification/Config.thy ===== *)
theory Config
  imports Models
begin

text \<open>
  Settings of the service, \<^verbatim>\<open>tc-otel-core/src/config.rs\<close> and the comparison of two settings in
  \<^verbatim>\<open>tc-otel-core/src/config_watcher.rs\<close>: the configuration structs with their defaults, the checks of
  the transport security section and of the whole configuration, and the masking of secrets. Paths
  are strings. The case conversion of text (Unicode tables of the standard library) is the argument
  \<open>upper\<close> or \<open>lower\<close>; the JSON value of the settings is the argument of the masking.
\<close>

section \<open>Text\<close>

text \<open>A string in single quotes, and the \<^verbatim>\<open>{:?}\<close> text of a slice of plain strings.\<close>

definition quoted :: "string \<Rightarrow> string" where
  "quoted s = CHR 0x27 # s @ [CHR 0x27]"

definition debug_strs :: "string list \<Rightarrow> string" where
  "debug_strs xs = ''['' @ join_with '', '' (map (\<lambda>s. CHR 0x22 # s @ [CHR 0x22]) xs) @ '']''"

definition push_if :: "bool \<Rightarrow> string \<Rightarrow> string list \<Rightarrow> string list" where
  "push_if c msg errors = (if c then errors @ [msg] else errors)"

definition push_err :: "(string, unit) res \<Rightarrow> (string \<Rightarrow> string) \<Rightarrow> string list \<Rightarrow> string list" where
  "push_err r f errors = (case r of Err e \<Rightarrow> errors @ [f e] | _ \<Rightarrow> errors)"

section \<open>Logging and transport security\<close>

datatype log_format = FmtJson | FmtText

record logging_config =
  lg_log_level :: string
  lg_format :: log_format
  lg_output_path :: "string option"

definition logging_config_default :: logging_config where
  "logging_config_default = \<lparr>lg_log_level = ''info'', lg_format = FmtJson, lg_output_path = None\<rparr>"

record tls_config =
  tls_enabled :: bool
  tls_cert_path :: "string option"
  tls_key_path :: "string option"
  tls_ca_cert_path :: "string option"
  tls_require_client_cert :: bool
  tls_client_cert_path :: "string option"
  tls_client_key_path :: "string option"
  tls_insecure_skip_verify :: bool
  tls_min_version :: string
  tls_max_version :: string
  tls_ciphers :: "string list"

definition default_min_tls_version :: string where "default_min_tls_version = ''TLSv1_2''"
definition default_max_tls_version :: string where "default_max_tls_version = ''TLSv1_3''"

definition WEAK_CIPHER_PATTERNS :: "string list" where
  "WEAK_CIPHER_PATTERNS =
     [''DES'', ''RC4'', ''RC2'', ''MD5'', ''NULL'', ''EXPORT'', ''anon'', ''ADH'', ''AECDH'']"

definition VALID_TLS_VERSIONS :: "string list" where
  "VALID_TLS_VERSIONS = [''TLSv1_0'', ''TLSv1_1'', ''TLSv1_2'', ''TLSv1_3'']"

definition MIN_ACCEPTABLE_TLS_VERSION :: string where "MIN_ACCEPTABLE_TLS_VERSION = ''TLSv1_2''"

definition tls_config_default :: tls_config where
  "tls_config_default =
     \<lparr>tls_enabled = False, tls_cert_path = None, tls_key_path = None, tls_ca_cert_path = None,
      tls_require_client_cert = False, tls_client_cert_path = None, tls_client_key_path = None,
      tls_insecure_skip_verify = False, tls_min_version = default_min_tls_version,
      tls_max_version = default_max_tls_version, tls_ciphers = []\<rparr>"

definition tls_version_ord :: "string \<Rightarrow> nat" where
  "tls_version_ord version =
     (if version = ''TLSv1_0'' then 0 else if version = ''TLSv1_1'' then 1
      else if version = ''TLSv1_2'' then 2 else if version = ''TLSv1_3'' then 3 else 0)"

definition validate_tls_version :: "string \<Rightarrow> (string, unit) res" where
  "validate_tls_version version =
     (if version \<in> set VALID_TLS_VERSIONS then Ok ()
      else Err (''invalid TLS version '' @ quoted version @
        '': must be one of '' @ debug_strs VALID_TLS_VERSIONS))"

definition check_minimum_acceptable_version :: "string \<Rightarrow> (string, unit) res" where
  "check_minimum_acceptable_version version =
     (if tls_version_ord version < tls_version_ord MIN_ACCEPTABLE_TLS_VERSION then
        Err (''TLS version '' @ quoted version @
          '' is below minimum acceptable version ('' @ MIN_ACCEPTABLE_TLS_VERSION @ '')'')
      else Ok ())"

definition validate_cipher_suite :: "(string \<Rightarrow> string) \<Rightarrow> string \<Rightarrow> (string, unit) res" where
  "validate_cipher_suite upper cipher =
     (case find (\<lambda>weak. str_contains weak (upper cipher)) WEAK_CIPHER_PATTERNS of
        Some weak \<Rightarrow>
          Err (''weak cipher suite '' @ quoted cipher @
            '': contains banned pattern '' @ quoted weak)
      | None \<Rightarrow> Ok ())"

definition tls_errors :: "(string \<Rightarrow> string) \<Rightarrow> tls_config \<Rightarrow> string list" where
  "tls_errors upper t =
     (let e0 = [];
          e1 = push_if (tls_insecure_skip_verify t)
            ''insecure_skip_verify=true is not allowed: certificate verification must not be disabled'' e0;
          e2 = push_if (tls_cert_path t = None) ''TLS enabled but cert_path is not set'' e1;
          e3 = push_if (tls_key_path t = None) ''TLS enabled but key_path is not set'' e2;
          e4 = push_if (tls_require_client_cert t \<and> tls_ca_cert_path t = None)
            ''require_client_cert=true but ca_cert_path is not set: CA certificate is needed to verify client certificates'' e3;
          e5 = push_err (validate_tls_version (tls_min_version t)) (\<lambda>e. ''min_version: '' @ e) e4;
          e6 = push_err (validate_tls_version (tls_max_version t)) (\<lambda>e. ''max_version: '' @ e) e5;
          e7 = push_err (check_minimum_acceptable_version (tls_min_version t)) (\<lambda>e. e) e6;
          e8 = push_if (tls_version_ord (tls_max_version t) < tls_version_ord (tls_min_version t))
            (''min_version ('' @ tls_min_version t @ '') is greater than max_version ('' @ tls_max_version t @ '')'') e7
      in fold (\<lambda>cipher. push_err (validate_cipher_suite upper cipher) (\<lambda>e. e)) (tls_ciphers t) e8)"

definition errors_result :: "string list \<Rightarrow> (string list, unit) res" where
  "errors_result errors = (if errors = [] then Ok () else Err errors)"

definition tls_validate :: "(string \<Rightarrow> string) \<Rightarrow> tls_config \<Rightarrow> (string list, unit) res" where
  "tls_validate upper t = (if \<not> tls_enabled t then Ok () else errors_result (tls_errors upper t))"

section \<open>Receiver\<close>

definition default_tcp_host :: string where "default_tcp_host = ''0.0.0.0''"
definition default_mqtt_prefix :: string where "default_mqtt_prefix = ''AdsOverMqtt''"
definition default_mqtt_client_id :: string where "default_mqtt_client_id = ''tc-otel''"
definition default_local_router_host :: string where "default_local_router_host = ''127.0.0.1''"
definition default_ams_net_id :: string where "default_ams_net_id = ''0.0.0.0.1.1''"
definition default_ams_tcp_port :: u16 where "default_ams_tcp_port = 48898"
definition default_ads_port :: u16 where "default_ads_port = 16150"
definition default_max_connections :: nat where "default_max_connections = 100"
definition default_idle_timeout_secs :: u64 where "default_idle_timeout_secs = 300"
definition default_max_connections_per_ip :: nat where "default_max_connections_per_ip = 10"
definition default_rate_limit_per_sec_per_ip :: nat where "default_rate_limit_per_sec_per_ip = 10"
definition default_keepalive_interval_secs :: u64 where "default_keepalive_interval_secs = 60"
definition default_send_buffer_size :: nat where "default_send_buffer_size = 1048576"

record tcp_transport_config =
  tcp_host :: string
  tcp_port :: u16
  tcp_max_connections :: nat

definition tcp_transport_config_default :: tcp_transport_config where
  "tcp_transport_config_default =
     \<lparr>tcp_host = default_tcp_host, tcp_port = default_ams_tcp_port,
      tcp_max_connections = default_max_connections\<rparr>"

record mqtt_tls_config =
  mqtls_ca_cert_path :: string
  mqtls_client_cert_path :: "string option"
  mqtls_client_key_path :: "string option"
  mqtls_insecure_skip_verify :: bool

record mqtt_transport_config =
  mq_broker :: string
  mq_topic_prefix :: string
  mq_client_id :: string
  mq_username :: "string option"
  mq_password :: "string option"
  mq_tls :: "mqtt_tls_config option"

definition mqtt_transport_config_default :: mqtt_transport_config where
  "mqtt_transport_config_default =
     \<lparr>mq_broker = ''localhost:1883'', mq_topic_prefix = default_mqtt_prefix,
      mq_client_id = default_mqtt_client_id, mq_username = None, mq_password = None, mq_tls = None\<rparr>"

record local_router_transport_config =
  lr_router_host :: string
  lr_router_port :: u16

definition local_router_transport_config_default :: local_router_transport_config where
  "local_router_transport_config_default =
     \<lparr>lr_router_host = default_local_router_host, lr_router_port = default_ams_tcp_port\<rparr>"

datatype transport_config =
    Tcp tcp_transport_config
  | Mqtt mqtt_transport_config
  | LocalRouter local_router_transport_config

definition transport_config_default :: transport_config where
  "transport_config_default = Tcp tcp_transport_config_default"

fun as_mqtt :: "transport_config \<Rightarrow> mqtt_transport_config option" where
  "as_mqtt (Mqtt mqtt) = Some mqtt"
| "as_mqtt _ = None"

record receiver_config =
  rc_host :: string
  rc_http_port :: u16
  rc_grpc_port :: u16
  rc_max_body_size :: nat
  rc_request_timeout_secs :: u64
  rc_ams_net_id :: string
  rc_ams_tcp_port :: u16
  rc_ads_port :: u16
  rc_max_connections :: nat
  rc_idle_timeout_secs :: u64
  rc_max_connections_per_ip :: nat
  rc_rate_limit_per_sec_per_ip :: nat
  rc_keepalive_interval_secs :: u64
  rc_send_buffer_size :: nat
  rc_https_only :: bool
  rc_tls :: tls_config
  rc_transport :: transport_config

definition receiver_config_default :: receiver_config where
  "receiver_config_default =
     \<lparr>rc_host = ''127.0.0.1'', rc_http_port = 4318, rc_grpc_port = 4317,
      rc_max_body_size = 4 * 1024 * 1024, rc_request_timeout_secs = 30,
      rc_ams_net_id = ''0.0.0.0.1.1'', rc_ams_tcp_port = 48898, rc_ads_port = 16150,
      rc_max_connections = default_max_connections,
      rc_idle_timeout_secs = default_idle_timeout_secs,
      rc_max_connections_per_ip = default_max_connections_per_ip,
      rc_rate_limit_per_sec_per_ip = default_rate_limit_per_sec_per_ip,
      rc_keepalive_interval_secs = default_keepalive_interval_secs,
      rc_send_buffer_size = default_send_buffer_size, rc_https_only = False,
      rc_tls = tls_config_default, rc_transport = transport_config_default\<rparr>"

definition validate_endpoint :: "(string \<Rightarrow> string) \<Rightarrow> receiver_config \<Rightarrow> string \<Rightarrow> (string, unit) res" where
  "validate_endpoint lower r endpoint =
     (if rc_https_only r \<and> starts_with ''http://'' (lower endpoint) then
        Err (''endpoint '' @ quoted endpoint @
          '' uses HTTP but https_only is enabled: only HTTPS endpoints are allowed'')
      else if tls_enabled (rc_tls r) \<and> starts_with ''http://'' (lower endpoint) then
        Err (''endpoint '' @ quoted endpoint @
          '' uses HTTP but TLS is enabled: cannot downgrade from HTTPS to HTTP'')
      else Ok ())"

definition receiver_errors :: "(string \<Rightarrow> string) \<Rightarrow> receiver_config \<Rightarrow> string list" where
  "receiver_errors upper r =
     (let e0 = (case tls_validate upper (rc_tls r) of Err tls_errs \<Rightarrow> tls_errs | _ \<Rightarrow> [])
      in push_if (rc_https_only r \<and> \<not> tls_enabled (rc_tls r))
           ''https_only=true but TLS is not enabled: enable TLS to enforce HTTPS-only mode'' e0)"

definition receiver_validate :: "(string \<Rightarrow> string) \<Rightarrow> receiver_config \<Rightarrow> (string list, unit) res" where
  "receiver_validate upper r = errors_result (receiver_errors upper r)"

section \<open>Export, web, metrics\<close>

record output_config =
  out_type :: string
  out_settings :: json

datatype wire_format = WireJson | WireProtobuf

record export_config =
  ex_endpoint :: string
  ex_batch_size :: nat
  ex_flush_interval_ms :: u64
  ex_timeout_secs :: u64
  ex_max_retries :: nat
  ex_format :: wire_format

definition default_export_endpoint :: string where
  "default_export_endpoint = ''http://victoria-logs:9428/insert/jsonline''"
definition default_batch_size :: nat where "default_batch_size = 2000"
definition default_flush_interval_ms :: u64 where "default_flush_interval_ms = 1000"
definition default_export_timeout_secs :: u64 where "default_export_timeout_secs = 10"
definition default_max_retries :: nat where "default_max_retries = 3"
definition wire_format_default :: wire_format where "wire_format_default = WireProtobuf"

definition export_config_default :: export_config where
  "export_config_default =
     \<lparr>ex_endpoint = default_export_endpoint, ex_batch_size = default_batch_size,
      ex_flush_interval_ms = default_flush_interval_ms, ex_timeout_secs = default_export_timeout_secs,
      ex_max_retries = default_max_retries, ex_format = wire_format_default\<rparr>"

record web_config =
  web_enabled :: bool
  web_host :: string
  web_port :: u16

definition default_web_enabled :: bool where "default_web_enabled = True"
definition default_web_host :: string where "default_web_host = ''127.0.0.1''"
definition default_web_port :: u16 where "default_web_port = 8080"

definition web_config_default :: web_config where
  "web_config_default =
     \<lparr>web_enabled = default_web_enabled, web_host = default_web_host, web_port = default_web_port\<rparr>"

datatype metric_kind_config = CfgGauge | CfgSum | CfgHistogram

fun to_metric_kind :: "metric_kind_config \<Rightarrow> metric_kind" where
  "to_metric_kind CfgGauge = Gauge"
| "to_metric_kind CfgSum = Sum"
| "to_metric_kind CfgHistogram = Histogram"

datatype custom_metric_source = Push | Poll | Notification

record poll_config =
  pc_interval_ms :: u64

definition default_poll_interval_ms :: u64 where "default_poll_interval_ms = 1000"

definition poll_config_default :: poll_config where
  "poll_config_default = \<lparr>pc_interval_ms = default_poll_interval_ms\<rparr>"

datatype notification_transmission_mode = OnChange | Cyclic

record notification_config =
  nc_min_period_ms :: u32
  nc_max_period_ms :: u32
  nc_max_delay_ms :: u32
  nc_transmission_mode :: notification_transmission_mode

definition default_max_period_ms :: u32 where "default_max_period_ms = 10000"
definition default_max_delay_ms :: u32 where "default_max_delay_ms = 5000"

definition notification_config_default :: notification_config where
  "notification_config_default =
     \<lparr>nc_min_period_ms = 0, nc_max_period_ms = default_max_period_ms,
      nc_max_delay_ms = default_max_delay_ms, nc_transmission_mode = OnChange\<rparr>"

record custom_metric_def =
  cd_symbol :: string
  cd_metric_name :: string
  cd_description :: string
  cd_unit :: string
  cd_kind :: metric_kind_config
  cd_is_monotonic :: bool
  cd_source :: custom_metric_source
  cd_ams_net_id :: "string option"
  cd_ams_port :: "u16 option"
  cd_ams_router_host :: "string option"
  cd_poll :: "poll_config option"
  cd_notification :: "notification_config option"

definition custom_metric_def_default :: custom_metric_def where
  "custom_metric_def_default =
     \<lparr>cd_symbol = '''', cd_metric_name = '''', cd_description = '''', cd_unit = '''',
      cd_kind = CfgGauge, cd_is_monotonic = False, cd_source = Push, cd_ams_net_id = None,
      cd_ams_port = None, cd_ams_router_host = None, cd_poll = None, cd_notification = None\<rparr>"

record metrics_config =
  mc_cycle_time_enabled :: bool
  mc_cycle_time_window :: nat
  mc_custom_metrics :: "custom_metric_def list"
  mc_export_enabled :: bool
  mc_export_endpoint :: "string option"
  mc_export_batch_size :: nat
  mc_export_flush_interval_ms :: u64
  mc_export_format :: "wire_format option"

definition default_cycle_time_enabled :: bool where "default_cycle_time_enabled = True"
definition default_cycle_time_window :: nat where "default_cycle_time_window = 1000"
definition default_metrics_batch_size :: nat where "default_metrics_batch_size = 1000"
definition default_metrics_flush_interval_ms :: u64 where "default_metrics_flush_interval_ms = 5000"

definition metrics_config_default :: metrics_config where
  "metrics_config_default =
     \<lparr>mc_cycle_time_enabled = default_cycle_time_enabled,
      mc_cycle_time_window = default_cycle_time_window, mc_custom_metrics = [],
      mc_export_enabled = False, mc_export_endpoint = None,
      mc_export_batch_size = default_metrics_batch_size,
      mc_export_flush_interval_ms = default_metrics_flush_interval_ms, mc_export_format = None\<rparr>"

section \<open>Traces, service, diagnostics\<close>

record traces_export_config =
  tx_endpoint :: "string option"
  tx_batch_size :: nat
  tx_flush_interval_ms :: u64
  tx_format :: "wire_format option"

definition default_traces_batch_size :: nat where "default_traces_batch_size = 100"
definition default_traces_flush_interval_ms :: u64 where "default_traces_flush_interval_ms = 1000"

definition traces_export_config_default :: traces_export_config where
  "traces_export_config_default =
     \<lparr>tx_endpoint = None, tx_batch_size = default_traces_batch_size,
      tx_flush_interval_ms = default_traces_flush_interval_ms, tx_format = None\<rparr>"

record traces_config =
  tc_enabled :: bool
  tc_span_ttl_secs :: u64
  tc_max_pending_spans :: nat
  tc_export :: traces_export_config

definition default_span_ttl_secs :: u64 where "default_span_ttl_secs = 10"
definition default_max_pending_spans :: nat where "default_max_pending_spans = 1024"

definition traces_config_default :: traces_config where
  "traces_config_default =
     \<lparr>tc_enabled = False, tc_span_ttl_secs = default_span_ttl_secs,
      tc_max_pending_spans = default_max_pending_spans, tc_export = traces_export_config_default\<rparr>"

record service_config =
  sc_name :: string
  sc_display_name :: string
  sc_worker_threads :: "nat option"
  sc_channel_capacity :: nat
  sc_shutdown_timeout_secs :: u64

definition service_config_default :: service_config where
  "service_config_default =
     \<lparr>sc_name = ''tc-otel'', sc_display_name = ''tc-otel - TwinCAT OpenTelemetry Service'',
      sc_worker_threads = None, sc_channel_capacity = 50000, sc_shutdown_timeout_secs = 30\<rparr>"

record diagnostics_target_config =
  dg_ams_net_id :: string
  dg_poll_interval_ms :: u64
  dg_exceed_counter :: bool
  dg_rt_usage :: bool
  dg_task_ports :: "u16 list"
  dg_rt_port :: u16
  dg_task_names :: "string \<rightharpoonup> string"

definition default_diagnostics_poll_interval_ms :: u64 where "default_diagnostics_poll_interval_ms = 1000"
definition default_true :: bool where "default_true = True"
definition default_diagnostics_task_ports :: "u16 list" where
  "default_diagnostics_task_ports = [340, 350, 351]"
definition default_diagnostics_rt_port :: u16 where "default_diagnostics_rt_port = 200"

record diagnostics_config =
  dc_enabled :: bool
  dc_targets :: "diagnostics_target_config list"

definition diagnostics_config_default :: diagnostics_config where
  "diagnostics_config_default = \<lparr>dc_enabled = False, dc_targets = []\<rparr>"

section \<open>The settings\<close>

record app_settings =
  as_logging :: logging_config
  as_receiver :: receiver_config
  as_export :: export_config
  as_outputs :: "output_config list"
  as_service :: service_config
  as_web :: web_config
  as_metrics :: metrics_config
  as_diagnostics :: diagnostics_config
  as_traces :: traces_config

definition app_settings_default :: app_settings where
  "app_settings_default =
     \<lparr>as_logging = logging_config_default, as_receiver = receiver_config_default,
      as_export = export_config_default, as_outputs = [], as_service = service_config_default,
      as_web = web_config_default, as_metrics = metrics_config_default,
      as_diagnostics = diagnostics_config_default, as_traces = traces_config_default\<rparr>"

definition MASKED_SENTINEL :: string where "MASKED_SENTINEL = ''***MASKED***''"

text \<open>
  \<open>get_mut\<close> on a JSON value: the entry of an object. \<open>json_update k f v\<close> is what becomes of
  \<open>v\<close> when the entry \<open>k\<close>, if there is one, is changed by \<open>f\<close>.
\<close>

fun json_get :: "string \<Rightarrow> json \<Rightarrow> json option" where
  "json_get k (JObject kvs) = map_of kvs k"
| "json_get k _ = None"

fun json_update :: "string \<Rightarrow> (json \<Rightarrow> json) \<Rightarrow> json \<Rightarrow> json" where
  "json_update k f (JObject kvs) =
     (case map_of kvs k of None \<Rightarrow> JObject kvs | Some v \<Rightarrow> JObject (AList.update k (f v) kvs))"
| "json_update k f v = v"

fun mask_string :: "json \<Rightarrow> json" where
  "mask_string (JString s) = (if s \<noteq> [] then JString MASKED_SENTINEL else JString s)"
| "mask_string v = v"

definition mask_transport :: "json \<Rightarrow> json" where
  "mask_transport transport =
     (if json_get ''type'' transport = Some (JString ''mqtt'')
      then json_update ''username'' mask_string (json_update ''password'' mask_string transport)
      else transport)"

definition to_masked_json :: "json \<Rightarrow> json" where
  "to_masked_json val = json_update ''receiver'' (json_update ''transport'' mask_transport) val"

definition restore_secret :: "string option \<Rightarrow> string option \<Rightarrow> string option" where
  "restore_secret incoming current = (if incoming = Some MASKED_SENTINEL then current else incoming)"

definition merge_secrets_from :: "app_settings \<Rightarrow> app_settings \<Rightarrow> app_settings" where
  "merge_secrets_from s current =
     (case (rc_transport (as_receiver s), as_mqtt (rc_transport (as_receiver current))) of
        (Mqtt mqtt, Some current_mqtt) \<Rightarrow>
          s\<lparr>as_receiver := (as_receiver s)\<lparr>rc_transport :=
            Mqtt (mqtt\<lparr>mq_password := restore_secret (mq_password mqtt) (mq_password current_mqtt),
                       mq_username := restore_secret (mq_username mqtt) (mq_username current_mqtt)\<rparr>)\<rparr>\<rparr>
      | _ \<Rightarrow> s)"

definition port_error :: "string \<Rightarrow> u16 \<Rightarrow> string list \<Rightarrow> string list" where
  "port_error field port errors =
     push_if (\<not> (1 \<le> port \<and> port \<le> 65535))
       (field @ '' '' @ show_nat (unat port) @ '' out of range [1, 65535]'') errors"

fun transport_error :: "transport_config \<Rightarrow> string list \<Rightarrow> string list" where
  "transport_error (Tcp tcp) errors = port_error ''receiver.transport.tcp.port'' (tcp_port tcp) errors"
| "transport_error (Mqtt mqtt) errors = errors"
| "transport_error (LocalRouter lr) errors =
     port_error ''receiver.transport.local_router.router_port'' (lr_router_port lr) errors"

definition app_settings_errors :: "(string \<Rightarrow> string) \<Rightarrow> app_settings \<Rightarrow> string list" where
  "app_settings_errors upper s =
     (let r = as_receiver s;
          e0 = (case receiver_validate upper r of Err e \<Rightarrow> e | _ \<Rightarrow> []);
          e1 = port_error ''receiver.http_port'' (rc_http_port r) e0;
          e2 = port_error ''receiver.grpc_port'' (rc_grpc_port r) e1;
          e3 = port_error ''receiver.ams_tcp_port'' (rc_ams_tcp_port r) e2;
          e4 = port_error ''receiver.ads_port'' (rc_ads_port r) e3;
          e5 = transport_error (rc_transport r) e4;
          e6 = port_error ''web.port'' (web_port (as_web s)) e5;
          e7 = push_if (ex_batch_size (as_export s) = 0) ''export.batch_size must be > 0'' e6;
          e8 = push_if (ex_flush_interval_ms (as_export s) = 0) ''export.flush_interval_ms must be > 0'' e7;
          e9 = push_if (ex_timeout_secs (as_export s) = 0) ''export.timeout_secs must be > 0'' e8;
          e10 = push_if (sc_channel_capacity (as_service s) = 0) ''service.channel_capacity must be > 0'' e9;
          e11 = push_if (sc_worker_threads (as_service s) = Some 0) ''service.worker_threads must be > 0 if set'' e10;
          e12 = push_if (mc_cycle_time_window (as_metrics s) = 0) ''metrics.cycle_time_window must be > 0'' e11;
          e13 = push_if (mc_export_batch_size (as_metrics s) = 0) ''metrics.export_batch_size must be > 0'' e12;
          e14 = push_if (mc_export_flush_interval_ms (as_metrics s) = 0)
                  ''metrics.export_flush_interval_ms must be > 0'' e13;
          e15 = push_if (tc_enabled (as_traces s) \<and> tc_span_ttl_secs (as_traces s) = 0)
                  ''traces.span_ttl_secs must be > 0'' e14
      in push_if (tc_enabled (as_traces s) \<and> tc_max_pending_spans (as_traces s) = 0)
           ''traces.max_pending_spans must be > 0'' e15)"

definition app_settings_validate :: "(string \<Rightarrow> string) \<Rightarrow> app_settings \<Rightarrow> (string list, unit) res" where
  "app_settings_validate upper s = errors_result (app_settings_errors upper s)"

section \<open>Comparing settings\<close>

record config_diff =
  export_changed :: bool
  logging_changed :: bool
  receiver_changed :: bool
  service_changed :: bool
  outputs_changed :: bool
  web_changed :: bool
  metrics_changed :: bool
  diagnostics_changed :: bool

definition config_diff_compute :: "app_settings \<Rightarrow> app_settings \<Rightarrow> config_diff" where
  "config_diff_compute old new =
     \<lparr>export_changed = (as_export old \<noteq> as_export new),
      logging_changed = (as_logging old \<noteq> as_logging new),
      receiver_changed = (as_receiver old \<noteq> as_receiver new),
      service_changed = (as_service old \<noteq> as_service new),
      outputs_changed = (as_outputs old \<noteq> as_outputs new),
      web_changed = (as_web old \<noteq> as_web new),
      metrics_changed = (as_metrics old \<noteq> as_metrics new),
      diagnostics_changed = (as_diagnostics old \<noteq> as_diagnostics new)\<rparr>"

definition has_hot_reloadable_changes :: "config_diff \<Rightarrow> bool" where
  "has_hot_reloadable_changes d \<longleftrightarrow>
     export_changed d \<or> logging_changed d \<or> metrics_changed d \<or> diagnostics_changed d"

definition has_restart_required_changes :: "config_diff \<Rightarrow> bool" where
  "has_restart_required_changes d \<longleftrightarrow>
     receiver_changed d \<or> service_changed d \<or> outputs_changed d \<or> web_changed d"

definition config_diff_is_empty :: "config_diff \<Rightarrow> bool" where
  "config_diff_is_empty d \<longleftrightarrow>
     \<not> export_changed d \<and> \<not> logging_changed d \<and> \<not> receiver_changed d \<and> \<not> service_changed d \<and>
     \<not> outputs_changed d \<and> \<not> web_changed d \<and> \<not> metrics_changed d \<and> \<not> diagnostics_changed d"

section \<open>What the checks accept\<close>

text \<open>
  The accepted settings written out: ports are not zero, intervals and capacities are positive, and
  with transport security enabled certificates are verified and present, the protocol versions are
  1.2 or 1.3 in order, and no cipher name contains a banned pattern. \<open>upper_text\<close> is what
  \<^verbatim>\<open>str::to_uppercase\<close> guarantees of ASCII letters: none is left in lower case.
\<close>

definition upper_text :: "(string \<Rightarrow> string) \<Rightarrow> bool" where
  "upper_text upper \<longleftrightarrow> (\<forall>s. \<forall>c\<in>set (upper s). of_char c < (97 :: nat) \<or> (122 :: nat) < of_char c)"

definition valid_tls :: "(string \<Rightarrow> string) \<Rightarrow> tls_config \<Rightarrow> bool" where
  "valid_tls upper t \<longleftrightarrow>
     \<not> tls_insecure_skip_verify t \<and> tls_cert_path t \<noteq> None \<and> tls_key_path t \<noteq> None \<and>
     (tls_require_client_cert t \<longrightarrow> tls_ca_cert_path t \<noteq> None) \<and>
     (tls_min_version t, tls_max_version t) \<in>
       {(''TLSv1_2'', ''TLSv1_2''), (''TLSv1_2'', ''TLSv1_3''), (''TLSv1_3'', ''TLSv1_3'')} \<and>
     (\<forall>cipher\<in>set (tls_ciphers t).
        \<forall>weak\<in>{''DES'', ''RC4'', ''RC2'', ''MD5'', ''NULL'', ''EXPORT'', ''ADH'', ''AECDH''}.
          \<not> str_contains weak (upper cipher))"

fun valid_transport :: "transport_config \<Rightarrow> bool" where
  "valid_transport (Tcp tcp) \<longleftrightarrow> tcp_port tcp \<noteq> 0"
| "valid_transport (Mqtt mqtt) \<longleftrightarrow> True"
| "valid_transport (LocalRouter lr) \<longleftrightarrow> lr_router_port lr \<noteq> 0"

definition valid_receiver :: "(string \<Rightarrow> string) \<Rightarrow> receiver_config \<Rightarrow> bool" where
  "valid_receiver upper r \<longleftrightarrow>
     (tls_enabled (rc_tls r) \<longrightarrow> valid_tls upper (rc_tls r)) \<and> (rc_https_only r \<longrightarrow> tls_enabled (rc_tls r)) \<and>
     rc_http_port r \<noteq> 0 \<and> rc_grpc_port r \<noteq> 0 \<and> rc_ams_tcp_port r \<noteq> 0 \<and> rc_ads_port r \<noteq> 0 \<and>
     valid_transport (rc_transport r)"

definition valid_settings :: "(string \<Rightarrow> string) \<Rightarrow> app_settings \<Rightarrow> bool" where
  "valid_settings upper s \<longleftrightarrow>
     valid_receiver upper (as_receiver s) \<and> web_port (as_web s) \<noteq> 0 \<and>
     0 < ex_batch_size (as_export s) \<and> 0 < ex_flush_interval_ms (as_export s) \<and> 0 < ex_timeout_secs (as_export s) \<and>
     0 < sc_channel_capacity (as_service s) \<and> sc_worker_threads (as_service s) \<noteq> Some 0 \<and>
     0 < mc_cycle_time_window (as_metrics s) \<and> 0 < mc_export_batch_size (as_metrics s) \<and>
     0 < mc_export_flush_interval_ms (as_metrics s) \<and>
     (tc_enabled (as_traces s) \<longrightarrow>
        0 < tc_span_ttl_secs (as_traces s) \<and> 0 < tc_max_pending_spans (as_traces s))"

named_theorems check_simps \<open>when a check reports nothing\<close>

lemma push_if_Nil [check_simps]: "push_if c m es = [] \<longleftrightarrow> \<not> c \<and> es = []"
  by (simp add: push_if_def)

lemma push_err_Nil [check_simps]: "push_err r f es = [] \<longleftrightarrow> (\<forall>e. r \<noteq> Err e) \<and> es = []"
  by (cases r) (simp_all add: push_err_def)

lemma errors_result_Ok [check_simps]: "errors_result es = Ok () \<longleftrightarrow> es = []"
  by (simp add: errors_result_def)

lemma errors_of_result [check_simps]: "(case errors_result es of Err e \<Rightarrow> e | _ \<Rightarrow> []) = es"
  by (simp add: errors_result_def)

lemma port_error_Nil [check_simps]: "port_error f p es = [] \<longleftrightarrow> p \<noteq> 0 \<and> es = []"
proof -
  have "p \<le> 65535" using unsigned_less [of p, where 'a = nat] by (simp add: word_le_nat_alt)
  moreover have "1 \<le> p \<longleftrightarrow> p \<noteq> 0" by (simp add: word_le_nat_alt Suc_le_eq unat_gt_0)
  ultimately show ?thesis by (simp add: port_error_def push_if_Nil)
qed

lemma transport_error_Nil [check_simps]: "transport_error t es = [] \<longleftrightarrow> valid_transport t \<and> es = []"
  by (cases t) (simp_all add: check_simps)

lemma fold_push_err_Nil [check_simps]:
  "fold (\<lambda>x. push_err (g x) f) xs es = [] \<longleftrightarrow> es = [] \<and> (\<forall>x\<in>set xs. \<forall>e. g x \<noteq> Err e)"
  by (induction xs arbitrary: es) (auto simp: check_simps)

lemma str_contains_set: "str_contains p s \<Longrightarrow> set p \<subseteq> set s"
proof (induction s)
  case (Cons c s)
  have "starts_with p (c # s) \<Longrightarrow> set p \<subseteq> set (c # s)"
    unfolding starts_with_def using set_take_subset [of "length p" "c # s"] by simp
  with Cons show ?case by auto
qed simp

lemma anon_not_banned:
  assumes "upper_text upper"
  shows "\<not> str_contains ''anon'' (upper cipher)"
proof
  assume "str_contains ''anon'' (upper cipher)"
  then have "CHR ''a'' \<in> set (upper cipher)" using str_contains_set by fastforce
  then have "of_char CHR ''a'' < (97 :: nat) \<or> (122 :: nat) < of_char CHR ''a''"
    using assms by (simp only: upper_text_def)
  then show False by simp
qed

lemma cipher_accepted:
  assumes "upper_text upper"
  shows "(\<forall>e. validate_cipher_suite upper cipher \<noteq> Err e) \<longleftrightarrow>
     (\<forall>weak\<in>{''DES'', ''RC4'', ''RC2'', ''MD5'', ''NULL'', ''EXPORT'', ''ADH'', ''AECDH''}.
        \<not> str_contains weak (upper cipher))"
proof -
  have "(\<forall>e. validate_cipher_suite upper cipher \<noteq> Err e) \<longleftrightarrow>
      (\<forall>weak\<in>set WEAK_CIPHER_PATTERNS. \<not> str_contains weak (upper cipher))"
    by (auto simp: validate_cipher_suite_def find_None_iff find_Some_iff split: option.splits)
  also have "\<dots> \<longleftrightarrow> (\<forall>weak\<in>{''DES'', ''RC4'', ''RC2'', ''MD5'', ''NULL'', ''EXPORT'', ''ADH'', ''AECDH''}.
      \<not> str_contains weak (upper cipher))"
    using anon_not_banned [OF assms, of cipher] by (simp add: WEAK_CIPHER_PATTERNS_def)
  finally show ?thesis .
qed

lemma tls_errors_Nil: "upper_text upper \<Longrightarrow> tls_errors upper t = [] \<longleftrightarrow> valid_tls upper t"
  unfolding tls_errors_def Let_def check_simps valid_tls_def
  by (subst cipher_accepted, assumption)
    (auto simp: validate_tls_version_def check_minimum_acceptable_version_def VALID_TLS_VERSIONS_def
      MIN_ACCEPTABLE_TLS_VERSION_def tls_version_ord_def split: if_splits)

section \<open>Properties\<close>


lemma upper_text_ascii: "upper_text ascii_upper"
  by (auto simp: upper_text_def ascii_upper_def)

definition tls_settings :: app_settings where
  "tls_settings = app_settings_default\<lparr>as_receiver := receiver_config_default\<lparr>rc_tls :=
     tls_config_default\<lparr>tls_enabled := True, tls_cert_path := Some ''c.pem'', tls_key_path := Some ''k.pem'',
       tls_ciphers := [''TLS_DH_anon_WITH_AES_128'']\<rparr>\<rparr>\<rparr>"


end
