(* ===== verification/Config_Update.thy ===== *)
theory Config_Update
  imports Config Transitions
begin

text \<open>
  Changing the settings of a running service: the handlers \<open>get_config\<close> and \<open>post_config\<close> of
  \<^verbatim>\<open>tc-otel-service/src/web.rs\<close>, and the watcher of the configuration file in
  \<^verbatim>\<open>tc-otel-service/src/config_watcher.rs\<close>. The derived conversions of the settings from and to
  JSON are the fields of \<open>config_io\<close>; whether a file operation or the sending on the watch channel
  succeeds is an input of the step. The temporary file that is renamed over the configuration file is
  not part of the state: only the rename changes the configuration file.
\<close>

section \<open>The web handlers\<close>

record config_io =
  to_value :: "app_settings \<Rightarrow> json"
  from_value :: "json \<Rightarrow> (string, app_settings) res"
  to_string_pretty :: "app_settings \<Rightarrow> (string, string) res"

record web_state =
  ws_settings :: app_settings
  ws_file :: string
  ws_restart_pending :: bool

record get_config_response =
  gc_config :: json
  gc_restart_pending :: bool
  gc_last_modified :: "string option"

definition get_config :: "config_io \<Rightarrow> string option \<Rightarrow> web_state \<Rightarrow> get_config_response" where
  "get_config io modified st =
     \<lparr>gc_config = to_masked_json (to_value io (ws_settings st)),
      gc_restart_pending = ws_restart_pending st, gc_last_modified = modified\<rparr>"

datatype status_code = BAD_REQUEST | INTERNAL_SERVER_ERROR

record error_response =
  er_status :: status_code
  er_error :: string
  er_detail :: "string option"

record post_config_response =
  pr_ok :: bool
  pr_hot_reloaded :: "string list"
  pr_restart_required :: "string list"

definition hot_reloaded :: "config_diff \<Rightarrow> string list" where
  "hot_reloaded diff =
     push_if (diagnostics_changed diff) ''diagnostics'' (push_if (metrics_changed diff) ''metrics''
       (push_if (export_changed diff) ''export'' (push_if (logging_changed diff) ''logging'' [])))"

definition restart_required :: "config_diff \<Rightarrow> string list" where
  "restart_required diff =
     push_if (web_changed diff) ''web'' (push_if (outputs_changed diff) ''outputs''
       (push_if (service_changed diff) ''service'' (push_if (receiver_changed diff) ''receiver'' [])))"

text \<open>\<open>wr\<close> and \<open>rn\<close> are the errors of writing the temporary file and of renaming it, if they fail.\<close>

definition post_config ::
    "config_io \<Rightarrow> (string \<Rightarrow> string) \<Rightarrow> string option \<Rightarrow> string option \<Rightarrow> json \<Rightarrow> web_state \<Rightarrow>
     (error_response, post_config_response) res \<times> web_state" where
  "post_config io upper wr rn payload st =
     (case from_value io payload of
        Ok parsed \<Rightarrow>
          let current = ws_settings st; incoming = merge_secrets_from parsed current in
          (case app_settings_validate upper incoming of
             Ok _ \<Rightarrow>
               (case to_string_pretty io incoming of
                  Ok json_str \<Rightarrow>
                    (case (wr, rn) of
                       (Some e, _) \<Rightarrow>
                         (Err \<lparr>er_status = INTERNAL_SERVER_ERROR, er_error = ''Failed to write config file'',
                               er_detail = Some e\<rparr>, st)
                     | (None, Some e) \<Rightarrow>
                         (Err \<lparr>er_status = INTERNAL_SERVER_ERROR,
                               er_error = ''Failed to atomically replace config'', er_detail = Some e\<rparr>, st)
                     | (None, None) \<Rightarrow>
                         let diff = config_diff_compute current incoming;
                             restart = restart_required diff
                         in (Ok \<lparr>pr_ok = True, pr_hot_reloaded = hot_reloaded diff, pr_restart_required = restart\<rparr>,
                             st\<lparr>ws_file := json_str, ws_settings := incoming,
                                ws_restart_pending := (if restart \<noteq> [] then True else ws_restart_pending st)\<rparr>))
                | Err e \<Rightarrow>
                    (Err \<lparr>er_status = INTERNAL_SERVER_ERROR, er_error = ''Failed to serialize config'',
                          er_detail = Some e\<rparr>, st)
                | Panic \<Rightarrow> (Panic, st))
           | Err errors \<Rightarrow>
               (Err \<lparr>er_status = BAD_REQUEST, er_error = ''Config validation failed'',
                     er_detail = Some (join_with ''; '' errors)\<rparr>, st)
           | Panic \<Rightarrow> (Panic, st))
      | Err e \<Rightarrow>
          (Err \<lparr>er_status = BAD_REQUEST, er_error = ''Invalid config JSON'', er_detail = Some e\<rparr>, st)
      | Panic \<Rightarrow> (Panic, st))"

section \<open>The file watcher\<close>

text \<open>
  The watcher and what it sees at a tick: the modification time of the file, what reading and
  parsing the file gives, and whether any receiver is left. The second component of a step is the
  list of broadcast settings; \<open>cw_running\<close> is false once the loop has ended.
\<close>

record 't config_watcher =
  cw_last_modified :: "'t option"
  cw_settings :: app_settings
  cw_running :: bool

record 't tick =
  tk_mtime :: "'t option"
  tk_content :: "(string, app_settings) res"
  tk_closed :: bool

definition config_watcher_new :: "'t option \<Rightarrow> app_settings \<Rightarrow> 't config_watcher" where
  "config_watcher_new mtime initial =
     \<lparr>cw_last_modified = mtime, cw_settings = initial, cw_running = True\<rparr>"

definition watch_tick :: "'t config_watcher \<Rightarrow> 't tick \<Rightarrow> 't config_watcher \<times> app_settings list" where
  "watch_tick w t =
     (if \<not> cw_running w then (w, [])
      else if tk_mtime t = cw_last_modified w then (w, [])
      else
        let w1 = w\<lparr>cw_last_modified := tk_mtime t\<rparr> in
        case tk_content t of
          Ok new_settings \<Rightarrow>
            if config_diff_is_empty (config_diff_compute (cw_settings w1) new_settings) then (w1, [])
            else if tk_closed t then (w1\<lparr>cw_running := False\<rparr>, [])
            else (w1\<lparr>cw_settings := new_settings\<rparr>, [new_settings])
        | _ \<Rightarrow> (w1, []))"

section \<open>Secrets, differences, runs\<close>

definition mask_secret :: "string option \<Rightarrow> string option" where
  "mask_secret s = map_option (\<lambda>t. if t \<noteq> [] then MASKED_SENTINEL else t) s"

text \<open>The settings that the masked JSON shows.\<close>

fun mask_mqtt :: "transport_config \<Rightarrow> transport_config" where
  "mask_mqtt (Mqtt m) = Mqtt (m\<lparr>mq_password := mask_secret (mq_password m), mq_username := mask_secret (mq_username m)\<rparr>)"
| "mask_mqtt t = t"

definition masked_settings :: "app_settings \<Rightarrow> app_settings" where
  "masked_settings s =
     s\<lparr>as_receiver := (as_receiver s)\<lparr>rc_transport := mask_mqtt (rc_transport (as_receiver s))\<rparr>\<rparr>"

lemma restore_mask: "restore_secret (mask_secret s) s = s"
  by (cases s) (simp_all add: restore_secret_def mask_secret_def MASKED_SENTINEL_def)

lemma merge_masked: "merge_secrets_from (masked_settings s) s = s"
  by (cases "rc_transport (as_receiver s)") (simp_all add: merge_secrets_from_def masked_settings_def restore_mask)

lemma diff_empty_iff:
  "config_diff_is_empty (config_diff_compute old new) \<longleftrightarrow> new\<lparr>as_traces := as_traces old\<rparr> = old"
  by (cases old; cases new) (auto simp: config_diff_is_empty_def config_diff_compute_def)

lemma restart_required_iff: "restart_required d \<noteq> [] \<longleftrightarrow> has_restart_required_changes d"
  by (simp add: restart_required_def has_restart_required_changes_def push_if_def)

lemma validate_not_Panic [simp]: "app_settings_validate upper s \<noteq> Panic"
  by (simp add: app_settings_validate_def errors_result_def)

section \<open>Properties\<close>


definition mqtt_settings :: app_settings where
  "mqtt_settings = app_settings_default\<lparr>as_receiver := receiver_config_default\<lparr>rc_transport :=
     Mqtt (mqtt_transport_config_default\<lparr>mq_username := Some ''plc'', mq_password := Some ''secret''\<rparr>)\<rparr>\<rparr>"

definition form_io :: config_io where
  "form_io = \<lparr>to_value = (\<lambda>_. JNull), from_value = (\<lambda>_. Ok (masked_settings mqtt_settings)),
     to_string_pretty = (\<lambda>_. Ok ''config'')\<rparr>"



definition traced_settings :: app_settings where
  "traced_settings = app_settings_default\<lparr>as_traces := traces_config_default\<lparr>tc_enabled := True\<rparr>\<rparr>"


end
