(* ===== verification/Export.thy ===== *)
theory Export
  imports Config
begin

text \<open>
  The OTLP exporter, \<^verbatim>\<open>tc-otel-export/src/exporter.rs\<close> and \<^verbatim>\<open>error.rs\<close>: its configuration, the JSON
  payloads of log, metric and trace batches, and the sending with retries. What the collector
  answers to the \<open>i\<close>-th attempt at a request is an argument; a sending returns its result and the
  delays it slept. The property of this theory is that sending ends, with the retries the policy allows. Values computed by other crates are the fields of \<open>export_ops\<close>. The entries of a JSON object
  are listed in the order in which the source inserts them.
\<close>

section \<open>Configuration\<close>

datatype otel_error =
    InvalidRequest string
  | ExportFailed string
  | ReceiverError string
  | JsonError string
  | HttpError string
  | SerializationError string
  | Internal string

record exporter_config =
  xc_endpoint :: string
  xc_batch_size :: nat
  xc_max_retries :: nat
  xc_retry_delay_ms :: u64
  xc_timeout_secs :: u64
  xc_auth_header :: "string option"
  xc_format :: wire_format

text \<open>The argument is the environment of the process.\<close>

definition exporter_config_default :: "(string \<Rightarrow> string option) \<Rightarrow> exporter_config" where
  "exporter_config_default env =
     \<lparr>xc_endpoint = (case env ''OTEL_EXPORTER_OTLP_ENDPOINT'' of
        Some e \<Rightarrow> e | None \<Rightarrow> ''https://localhost:4318/v1/logs''),
      xc_batch_size = 100, xc_max_retries = 3, xc_retry_delay_ms = 100, xc_timeout_secs = 30,
      xc_auth_header = env ''OTEL_EXPORTER_OTLP_HEADERS'', xc_format = wire_format_default\<rparr>"

record otel_exporter =
  xp_config :: exporter_config
  xp_https_only :: bool

definition exporter_with_config :: "exporter_config \<Rightarrow> otel_exporter" where
  "exporter_with_config config =
     (let is_local = str_contains ''localhost'' (xc_endpoint config) \<or> str_contains ''127.0.0.1'' (xc_endpoint config) \<or>
        str_contains ''otel-collector'' (xc_endpoint config) \<or> starts_with ''http://'' (xc_endpoint config)
      in \<lparr>xp_config = config, xp_https_only = (\<not> is_local)\<rparr>)"

definition exporter_new :: "(string \<Rightarrow> string option) \<Rightarrow> string \<Rightarrow> nat \<Rightarrow> nat \<Rightarrow> otel_exporter" where
  "exporter_new env endpoint batch_size max_retries =
     exporter_with_config ((exporter_config_default env)
       \<lparr>xc_endpoint := endpoint, xc_batch_size := batch_size, xc_max_retries := max_retries\<rparr>)"

section \<open>Sending\<close>

fun is_retryable_error :: "otel_error \<Rightarrow> bool" where
  "is_retryable_error (ExportFailed msg) = (\<not> str_contains ''HTTP 4'' msg)"
| "is_retryable_error (HttpError _) = True"
| "is_retryable_error _ = False"

text \<open>The answer to a request: a status line that is a success or not, or a failed request.\<close>

datatype http_outcome = Status bool string | Failed string

definition status_error :: "string \<Rightarrow> string \<Rightarrow> otel_error" where
  "status_error status endpoint = ExportFailed (''HTTP '' @ status @ '' from '' @ endpoint)"

fun outcome_result :: "string \<Rightarrow> http_outcome \<Rightarrow> (otel_error, unit) res" where
  "outcome_result endpoint (Status success status) =
     (if success then Ok () else Err (status_error status endpoint))"
| "outcome_result endpoint (Failed e) = Err (HttpError (''Request failed: '' @ e))"

definition eq_ignore_ascii_case :: "string \<Rightarrow> string \<Rightarrow> bool" where
  "eq_ignore_ascii_case s t \<longleftrightarrow> ascii_upper s = ascii_upper t"

text \<open>
  A request as it is posted. The expansion of environment variables in the header, which uses a
  regular expression crate, is the argument \<open>expand\<close>. The sink \<open>stdout\<close> prints instead of posting.
\<close>

record http_request =
  rq_url :: string
  rq_content_type :: string
  rq_authorization :: "string option"
  rq_body :: "u8 list"
  rq_timeout_secs :: u64

definition post_request ::
    "(string \<Rightarrow> string) \<Rightarrow> exporter_config \<Rightarrow> string \<Rightarrow> u8 list \<Rightarrow> string \<Rightarrow> http_request" where
  "post_request expand c endpoint body content_type =
     \<lparr>rq_url = endpoint, rq_content_type = content_type,
      rq_authorization = map_option expand (xc_auth_header c), rq_body = body,
      rq_timeout_secs = xc_timeout_secs c\<rparr>"

definition send_payload ::
    "(string \<Rightarrow> string) \<Rightarrow> exporter_config \<Rightarrow> u8 list \<Rightarrow> string \<Rightarrow> (http_request \<Rightarrow> http_outcome) \<Rightarrow>
     (otel_error, unit) res" where
  "send_payload expand c body content_type answer =
     (if eq_ignore_ascii_case (xc_endpoint c) ''stdout'' then Ok ()
      else outcome_result (xc_endpoint c) (answer (post_request expand c (xc_endpoint c) body content_type)))"

definition next_delay :: "bool \<Rightarrow> u64 \<Rightarrow> (otel_error, u64) res" where
  "next_delay checks delay_ms =
     (if checks \<and> 2 ^ 64 \<le> unat delay_ms * 2 then Panic else Ok (min (delay_ms * 2) 5000))"

text \<open>
  The loop after \<open>retry_count\<close> retries, with the result and the delays slept. It ends because the
  number of retries left decreases.
\<close>

function retry_loop ::
    "bool \<Rightarrow> nat \<Rightarrow> (nat \<Rightarrow> (otel_error, unit) res) \<Rightarrow> nat \<Rightarrow> u64 \<Rightarrow> (otel_error, unit) res \<times> u64 list" where
  "retry_loop checks max_retries attempt retry_count delay_ms =
     (case attempt retry_count of
        Err e \<Rightarrow>
          (if \<not> is_retryable_error e then (Err e, [])
           else if retry_count + 1 > max_retries then (Err e, [])
           else
             (case next_delay checks delay_ms of
                Ok delay' \<Rightarrow>
                  (case retry_loop checks max_retries attempt (retry_count + 1) delay' of
                     (r, ds) \<Rightarrow> (r, delay_ms # ds))
              | _ \<Rightarrow> (Panic, [delay_ms])))
      | r \<Rightarrow> (r, []))"
  by pat_completeness auto
termination
  by (relation "measure (\<lambda>(_, max_retries, _, retry_count, _). max_retries - retry_count)") auto

declare retry_loop.simps [simp del]

definition send_with_retry ::
    "bool \<Rightarrow> (string \<Rightarrow> string) \<Rightarrow> exporter_config \<Rightarrow> (nat \<Rightarrow> http_request \<Rightarrow> http_outcome) \<Rightarrow> u8 list \<Rightarrow> string \<Rightarrow>
     (otel_error, unit) res \<times> u64 list" where
  "send_with_retry checks expand c answers body content_type =
     retry_loop checks (xc_max_retries c) (\<lambda>i. send_payload expand c body content_type (answers i)) 0
       (xc_retry_delay_ms c)"

text \<open>
  The loop of metric and trace batches: a refusal is checked for being permanent, a failed request is
  always retried.
\<close>

function post_loop ::
    "bool \<Rightarrow> nat \<Rightarrow> http_request \<Rightarrow> (nat \<Rightarrow> http_request \<Rightarrow> http_outcome) \<Rightarrow> nat \<Rightarrow> u64 \<Rightarrow>
     (otel_error, unit) res \<times> u64 list" where
  "post_loop checks max_retries request answers retry_count delay_ms =
     (let again = (\<lambda>err.
            if retry_count + 1 > max_retries then (Err err, [])
            else
              (case next_delay checks delay_ms of
                 Ok delay' \<Rightarrow>
                   (case post_loop checks max_retries request answers (retry_count + 1) delay' of
                      (r, ds) \<Rightarrow> (r, delay_ms # ds))
               | _ \<Rightarrow> (Panic, [delay_ms])))
      in case answers retry_count request of
        Status success status \<Rightarrow>
          (if success then (Ok (), [])
           else if \<not> is_retryable_error (status_error status (rq_url request))
             then (Err (status_error status (rq_url request)), [])
           else again (status_error status (rq_url request)))
      | Failed e \<Rightarrow> again (HttpError (''Request failed: '' @ e)))"
  by pat_completeness auto
termination
  by (relation "measure (\<lambda>(_, max_retries, _, _, retry_count, _). max_retries - retry_count)") auto

declare post_loop.simps [simp del]

definition send_metrics_with_retry ::
    "bool \<Rightarrow> (string \<Rightarrow> string) \<Rightarrow> exporter_config \<Rightarrow> (nat \<Rightarrow> http_request \<Rightarrow> http_outcome) \<Rightarrow> u8 list \<Rightarrow> string \<Rightarrow>
     string \<Rightarrow> (otel_error, unit) res \<times> u64 list" where
  "send_metrics_with_retry checks expand c answers body content_type endpoint =
     post_loop checks (xc_max_retries c) (post_request expand c endpoint body content_type) answers 0
       (xc_retry_delay_ms c)"

definition send_traces_with_retry ::
    "bool \<Rightarrow> (string \<Rightarrow> string) \<Rightarrow> exporter_config \<Rightarrow> (nat \<Rightarrow> http_request \<Rightarrow> http_outcome) \<Rightarrow> u8 list \<Rightarrow> string \<Rightarrow>
     string \<Rightarrow> (otel_error, unit) res \<times> u64 list" where
  "send_traces_with_retry checks expand c answers body content_type endpoint =
     post_loop checks (xc_max_retries c) (post_request expand c endpoint body content_type) answers 0
       (xc_retry_delay_ms c)"

section \<open>JSON payloads\<close>

text \<open>
  \<open>xo_display\<close> and \<open>xo_to_string\<close> are the display and \<^verbatim>\<open>to_string\<close> of a JSON value, \<open>xo_nanos\<close>
  is chrono's \<^verbatim>\<open>timestamp_nanos_opt\<close>, \<open>xo_f64_of\<close> the conversion of an integer to a float,
  \<open>xo_json_f64\<close> the JSON value of a float.
\<close>

record export_ops =
  xo_display :: "json \<Rightarrow> string"
  xo_to_string :: "json \<Rightarrow> (string, string) res"
  xo_nanos :: "datetime \<Rightarrow> int option"
  xo_f64_of :: "int \<Rightarrow> f64"
  xo_json_f64 :: "f64 \<Rightarrow> json"

fun to_otlp_value :: "export_ops \<Rightarrow> json \<Rightarrow> json" where
  "to_otlp_value P (JString s) = JObject [(''stringValue'', JString s)]"
| "to_otlp_value P (JInt n) =
     (if i64_range n then JObject [(''intValue'', JString (show_int n))]
      else JObject [(''doubleValue'', xo_json_f64 P (xo_f64_of P n))])"
| "to_otlp_value P (JFloat w) = JObject [(''doubleValue'', xo_json_f64 P w)]"
| "to_otlp_value P (JBool b) = JObject [(''boolValue'', JBool b)]"
| "to_otlp_value P v = JObject [(''stringValue'', JString (xo_display P v))]"

definition to_otlp_attributes :: "export_ops \<Rightarrow> (string, json) iter \<Rightarrow> attrs \<Rightarrow> json" where
  "to_otlp_attributes P ord a =
     JArray (map (\<lambda>(k, v). JObject [(''key'', JString k), (''value'', to_otlp_value P v)]) (ord a))"

definition unix_nano_text :: "export_ops \<Rightarrow> datetime \<Rightarrow> json" where
  "unix_nano_text P t =
     JString (show_nat (unat (word_of_int (case xo_nanos P t of Some n \<Rightarrow> n | None \<Rightarrow> 0) :: u64)))"

definition scope_or_default :: "string \<Rightarrow> string" where
  "scope_or_default scope_name = (if scope_name = [] then ''tc-otel'' else scope_name)"

definition otlp_log_record :: "export_ops \<Rightarrow> (string, json) iter \<Rightarrow> log_record \<Rightarrow> json" where
  "otlp_log_record P ord r =
     JObject ([(''timeUnixNano'', unix_nano_text P (lr_timestamp r)),
       (''body'', JObject [(''stringValue'', JString (case lr_body r of JString s \<Rightarrow> s | _ \<Rightarrow> []))]),
       (''severityNumber'', JInt (lr_severity_number r)),
       (''severityText'', JString (lr_severity_text r)),
       (''attributes'', to_otlp_attributes P ord (lr_log_attributes r))] @
      (if lr_trace_id r \<noteq> [] then [(''traceId'', JString (lr_trace_id r))] else []) @
      (if lr_span_id r \<noteq> [] then [(''spanId'', JString (lr_span_id r))] else []))"

definition serialized :: "export_ops \<Rightarrow> string \<Rightarrow> json \<Rightarrow> (otel_error, string) res" where
  "serialized P what payload =
     (case xo_to_string P payload of
        Ok s \<Rightarrow> Ok s
      | Err e \<Rightarrow> Err (SerializationError (''Failed to serialize OTEL '' @ what @ ''payload: '' @ e))
      | Panic \<Rightarrow> Panic)"

definition build_otel_payload ::
    "export_ops \<Rightarrow> (string, json) iter \<Rightarrow> log_record list \<Rightarrow> (otel_error, string) res" where
  "build_otel_payload P ord records =
     serialized P '''' (JObject [(''resourceLogs'', JArray (map (\<lambda>r.
       JObject [(''resource'', JObject [(''attributes'', to_otlp_attributes P ord (lr_resource_attributes r))]),
         (''scopeLogs'', JArray [JObject [
            (''scope'', JObject [(''name'', JString (scope_or_default (lr_scope_name r))),
               (''attributes'', to_otlp_attributes P ord (lr_scope_attributes r))]),
            (''logRecords'', JArray [otlp_log_record P ord r])]])]) records))])"

definition build_metric_data_point :: "export_ops \<Rightarrow> (string, json) iter \<Rightarrow> metric_record \<Rightarrow> json" where
  "build_metric_data_point P ord r =
     JObject ([(''timeUnixNano'', unix_nano_text P (mr_timestamp r)),
       (''asDouble'', xo_json_f64 P (mr_value r)),
       (''attributes'', to_otlp_attributes P ord (mr_attributes r))] @
      (if mr_trace_id r \<noteq> [] \<or> mr_span_id r \<noteq> [] then
         [(''exemplars'', JArray [JObject [(''timeUnixNano'', unix_nano_text P (mr_timestamp r)),
            (''asDouble'', xo_json_f64 P (mr_value r)), (''traceId'', JString (mr_trace_id r)),
            (''spanId'', JString (mr_span_id r))]])]
       else []))"

definition otlp_metric :: "export_ops \<Rightarrow> (string, json) iter \<Rightarrow> metric_record \<Rightarrow> json" where
  "otlp_metric P ord r =
     JObject ([(''name'', JString (mr_name r)), (''description'', JString (mr_description r)), (''unit'', JString (mr_unit r))] @
      (case mr_kind r of
         Gauge \<Rightarrow> [(''gauge'', JObject [(''dataPoints'', JArray [build_metric_data_point P ord r])])]
       | Sum \<Rightarrow> [(''sum'', JObject [(''dataPoints'', JArray [build_metric_data_point P ord r]),
                    (''aggregationTemporality'', JInt 2), (''isMonotonic'', JBool (mr_is_monotonic r))])]
       | Histogram \<Rightarrow>
           [(''histogram'', JObject [(''dataPoints'', JArray [JObject [
               (''timeUnixNano'', unix_nano_text P (mr_timestamp r)),
               (''attributes'', to_otlp_attributes P ord (mr_attributes r)),
               (''count'', JString (show_nat (unat (mr_histogram_count r)))),
               (''sum'', xo_json_f64 P (mr_histogram_sum r)),
               (''bucketCounts'', JArray (map (\<lambda>c. JString (show_nat (unat c))) (mr_histogram_counts r))),
               (''explicitBounds'', JArray (map (xo_json_f64 P) (mr_histogram_bounds r)))]]),
             (''aggregationTemporality'', JInt 2)])]))"

definition build_otel_metrics_payload ::
    "export_ops \<Rightarrow> (string, json) iter \<Rightarrow> metric_record list \<Rightarrow> (otel_error, string) res" where
  "build_otel_metrics_payload P ord records =
     serialized P ''metrics '' (JObject [(''resourceMetrics'', JArray (map (\<lambda>r.
       JObject [(''resource'', JObject [(''attributes'', to_otlp_attributes P ord (mr_resource_attributes r))]),
         (''scopeMetrics'', JArray [JObject [
            (''scope'', JObject [(''name'', JString (scope_or_default (mr_scope_name r)))]),
            (''metrics'', JArray [otlp_metric P ord r])]])]) records))])"

definition otlp_event :: "export_ops \<Rightarrow> (string, json) iter \<Rightarrow> trace_event_record \<Rightarrow> json" where
  "otlp_event P ord ev =
     JObject [(''timeUnixNano'', unix_nano_text P (tev_timestamp ev)), (''name'', JString (tev_name ev)),
       (''attributes'', to_otlp_attributes P ord (tev_attributes ev))]"

definition otlp_span :: "export_ops \<Rightarrow> (string, json) iter \<Rightarrow> trace_record \<Rightarrow> json" where
  "otlp_span P ord r =
     JObject [(''traceId'', JString (tr_trace_id r)), (''spanId'', JString (tr_span_id r)),
       (''parentSpanId'', JString (tr_parent_span_id r)), (''name'', JString (tr_name r)),
       (''kind'', JInt (tr_kind r)), (''startTimeUnixNano'', unix_nano_text P (tr_start_time r)),
       (''endTimeUnixNano'', unix_nano_text P (tr_end_time r)),
       (''attributes'', to_otlp_attributes P ord (tr_span_attributes r)),
       (''status'', JObject [(''code'', JInt (tr_status_code r)), (''message'', JString (tr_status_message r))]),
       (''events'', JArray (map (otlp_event P ord) (tr_events r)))]"

definition build_otel_traces_payload ::
    "export_ops \<Rightarrow> (string, json) iter \<Rightarrow> trace_record list \<Rightarrow> (otel_error, string) res" where
  "build_otel_traces_payload P ord records =
     serialized P ''traces '' (JObject [(''resourceSpans'', JArray (map (\<lambda>r.
       JObject [(''resource'', JObject [(''attributes'', to_otlp_attributes P ord (tr_resource_attributes r))]),
         (''scopeSpans'', JArray [JObject [
            (''scope'', JObject [(''name'', JString (scope_or_default (tr_scope_name r))),
               (''attributes'', to_otlp_attributes P ord (tr_scope_attributes r))]),
            (''spans'', JArray [otlp_span P ord r])]])]) records))])"

section \<open>Sending ends, with the retries the policy allows\<close>

text \<open>
  What a sending promises: it makes at most \<open>max_retries\<close> retries and its result is that of the last
  attempt. Every attempt before failed with an error that may be retried; a retryable error is returned
  only when the retries are used up. The first delay is the configured one, the others double up to
  five seconds.
\<close>

definition retry_policy ::
    "nat \<Rightarrow> u64 \<Rightarrow> (nat \<Rightarrow> (otel_error, unit) res) \<Rightarrow> (otel_error, unit) res \<times> u64 list \<Rightarrow> bool" where
  "retry_policy max_retries delay attempt out =
     (case out of (r, delays) \<Rightarrow>
        length delays \<le> max_retries \<and> r = attempt (length delays) \<and>
        (\<forall>i<length delays. \<exists>e. attempt i = Err e \<and> is_retryable_error e) \<and>
        (\<forall>e. r = Err e \<longrightarrow> is_retryable_error e \<longrightarrow> length delays = max_retries) \<and>
        (delays \<noteq> [] \<longrightarrow> hd delays = delay) \<and> (\<forall>d\<in>set (tl delays). d \<le> 5000))"

lemma retry_policy_last:
  "(\<And>e. attempt 0 = Err e \<Longrightarrow> is_retryable_error e \<Longrightarrow> max_retries = 0) \<Longrightarrow>
   retry_policy max_retries delay attempt (attempt 0, [])"
  by (auto simp: retry_policy_def)

lemma retry_policy_again:
  assumes "attempt 0 = Err e" "is_retryable_error e" "retry_policy n d' (\<lambda>i. attempt (Suc i)) (r, ds)" "d' \<le> 5000"
  shows "retry_policy (Suc n) delay attempt (r, delay # ds)"
proof -
  have "\<forall>i<Suc (length ds). \<exists>e. attempt i = Err e \<and> is_retryable_error e"
    using assms by (auto simp: retry_policy_def less_Suc_eq_0_disj)
  moreover have "\<forall>d\<in>set ds. d \<le> 5000"
    using assms(3,4) by (cases ds) (auto simp: retry_policy_def)
  ultimately show ?thesis using assms(3) by (auto simp: retry_policy_def)
qed

lemma next_delay_capped: "delay \<le> 2 ^ 63 - 1 \<or> \<not> checks \<Longrightarrow> \<exists>d'. next_delay checks delay = Ok d' \<and> d' \<le> 5000"
proof -
  have "unat delay * 2 < 2 ^ 64" if "delay \<le> 2 ^ 63 - 1"
    using that by (simp add: word_le_nat_alt)
  then show "delay \<le> 2 ^ 63 - 1 \<or> \<not> checks \<Longrightarrow> ?thesis" by (auto simp: next_delay_def)
qed

lemma retry_loop_policy:
  assumes "delay \<le> 2 ^ 63 - 1 \<or> \<not> checks" and "retry_count \<le> max_retries"
  shows "retry_policy (max_retries - retry_count) delay (\<lambda>i. attempt (retry_count + i))
    (retry_loop checks max_retries attempt retry_count delay)"
  using assms
proof (induction checks max_retries attempt retry_count delay rule: retry_loop.induct)
  case (1 checks max_retries attempt retry_count delay)
  show ?case
  proof (cases "\<exists>e. attempt retry_count = Err e \<and> is_retryable_error e \<and> retry_count < max_retries")
    case True
    then obtain e where e: "attempt retry_count = Err e" "is_retryable_error e" and lt: "retry_count < max_retries"
      by blast
    obtain d' where d': "next_delay checks delay = Ok d'" "d' \<le> 5000" using next_delay_capped 1(2) by blast
    obtain r ds where rest: "retry_loop checks max_retries attempt (retry_count + 1) d' = (r, ds)" by force
    have "d' \<le> 2 ^ 63 - 1" using d'(2) by (rule order_trans) simp
    then have "retry_policy (max_retries - (retry_count + 1)) d' (\<lambda>i. attempt (retry_count + 1 + i)) (r, ds)"
      using 1(1) [OF e(1)] e(2) lt d'(1) rest by simp
    then have "retry_policy (Suc (max_retries - (retry_count + 1))) delay (\<lambda>i. attempt (retry_count + i)) (r, delay # ds)"
      using e d'(2) by (intro retry_policy_again) simp_all
    moreover have "Suc (max_retries - (retry_count + 1)) = max_retries - retry_count" using lt by simp
    ultimately show ?thesis using e lt d'(1) rest by (subst retry_loop.simps) simp
  next
    case False
    then have "retry_loop checks max_retries attempt retry_count delay = (attempt retry_count, [])"
      by (subst retry_loop.simps) (auto split: res.splits)
    then show ?thesis
      using False 1(3) retry_policy_last [of "\<lambda>i. attempt (retry_count + i)"] by force
  qed
qed

text \<open>The loop of metrics and traces is the loop of the logs, written out.\<close>

lemma post_loop_retry_loop:
  "post_loop checks max_retries request answers retry_count delay =
   retry_loop checks max_retries (\<lambda>i. outcome_result (rq_url request) (answers i request)) retry_count delay"
proof (induction checks max_retries request answers retry_count delay rule: post_loop.induct)
  case (1 checks max_retries request answers retry_count delay)
  show ?case
    using 1
    by (subst post_loop.simps, subst retry_loop.simps, unfold Let_def, cases "answers retry_count request")
       (auto split: res.splits)
qed



end
