(* ===== verification/Proto.thy ===== *)
theory Proto
  imports Export "HOL-Library.Multiset" "HOL-Library.List_Lexorder" "HOL-Library.Char_ord"
begin

text \<open>
  The protobuf form of the exported batches: \<^verbatim>\<open>tc-otel-export/src/proto_common.rs\<close>,
  \<^verbatim>\<open>logs_proto.rs\<close>, \<^verbatim>\<open>metrics_proto.rs\<close> and \<^verbatim>\<open>traces_proto.rs\<close>. The messages of the
  OpenTelemetry protocol are records here, with the fields the code fills in (the others have their
  default value); their encoding to bytes belongs to another crate. Records are grouped by resource
  and within a resource by scope. The interface \<open>stable_grouping\<close> states what a grouping promises; its
  lemmas show that every record of a batch is exported exactly once, under its own resource and scope.
\<close>

section \<open>Identifiers and values\<close>

text \<open>\<^verbatim>\<open>u8::from_str_radix(pair, 16)\<close> on two characters: a sign before one digit is accepted.\<close>

definition hex_pair :: "string \<Rightarrow> u8 option" where
  "hex_pair pair =
     (case pair of
        [a, b] \<Rightarrow>
          (if a = CHR ''+'' then map_option of_nat (hex_val b)
           else case (hex_val a, hex_val b) of (Some x, Some y) \<Rightarrow> Some (of_nat (16 * x + y)) | _ \<Rightarrow> None)
      | _ \<Rightarrow> None)"

fun hex_bytes_from :: "string \<Rightarrow> nat \<Rightarrow> nat \<Rightarrow> u8 list \<Rightarrow> (unit, u8 list) res" where
  "hex_bytes_from s i 0 out = Ok out"
| "hex_bytes_from s i (Suc n) out =
     bind_res (str_slice (i * 2) (i * 2 + 2) s) (\<lambda>pair.
       case hex_pair pair of
         Some b \<Rightarrow> hex_bytes_from s (i + 1) n (out @ [b])
       | None \<Rightarrow> Ok [])"

definition decode_fixed_hex :: "string \<Rightarrow> nat \<Rightarrow> (unit, u8 list) res" where
  "decode_fixed_hex s expected_bytes =
     (if s = [] \<or> length s \<noteq> expected_bytes * 2 then Ok [] else hex_bytes_from s 0 expected_bytes [])"

definition decode_trace_id_hex :: "string \<Rightarrow> (unit, u8 list) res" where
  "decode_trace_id_hex s = decode_fixed_hex s 16"

definition decode_span_id_hex :: "string \<Rightarrow> (unit, u8 list) res" where
  "decode_span_id_hex s = decode_fixed_hex s 8"

datatype any_value =
    StringValue string
  | BoolValue bool
  | IntValue int
  | DoubleValue f64
  | ArrayValue "any_value list"
  | KvlistValue "(string \<times> any_value) list"

lemma map_filter_cong [fundef_cong]:
  "xs = ys \<Longrightarrow> (\<And>x. x \<in> set ys \<Longrightarrow> f x = g x) \<Longrightarrow> List.map_filter f xs = List.map_filter g ys"
  by (induction ys arbitrary: xs) (auto simp: List.map_filter_def)

definition as_i64 :: "int \<Rightarrow> int" where
  "as_i64 n = sint (word_of_int n :: u64)"

fun json_to_any_value :: "export_ops \<Rightarrow> json \<Rightarrow> any_value option" where
  "json_to_any_value P JNull = None"
| "json_to_any_value P (JBool b) = Some (BoolValue b)"
| "json_to_any_value P (JString s) = Some (StringValue s)"
| "json_to_any_value P (JInt n) =
     Some (if i64_range n then IntValue n
           else if 0 \<le> n \<and> n < 2 ^ 64 then IntValue (as_i64 n)
           else DoubleValue (xo_f64_of P n))"
| "json_to_any_value P (JFloat w) = Some (DoubleValue w)"
| "json_to_any_value P (JArray items) = Some (ArrayValue (List.map_filter (json_to_any_value P) items))"
| "json_to_any_value P (JObject kvs) =
     Some (KvlistValue (List.map_filter (\<lambda>(k, v). map_option (\<lambda>av. (k, av)) (json_to_any_value P v)) kvs))"

definition build_attributes :: "export_ops \<Rightarrow> (string, json) iter \<Rightarrow> attrs \<Rightarrow> (string \<times> any_value) list" where
  "build_attributes P ord a =
     List.map_filter (\<lambda>(k, v). map_option (\<lambda>av. (k, av)) (json_to_any_value P v)) (ord a)"

definition datetime_to_unix_nano :: "export_ops \<Rightarrow> datetime \<Rightarrow> u64" where
  "datetime_to_unix_nano P t = word_of_int (max (case xo_nanos P t of Some n \<Rightarrow> n | None \<Rightarrow> 0) 0)"

section \<open>Grouping\<close>

definition fingerprint_field :: "export_ops \<Rightarrow> string \<times> json \<Rightarrow> string" where
  "fingerprint_field P = (\<lambda>(k, v). k @ ''='' @
     (case xo_to_string P v of Ok s \<Rightarrow> s | _ \<Rightarrow> ''<unserialisable>'') @ [CHR 0x1F])"

definition resource_fingerprint :: "export_ops \<Rightarrow> attrs \<Rightarrow> string" where
  "resource_fingerprint P a = concat (map (fingerprint_field P) (sort_key fst a))"

text \<open>
  Adding a record to the bucket of its key, a new bucket at the end; the ordered map of the resource
  grouping is this list sorted by key.
\<close>

fun push_bucket :: "'k \<Rightarrow> 'r \<Rightarrow> ('k \<times> 'r list) list \<Rightarrow> ('k \<times> 'r list) list" where
  "push_bucket k r [] = [(k, [r])]"
| "push_bucket k r ((k', b) # bs) = (if k' = k then (k', b @ [r]) # bs else (k', b) # push_bucket k r bs)"

definition buckets_of :: "('r \<Rightarrow> 'k) \<Rightarrow> 'r list \<Rightarrow> ('k \<times> 'r list) list" where
  "buckets_of key records = fold (\<lambda>r. push_bucket (key r) r) records []"

definition resource_buckets :: "('r \<Rightarrow> string) \<Rightarrow> 'r list \<Rightarrow> (string \<times> 'r list) list" where
  "resource_buckets fp records = sort_key fst (buckets_of fp records)"

text \<open>The resource of a bucket is that of the record which created it, its first one.\<close>

definition group_records_by_resource ::
    "export_ops \<Rightarrow> ('r \<Rightarrow> attrs) \<Rightarrow> 'r list \<Rightarrow> (attrs \<times> 'r list) list" where
  "group_records_by_resource P resource_of records =
     map (\<lambda>(fp, b). (resource_of (hd b), b)) (resource_buckets (\<lambda>r. resource_fingerprint P (resource_of r)) records)"

definition group_records_by_scope :: "trace_record list \<Rightarrow> (string \<times> trace_record list) list" where
  "group_records_by_scope records = buckets_of tr_scope_name records"

section \<open>Messages\<close>

record instrumentation_scope =
  is_name :: string
  is_version :: string
  is_attributes :: "(string \<times> any_value) list"

type_synonym resource = "(string \<times> any_value) list"

definition build_resource :: "export_ops \<Rightarrow> (string, json) iter \<Rightarrow> attrs \<Rightarrow> resource" where
  "build_resource P ord a = build_attributes P ord a"

record proto_log_record =
  pl_time_unix_nano :: u64
  pl_observed_time_unix_nano :: u64
  pl_severity_number :: int
  pl_severity_text :: string
  pl_body :: "any_value option"
  pl_attributes :: "(string \<times> any_value) list"
  pl_trace_id :: "u8 list"
  pl_span_id :: "u8 list"

record 'm scope_block =
  sb_scope :: instrumentation_scope
  sb_items :: "'m list"

record 'm resource_block =
  rb_resource :: resource
  rb_scopes :: "'m scope_block list"

fun body_value :: "export_ops \<Rightarrow> json \<Rightarrow> any_value option" where
  "body_value P (JString s) = Some (StringValue s)"
| "body_value P JNull = None"
| "body_value P v = Some (StringValue (xo_display P v))"

definition build_log_record ::
    "export_ops \<Rightarrow> (string, json) iter \<Rightarrow> log_record \<Rightarrow> (unit, proto_log_record) res" where
  "build_log_record P ord r =
     bind_res (decode_trace_id_hex (lr_trace_id r)) (\<lambda>trace_id.
     bind_res (decode_span_id_hex (lr_span_id r)) (\<lambda>span_id.
       Ok \<lparr>pl_time_unix_nano = datetime_to_unix_nano P (lr_timestamp r),
           pl_observed_time_unix_nano = datetime_to_unix_nano P (lr_timestamp r),
           pl_severity_number = lr_severity_number r, pl_severity_text = lr_severity_text r,
           pl_body = body_value P (lr_body r),
           pl_attributes = build_attributes P ord (lr_log_attributes r),
           pl_trace_id = trace_id, pl_span_id = span_id\<rparr>))"

text \<open>The results of a fallible function on every element, in order; the first panic ends it.\<close>

fun map_all :: "('a \<Rightarrow> ('e, 'b) res) \<Rightarrow> 'a list \<Rightarrow> ('e, 'b list) res" where
  "map_all f [] = Ok []"
| "map_all f (x # xs) = bind_res (f x) (\<lambda>y. bind_res (map_all f xs) (\<lambda>ys. Ok (y # ys)))"

text \<open>\<open>version\<close> is the version of the crate.\<close>

definition log_scope_block ::
    "export_ops \<Rightarrow> (string, json) iter \<Rightarrow> string \<Rightarrow> string \<times> log_record list \<Rightarrow>
     (unit, proto_log_record scope_block) res" where
  "log_scope_block P ord version = (\<lambda>(scope_name, bucket).
     bind_res (map_all (build_log_record P ord) bucket) (\<lambda>items.
       Ok \<lparr>sb_scope = \<lparr>is_name = scope_name, is_version = version,
              is_attributes = build_attributes P ord (lr_scope_attributes (hd bucket))\<rparr>,
           sb_items = items\<rparr>))"

definition build_logs_request ::
    "export_ops \<Rightarrow> (string, json) iter \<Rightarrow> string \<Rightarrow> log_record list \<Rightarrow>
     (unit, proto_log_record resource_block list) res" where
  "build_logs_request P ord version records =
     map_all (\<lambda>(resource_attrs, resource_bucket).
       bind_res (map_all (log_scope_block P ord version)
           (buckets_of (\<lambda>r. scope_or_default (lr_scope_name r)) resource_bucket)) (\<lambda>scopes.
         Ok \<lparr>rb_resource = build_resource P ord resource_attrs, rb_scopes = scopes\<rparr>))
       (group_records_by_resource P lr_resource_attributes records)"

record exemplar =
  ep_time_unix_nano :: u64
  ep_span_id :: "u8 list"
  ep_trace_id :: "u8 list"
  ep_value :: f64

record number_data_point =
  nd_attributes :: "(string \<times> any_value) list"
  nd_time_unix_nano :: u64
  nd_exemplars :: "exemplar list"
  nd_value :: f64

record histogram_data_point =
  hp_attributes :: "(string \<times> any_value) list"
  hp_time_unix_nano :: u64
  hp_count :: u64
  hp_sum :: f64
  hp_bucket_counts :: "u64 list"
  hp_explicit_bounds :: "f64 list"
  hp_exemplars :: "exemplar list"

datatype metric_data =
    GaugeData number_data_point
  | SumData number_data_point int bool
  | HistogramData histogram_data_point int

record proto_metric =
  pm_name :: string
  pm_description :: string
  pm_unit :: string
  pm_data :: metric_data

definition build_exemplars :: "metric_record \<Rightarrow> u64 \<Rightarrow> (unit, exemplar list) res" where
  "build_exemplars r ts =
     (if mr_trace_id r = [] \<and> mr_span_id r = [] then Ok []
      else
        bind_res (decode_trace_id_hex (mr_trace_id r)) (\<lambda>trace_id.
        bind_res (decode_span_id_hex (mr_span_id r)) (\<lambda>span_id.
          if trace_id = [] \<and> span_id = [] then Ok []
          else Ok [\<lparr>ep_time_unix_nano = ts, ep_span_id = span_id, ep_trace_id = trace_id, ep_value = mr_value r\<rparr>])))"

definition build_number_data_point ::
    "export_ops \<Rightarrow> (string, json) iter \<Rightarrow> metric_record \<Rightarrow> (unit, number_data_point) res" where
  "build_number_data_point P ord r =
     (let ts = datetime_to_unix_nano P (mr_timestamp r) in
      bind_res (build_exemplars r ts) (\<lambda>exemplars.
        Ok \<lparr>nd_attributes = build_attributes P ord (mr_attributes r), nd_time_unix_nano = ts,
            nd_exemplars = exemplars, nd_value = mr_value r\<rparr>))"

definition build_histogram_data_point ::
    "export_ops \<Rightarrow> (string, json) iter \<Rightarrow> metric_record \<Rightarrow> (unit, histogram_data_point) res" where
  "build_histogram_data_point P ord r =
     (let ts = datetime_to_unix_nano P (mr_timestamp r) in
      bind_res (build_exemplars r ts) (\<lambda>exemplars.
        Ok \<lparr>hp_attributes = build_attributes P ord (mr_attributes r), hp_time_unix_nano = ts,
            hp_count = mr_histogram_count r, hp_sum = mr_histogram_sum r,
            hp_bucket_counts = mr_histogram_counts r, hp_explicit_bounds = mr_histogram_bounds r,
            hp_exemplars = exemplars\<rparr>))"

text \<open>\<open>AggregationTemporality::Cumulative\<close> is 2; debug builds check the lengths of a histogram.\<close>

definition build_metric ::
    "bool \<Rightarrow> export_ops \<Rightarrow> (string, json) iter \<Rightarrow> metric_record \<Rightarrow> (unit, proto_metric) res" where
  "build_metric checks P ord r =
     bind_res
       (case mr_kind r of
          Gauge \<Rightarrow> bind_res (build_number_data_point P ord r) (\<lambda>dp. Ok (GaugeData dp))
        | Sum \<Rightarrow> bind_res (build_number_data_point P ord r) (\<lambda>dp. Ok (SumData dp 2 (mr_is_monotonic r)))
        | Histogram \<Rightarrow>
            if checks \<and> length (mr_histogram_counts r) \<noteq> length (mr_histogram_bounds r) + 1 then Panic
            else bind_res (build_histogram_data_point P ord r) (\<lambda>dp. Ok (HistogramData dp 2)))
       (\<lambda>data. Ok \<lparr>pm_name = mr_name r, pm_description = mr_description r, pm_unit = mr_unit r, pm_data = data\<rparr>)"

definition build_metrics_request ::
    "bool \<Rightarrow> export_ops \<Rightarrow> (string, json) iter \<Rightarrow> string \<Rightarrow> metric_record list \<Rightarrow>
     (unit, proto_metric resource_block list) res" where
  "build_metrics_request checks P ord version records =
     map_all (\<lambda>(resource_attrs, bucket).
       bind_res (map_all (\<lambda>(scope_name, scoped).
           bind_res (map_all (build_metric checks P ord) scoped) (\<lambda>items.
             Ok \<lparr>sb_scope = \<lparr>is_name = scope_name, is_version = version, is_attributes = []\<rparr>, sb_items = items\<rparr>))
           (buckets_of (\<lambda>r. scope_or_default (mr_scope_name r)) bucket)) (\<lambda>scopes.
         Ok \<lparr>rb_resource = build_resource P ord resource_attrs, rb_scopes = scopes\<rparr>))
       (group_records_by_resource P mr_resource_attributes records)"

record proto_event =
  pe_time_unix_nano :: u64
  pe_name :: string
  pe_attributes :: "(string \<times> any_value) list"

record proto_span =
  ps_trace_id :: "u8 list"
  ps_span_id :: "u8 list"
  ps_parent_span_id :: "u8 list"
  ps_name :: string
  ps_kind :: int
  ps_start_time_unix_nano :: u64
  ps_end_time_unix_nano :: u64
  ps_attributes :: "(string \<times> any_value) list"
  ps_events :: "proto_event list"
  ps_status_message :: string
  ps_status_code :: int

definition build_event :: "export_ops \<Rightarrow> (string, json) iter \<Rightarrow> trace_event_record \<Rightarrow> proto_event" where
  "build_event P ord ev =
     \<lparr>pe_time_unix_nano = datetime_to_unix_nano P (tev_timestamp ev), pe_name = tev_name ev,
      pe_attributes = build_attributes P ord (tev_attributes ev)\<rparr>"

definition build_span :: "export_ops \<Rightarrow> (string, json) iter \<Rightarrow> trace_record \<Rightarrow> (unit, proto_span) res" where
  "build_span P ord r =
     bind_res (decode_trace_id_hex (tr_trace_id r)) (\<lambda>trace_id.
     bind_res (decode_span_id_hex (tr_span_id r)) (\<lambda>span_id.
     bind_res (decode_span_id_hex (tr_parent_span_id r)) (\<lambda>parent_span_id.
       Ok \<lparr>ps_trace_id = trace_id, ps_span_id = span_id, ps_parent_span_id = parent_span_id,
           ps_name = tr_name r, ps_kind = tr_kind r,
           ps_start_time_unix_nano = datetime_to_unix_nano P (tr_start_time r),
           ps_end_time_unix_nano = datetime_to_unix_nano P (tr_end_time r),
           ps_attributes = build_attributes P ord (tr_span_attributes r),
           ps_events = map (build_event P ord) (tr_events r),
           ps_status_message = tr_status_message r, ps_status_code = tr_status_code r\<rparr>)))"

definition build_traces_request ::
    "export_ops \<Rightarrow> (string, json) iter \<Rightarrow> string \<Rightarrow> trace_record list \<Rightarrow>
     (unit, proto_span resource_block list) res" where
  "build_traces_request P ord version records =
     map_all (\<lambda>(resource_attrs, bucket).
       bind_res (map_all (\<lambda>(scope_name, scoped).
           bind_res (map_all (build_span P ord) scoped) (\<lambda>items.
             Ok \<lparr>sb_scope = \<lparr>is_name = scope_or_default scope_name, is_version = version, is_attributes = []\<rparr>,
                 sb_items = items\<rparr>))
           (group_records_by_scope bucket)) (\<lambda>scopes.
         Ok \<lparr>rb_resource = build_resource P ord resource_attrs, rb_scopes = scopes\<rparr>))
       (group_records_by_resource P tr_resource_attributes records)"

section \<open>Groupings lose and move nothing\<close>

text \<open>
  A stable grouping has one bucket per key that occurs, and the bucket of a key holds the records with
  that key in their order.
\<close>

locale stable_grouping =
  fixes group :: "('r \<Rightarrow> 'k) \<Rightarrow> 'r list \<Rightarrow> ('k \<times> 'r list) list"
  assumes distinct_keys: "distinct (map fst (group key rs))"
    and key_set: "fst ` set (group key rs) = key ` set rs"
    and bucket: "(k, b) \<in> set (group key rs) \<Longrightarrow> b = filter (\<lambda>r. key r = k) rs"
begin

lemma bucket_key: "(k, b) \<in> set (group key rs) \<Longrightarrow> r \<in> set b \<Longrightarrow> key r = k \<and> r \<in> set rs"
  using bucket by fastforce

lemma bucket_not_empty:
  assumes "(k, b) \<in> set (group key rs)"
  shows "b \<noteq> []"
proof -
  have "k \<in> key ` set rs" using assms key_set [of key rs] by force
  then show ?thesis using bucket [OF assms] by (auto simp: filter_empty_conv)
qed

lemma mset_grouped:
  "mset (concat (map (\<lambda>(k, b). map (f k) b) (group key rs))) = image_mset (\<lambda>r. f (key r) r) (mset rs)"
proof -
  have *: "mset (concat (map (\<lambda>(k, b). map (f k) b) gs)) =
      image_mset (\<lambda>r. f (key r) r) (filter_mset (\<lambda>r. key r \<in> fst ` set gs) (mset rs))"
    if "set gs \<subseteq> set (group key rs)" "distinct (map fst gs)" for gs
    using that
  proof (induction gs)
    case (Cons g gs)
    obtain k b where g: "g = (k, b)" by force
    have b: "b = filter (\<lambda>r. key r = k) rs" using Cons.prems bucket g by auto
    have k: "k \<notin> fst ` set gs" using Cons.prems g by force
    have "filter_mset (\<lambda>r. key r \<in> fst ` set (g # gs)) (mset rs) =
        mset b + filter_mset (\<lambda>r. key r \<in> fst ` set gs) (mset rs)"
      unfolding b g mset_filter using k by (auto simp: multiset_eq_iff)
    moreover have "mset (map (f k) b) = image_mset (\<lambda>r. f (key r) r) (mset b)"
      unfolding b by (induction rs) auto
    ultimately show ?case using Cons g by simp
  qed simp
  have "filter_mset (\<lambda>r. key r \<in> fst ` set (group key rs)) (mset rs) = mset rs"
    using key_set by (auto simp: filter_mset_eq_conv)
  then show ?thesis using * [of "group key rs"] distinct_keys by simp
qed

end

lemma push_bucket_keys:
  "map fst (push_bucket k r bs) = (if k \<in> fst ` set bs then map fst bs else map fst bs @ [k])"
  by (induction bs) (auto simp: rev_image_eqI)

lemma push_bucket_distinct [intro]: "distinct (map fst bs) \<Longrightarrow> distinct (map fst (push_bucket k r bs))"
  by (auto simp: push_bucket_keys)

lemma push_bucket_mem:
  "distinct (map fst bs) \<Longrightarrow> (k', b) \<in> set (push_bucket k r bs) \<Longrightarrow>
   (k' \<noteq> k \<and> (k', b) \<in> set bs) \<or>
   (k' = k \<and> ((\<exists>b'. (k, b') \<in> set bs \<and> b = b' @ [r]) \<or> (k \<notin> fst ` set bs \<and> b = [r])))"
  by (induction bs) (force split: if_splits)+

lemma buckets_of_snoc: "buckets_of key (rs @ [r]) = push_bucket (key r) r (buckets_of key rs)"
  by (simp add: buckets_of_def)

lemma buckets_of_distinct [simp]: "distinct (map fst (buckets_of key rs))"
  by (induction rs rule: rev_induct) (auto simp: buckets_of_snoc, simp add: buckets_of_def)

lemma buckets_of_keys [simp]: "fst ` set (buckets_of key rs) = key ` set rs"
proof (induction rs rule: rev_induct)
  case (snoc r rs)
  have "set (map fst (buckets_of key (rs @ [r]))) = insert (key r) (fst ` set (buckets_of key rs))"
    unfolding buckets_of_snoc push_bucket_keys by auto
  then show ?case using snoc by simp
qed (simp add: buckets_of_def)

lemma buckets_of_bucket: "(k, b) \<in> set (buckets_of key rs) \<Longrightarrow> b = filter (\<lambda>r. key r = k) rs"
proof (induction rs arbitrary: b rule: rev_induct)
  case (snoc r rs)
  from push_bucket_mem [OF buckets_of_distinct snoc.prems [unfolded buckets_of_snoc]]
  show ?case using snoc.IH by (auto simp: filter_empty_conv rev_image_eqI)
qed (simp add: buckets_of_def)

interpretation first_seen: stable_grouping buckets_of
  by unfold_locales (auto dest: buckets_of_bucket)

interpretation by_fingerprint: stable_grouping resource_buckets
proof
  fix key :: "'a \<Rightarrow> string" and rs k b
  show "distinct (map fst (resource_buckets key rs))"
    unfolding resource_buckets_def
    by (metis buckets_of_distinct mset_map mset_sort mset_eq_imp_distinct_iff)
  show "fst ` set (resource_buckets key rs) = key ` set rs" by (simp add: resource_buckets_def)
  show "(k, b) \<in> set (resource_buckets key rs) \<Longrightarrow> b = filter (\<lambda>r. key r = k) rs"
    by (simp add: resource_buckets_def buckets_of_bucket)
qed

lemma map_all_Ok: "(\<And>x. x \<in> set xs \<Longrightarrow> f x = Ok (g x)) \<Longrightarrow> map_all f xs = Ok (map g xs)"
  by (induction xs) auto

section \<open>Fingerprints\<close>

lemma append_separator:
  "x \<notin> set a \<Longrightarrow> x \<notin> set b \<Longrightarrow> a @ x # r = b @ x # s \<Longrightarrow> a = b \<and> r = s"
  by (induction a arbitrary: b) (auto simp: Cons_eq_append_conv)

text \<open>
  What separates the fields of a fingerprint: keys without the separators, and values whose JSON text
  tells them apart and has no control character.
\<close>

definition plain_key :: "string \<Rightarrow> bool" where
  "plain_key k = (CHR ''='' \<notin> set k \<and> CHR 0x1F \<notin> set k)"

definition json_text_of :: "export_ops \<Rightarrow> json set \<Rightarrow> bool" where
  "json_text_of P V =
     ((\<forall>v\<in>V. \<exists>s. xo_to_string P v = Ok s \<and> CHR 0x1F \<notin> set s) \<and> inj_on (xo_to_string P) V)"

lemma fingerprint_fields_inj:
  assumes "json_text_of P V"
  shows "(\<forall>(k, v)\<in>set xs. plain_key k \<and> v \<in> V) \<Longrightarrow> (\<forall>(k, v)\<in>set ys. plain_key k \<and> v \<in> V) \<Longrightarrow>
    concat (map (fingerprint_field P) xs) = concat (map (fingerprint_field P) ys) \<Longrightarrow> xs = ys"
proof (induction xs arbitrary: ys)
  case Nil
  then show ?case by (cases ys) (auto simp: fingerprint_field_def)
next
  case (Cons x xs)
  obtain k v where x: "x = (k, v)" by force
  from Cons.prems(3) obtain k' v' ys' where ys: "ys = (k', v') # ys'"
    by (cases ys) (auto simp: fingerprint_field_def split: prod.splits)
  have in_V: "v \<in> V" "v' \<in> V" using Cons.prems x ys by auto
  obtain s where s: "xo_to_string P v = Ok s" "CHR 0x1F \<notin> set s"
    using assms in_V by (auto simp: json_text_of_def)
  obtain s' where s': "xo_to_string P v' = Ok s'" "CHR 0x1F \<notin> set s'"
    using assms in_V by (auto simp: json_text_of_def)
  have eq: "k @ CHR ''='' # s @ CHR 0x1F # concat (map (fingerprint_field P) xs) =
      k' @ CHR ''='' # s' @ CHR 0x1F # concat (map (fingerprint_field P) ys')"
    using Cons.prems(3) x ys s s' by (simp add: fingerprint_field_def)
  have k: "k = k' \<and> s @ CHR 0x1F # concat (map (fingerprint_field P) xs) =
      s' @ CHR 0x1F # concat (map (fingerprint_field P) ys')"
    using append_separator [OF _ _ eq] Cons.prems x ys by (auto simp: plain_key_def)
  then have "s = s'" and rest: "concat (map (fingerprint_field P) xs) = concat (map (fingerprint_field P) ys')"
    using append_separator [OF s(2) s'(2)] by blast+
  then have "v = v'" using assms in_V s s' by (metis json_text_of_def inj_onD)
  then show ?case using Cons.IH [OF _ _ rest] Cons.prems k x ys by auto
qed

lemma resource_fingerprint_inj:
  assumes "json_text_of P V" and "\<forall>(k, v)\<in>set a. plain_key k \<and> v \<in> V" and "\<forall>(k, v)\<in>set b. plain_key k \<and> v \<in> V"
    and "resource_fingerprint P a = resource_fingerprint P b"
  shows "set a = set b"
  using fingerprint_fields_inj [OF assms(1), of "sort_key fst a" "sort_key fst b"] assms(2-)
  by (metis resource_fingerprint_def set_sort)

section \<open>Every record is exported once, where it belongs\<close>

text \<open>What a request says of each item: the attributes of its resource, the name of its scope, the item.\<close>

definition entries_of_block :: "'m resource_block \<Rightarrow> ((string \<times> any_value) set \<times> string \<times> 'm) list" where
  "entries_of_block b =
     concat (map (\<lambda>s. map (\<lambda>i. (set (rb_resource b), is_name (sb_scope s), i)) (sb_items s)) (rb_scopes b))"

definition request_entries :: "'m resource_block list \<Rightarrow> ((string \<times> any_value) set \<times> string \<times> 'm) list" where
  "request_entries blocks = concat (map entries_of_block blocks)"

definition resources_ok :: "export_ops \<Rightarrow> attrs list \<Rightarrow> bool" where
  "resources_ok P as =
     (json_text_of P (snd ` (\<Union>a\<in>set as. set a)) \<and> (\<forall>a\<in>set as. \<forall>(k, v)\<in>set a. plain_key k))"

lemma build_resource_set:
  "iteration ord \<Longrightarrow> set a = set b \<Longrightarrow> set (build_resource P ord a) = set (build_resource P ord b)"
  by (simp add: build_resource_def build_attributes_def List.map_filter_def iteration_set)

lemma resources_ok_inj:
  assumes "resources_ok P (map res rs)" and "r \<in> set rs" and "r' \<in> set rs"
    and "resource_fingerprint P (res r) = resource_fingerprint P (res r')"
  shows "set (res r) = set (res r')"
  using assms(1) unfolding resources_ok_def
  by (intro resource_fingerprint_inj [OF _ _ _ assms(4)]) (use assms(2,3) in \<open>force+\<close>)

definition grouped_blocks ::
    "export_ops \<Rightarrow> (string, json) iter \<Rightarrow> ('r \<Rightarrow> attrs) \<Rightarrow> ('r \<Rightarrow> string) \<Rightarrow>
     (string \<Rightarrow> 'r list \<Rightarrow> instrumentation_scope) \<Rightarrow> ('r \<Rightarrow> 'm) \<Rightarrow> 'r list \<Rightarrow> 'm resource_block list" where
  "grouped_blocks P ord res scope S g rs =
     map (\<lambda>(a, b). \<lparr>rb_resource = build_resource P ord a,
         rb_scopes = map (\<lambda>(n, sc). \<lparr>sb_scope = S n sc, sb_items = map g sc\<rparr>) (buckets_of scope b)\<rparr>)
       (group_records_by_resource P res rs)"

lemma grouped_entries:
  assumes ord: "iteration ord" and res: "resources_ok P (map res rs)" and S: "\<And>n sc. is_name (S n sc) = N n"
  shows "mset (request_entries (grouped_blocks P ord res scope S g rs)) =
    image_mset (\<lambda>r. (set (build_resource P ord (res r)), N (scope r), g r)) (mset rs)"
proof -
  let ?fp = "\<lambda>r. resource_fingerprint P (res r)"
  let ?F = "\<lambda>r. (set (build_resource P ord (res r)), N (scope r), g r)"
  let ?blk = "\<lambda>a b. \<lparr>rb_resource = build_resource P ord a,
      rb_scopes = map (\<lambda>(n, sc). \<lparr>sb_scope = S n sc, sb_items = map g sc\<rparr>) (buckets_of scope b)\<rparr>"
  have inner: "mset (entries_of_block (?blk (res (hd b)) b)) = mset (map ?F b)"
    if kb: "(k, b) \<in> set (resource_buckets ?fp rs)" for k b
  proof -
    let ?X = "set (build_resource P ord (res (hd b)))"
    have X: "?X = set (build_resource P ord (res r))" if "r \<in> set b" for r
    proof (rule build_resource_set [OF ord], rule resources_ok_inj [OF res])
      have hd: "hd b \<in> set b" using by_fingerprint.bucket_not_empty [OF kb] by simp
      show "hd b \<in> set rs" "r \<in> set rs" "?fp (hd b) = ?fp r"
        using by_fingerprint.bucket_key [OF kb] hd that by auto
    qed
    have "entries_of_block (?blk (res (hd b)) b) =
        concat (map (\<lambda>(n, sc). map (\<lambda>r. (?X, N n, g r)) sc) (buckets_of scope b))"
      by (simp add: entries_of_block_def S comp_def case_prod_unfold)
    then have "mset (entries_of_block (?blk (res (hd b)) b)) = image_mset (\<lambda>r. (?X, N (scope r), g r)) (mset b)"
      using first_seen.mset_grouped [of "\<lambda>n r. (?X, N n, g r)" scope b] by simp
    also have "\<dots> = image_mset ?F (mset b)" using X by (intro image_mset_cong) simp
    finally show ?thesis by simp
  qed
  have "mset (request_entries (grouped_blocks P ord res scope S g rs)) =
      mset (concat (map (\<lambda>(k, b). map ?F b) (resource_buckets ?fp rs)))"
    unfolding request_entries_def grouped_blocks_def group_records_by_resource_def mset_concat
    using inner by (auto intro!: arg_cong [where f = sum_list] simp: comp_def case_prod_unfold)
  then show ?thesis by (simp add: by_fingerprint.mset_grouped [of "\<lambda>k. ?F"])
qed

lemma group_member:
  assumes "(a, b) \<in> set (group_records_by_resource P res rs)" and "r \<in> set b"
  shows "r \<in> set rs"
proof -
  from assms(1) obtain k where "(k, b) \<in> set (resource_buckets (\<lambda>r. resource_fingerprint P (res r)) rs)"
    by (auto simp: group_records_by_resource_def)
  then show ?thesis using assms(2) by_fingerprint.bucket_key by metis
qed

lemma request_grouped:
  assumes items: "\<And>r. r \<in> set rs \<Longrightarrow> f r = Ok (g r)"
    and blk: "\<And>n sc. map_all f sc = Ok (map g sc) \<Longrightarrow> blk (n, sc) = Ok \<lparr>sb_scope = S n sc, sb_items = map g sc\<rparr>"
  shows "map_all (\<lambda>(a, b). bind_res (map_all blk (buckets_of scope b))
        (\<lambda>scopes. Ok \<lparr>rb_resource = build_resource P ord a, rb_scopes = scopes\<rparr>))
      (group_records_by_resource P res rs) = Ok (grouped_blocks P ord res scope S g rs)"
  unfolding grouped_blocks_def
proof (rule map_all_Ok)
  fix ab assume ab: "ab \<in> set (group_records_by_resource P res rs)"
  obtain a b where [simp]: "ab = (a, b)" by force
  have f: "f r = Ok (g r)" if "r \<in> set b" for r
    using group_member [of a b] ab that items by auto
  have "map_all f sc = Ok (map g sc)" if "(n, sc) \<in> set (buckets_of scope b)" for n sc
    using first_seen.bucket_key [OF that] f by (intro map_all_Ok) simp
  then have "map_all blk (buckets_of scope b) =
      Ok (map (\<lambda>(n, sc). \<lparr>sb_scope = S n sc, sb_items = map g sc\<rparr>) (buckets_of scope b))"
    using blk by (intro map_all_Ok) auto
  then show "(case ab of (a, b) \<Rightarrow> bind_res (map_all blk (buckets_of scope b))
        (\<lambda>scopes. Ok \<lparr>rb_resource = build_resource P ord a, rb_scopes = scopes\<rparr>)) =
      Ok (case ab of (a, b) \<Rightarrow> \<lparr>rb_resource = build_resource P ord a,
        rb_scopes = map (\<lambda>(n, sc). \<lparr>sb_scope = S n sc, sb_items = map g sc\<rparr>) (buckets_of scope b)\<rparr>)"
    by simp
qed

section \<open>Identifiers survive the hexadecimal form\<close>

lemma hex_digit_ascii: "n < 16 \<Longrightarrow> of_char (hex_digit n) < (128 :: nat) \<and> hex_digit n \<noteq> CHR ''+''"
proof -
  assume "n < 16"
  then have "n \<in> set [0..<16]" by simp
  then show ?thesis by (auto simp: upt_rec hex_digit_def char_of_eq_iff)
qed

lemma hex_halves: "unat b div 16 < 16" "unat b mod 16 < 16" for b :: u8
proof -
  have "unat b < 256" using unsigned_less [of b, where 'a = nat] by simp
  then show "unat b div 16 < 16" by linarith
qed simp

lemma hex_pair_show [simp]: "hex_pair (show_hex2 b) = Some b"
proof -
  have "(of_nat (16 * (unat b div 16) + unat b mod 16) :: u8) = b" by simp
  then show ?thesis
    using hex_halves [of b] hex_val_digit hex_digit_ascii by (simp add: hex_pair_def show_hex2_def)
qed

lemma hex_string_ascii: "i < length (hex_string bs) \<Longrightarrow> of_char (hex_string bs ! i) < (128 :: nat)"
proof -
  have "\<forall>c\<in>set (hex_string bs). of_char c < (128 :: nat)"
    by (induction bs) (use hex_halves hex_digit_ascii in \<open>auto simp: hex_string_def show_hex2_def\<close>)
  then show "i < length (hex_string bs) \<Longrightarrow> of_char (hex_string bs ! i) < (128 :: nat)" by simp
qed

lemma hex_string_pair: "i < length bs \<Longrightarrow> take 2 (drop (i * 2) (hex_string bs)) = show_hex2 (bs ! i)"
  by (induction bs arbitrary: i) (auto simp: hex_string_def show_hex2_def less_Suc_eq_0_disj)

lemma hex_string_slice:
  assumes "i < length bs"
  shows "str_slice (i * 2) (i * 2 + 2) (hex_string bs) = Ok (show_hex2 (bs ! i))"
proof -
  have "is_char_boundary (hex_string bs) j" if "j \<le> length (hex_string bs)" for j
    using that boundary_at_ascii [OF _ hex_string_ascii, of j bs] boundary_ends(2) le_neq_implies_less by metis
  then show ?thesis using assms hex_string_pair [OF assms] by (simp add: str_slice_Ok)
qed

lemma hex_bytes_from_string:
  "i + n = length bs \<Longrightarrow> hex_bytes_from (hex_string bs) i n out = Ok (out @ drop i bs)"
proof (induction n arbitrary: i out)
  case (Suc n)
  then have i: "i < length bs" by simp
  have "hex_bytes_from (hex_string bs) i (Suc n) out = hex_bytes_from (hex_string bs) (i + 1) n (out @ [bs ! i])"
    using i by (simp add: hex_string_slice [simplified])
  also have "\<dots> = Ok ((out @ [bs ! i]) @ drop (i + 1) bs)" using Suc by (intro Suc.IH) simp
  finally show ?case using Cons_nth_drop_Suc [OF i] by simp
qed simp

lemma hex_string_Nil_iff: "hex_string bs = [] \<longleftrightarrow> bs = []"
  using length_hex_string [of bs] by (cases bs) (auto simp: hex_string_def show_hex2_def)

lemma decode_hex_string: "decode_fixed_hex (hex_string bs) (length bs) = Ok bs"
  using hex_bytes_from_string [of 0 "length bs" bs "[]"]
  by (simp add: decode_fixed_hex_def hex_string_Nil_iff)

lemma decode_ids [simp]:
  "length t = 16 \<Longrightarrow> decode_trace_id_hex (hex_string t) = Ok t"
  "length s = 8 \<Longrightarrow> decode_span_id_hex (hex_string s) = Ok s"
  "decode_trace_id_hex [] = Ok []" "decode_span_id_hex [] = Ok []"
  using decode_hex_string [of t] decode_hex_string [of s]
  by (auto simp: decode_trace_id_hex_def decode_span_id_hex_def decode_fixed_hex_def)

section \<open>Spans and logs on the wire\<close>

lemma set_hm_insert: "set (hm_insert k v m) \<subseteq> insert (k, v) (set m)"
  unfolding hm_insert_def by (induction m) auto

definition plain_entries :: "attrs \<Rightarrow> bool" where
  "plain_entries m = (\<forall>(k, v)\<in>set m. plain_key k)"

lemma plain_entries_insert:
  "plain_entries m \<Longrightarrow> plain_key k \<Longrightarrow> plain_entries (hm_insert k v m)"
  using set_hm_insert [of k v m] by (fastforce simp: plain_entries_def)

lemma plain_entries_insert_when:
  "plain_entries m \<Longrightarrow> plain_key k \<Longrightarrow> plain_entries (insert_when c k v m)"
  by (simp add: insert_when_def plain_entries_insert)

lemma otel_resource_plain: "plain_entries (build_otel_resource p a h n port sport)"
proof -
  have "plain_entries []" by (simp add: plain_entries_def)
  then show ?thesis
    unfolding build_otel_resource_def Let_def
    by (intro plain_entries_insert_when)
       (auto split: option.splits intro!: plain_entries_insert_when plain_entries_insert
         simp: plain_key_def)
qed

text \<open>The values of the resource attributes of a batch.\<close>

definition resource_values :: "attrs list \<Rightarrow> json set" where
  "resource_values as = snd ` (\<Union>a\<in>set as. set a)"

lemma otel_resources_ok:
  assumes "json_text_of P (resource_values (map res rs))"
    and "\<And>r. r \<in> set rs \<Longrightarrow> plain_entries (res r)"
  shows "resources_ok P (map res rs)"
  using assms by (auto simp: resources_ok_def resource_values_def plain_entries_def)

text \<open>What the backend should get for a span and for a log entry.\<close>

definition span_message :: "export_ops \<Rightarrow> (string, json) iter \<Rightarrow> span_entry \<Rightarrow> proto_span" where
  "span_message P ord e =
     \<lparr>ps_trace_id = sp_trace_id e, ps_span_id = sp_span_id e, ps_parent_span_id = sp_parent_span_id e,
      ps_name = sp_name e, ps_kind = to_otel_kind (sp_kind e),
      ps_start_time_unix_nano = datetime_to_unix_nano P (sp_start_time e),
      ps_end_time_unix_nano = datetime_to_unix_nano P (sp_end_time e),
      ps_attributes = build_attributes P ord (tr_span_attributes (from_span_entry e)),
      ps_events = map (build_event P ord) (map from_span_event (sp_events e)),
      ps_status_message = sp_status_message e, ps_status_code = to_otel_status (sp_status_code e)\<rparr>"

definition log_message :: "export_ops \<Rightarrow> (string, json) iter \<Rightarrow> (nat, json) iter \<Rightarrow> log_entry \<Rightarrow> proto_log_record" where
  "log_message P ord ord_arg e =
     (let ctx = log_has_trace_context e in
      \<lparr>pl_time_unix_nano = datetime_to_unix_nano P (le_clock_timestamp e),
       pl_observed_time_unix_nano = datetime_to_unix_nano P (le_clock_timestamp e),
       pl_severity_number = to_otel_severity_number (le_level e),
       pl_severity_text = to_otel_severity_text (le_level e),
       pl_body = Some (StringValue (le_message e)),
       pl_attributes = build_attributes P ord (log_attributes_of ord ord_arg e),
       pl_trace_id = (if ctx then le_trace_id e else []), pl_span_id = (if ctx then le_span_id e else [])\<rparr>)"

lemma traces_request_grouped:
  assumes "\<And>r. r \<in> set rs \<Longrightarrow> build_span P ord r = Ok (g r)"
  shows "build_traces_request P ord v rs =
    Ok (grouped_blocks P ord tr_resource_attributes tr_scope_name
         (\<lambda>n sc. \<lparr>is_name = scope_or_default n, is_version = v, is_attributes = []\<rparr>) g rs)"
  unfolding build_traces_request_def group_records_by_scope_def
  by (rule request_grouped [OF assms]) simp_all

lemma logs_request_grouped:
  assumes "\<And>r. r \<in> set rs \<Longrightarrow> build_log_record P ord r = Ok (g r)"
  shows "build_logs_request P ord v rs =
    Ok (grouped_blocks P ord lr_resource_attributes (\<lambda>r. scope_or_default (lr_scope_name r))
         (\<lambda>n sc. \<lparr>is_name = n, is_version = v, is_attributes = build_attributes P ord (lr_scope_attributes (hd sc))\<rparr>) g rs)"
  unfolding build_logs_request_def
  by (rule request_grouped [OF assms]) (simp_all add: log_scope_block_def)

lemma metrics_request_grouped:
  assumes "\<And>r. r \<in> set rs \<Longrightarrow> build_metric checks P ord r = Ok (g r)"
  shows "build_metrics_request checks P ord v rs =
    Ok (grouped_blocks P ord mr_resource_attributes (\<lambda>r. scope_or_default (mr_scope_name r))
         (\<lambda>n sc. \<lparr>is_name = n, is_version = v, is_attributes = []\<rparr>) g rs)"
  unfolding build_metrics_request_def
  by (rule request_grouped [OF assms]) simp_all

lemma build_span_entry:
  "length (sp_trace_id e) = 16 \<Longrightarrow> length (sp_span_id e) = 8 \<Longrightarrow> length (sp_parent_span_id e) = 8 \<Longrightarrow>
   build_span P ord (from_span_entry e) = Ok (span_message P ord e)"
  by (simp add: build_span_def span_message_def from_span_entry_def)

lemma build_log_entry:
  "length (le_trace_id e) = 16 \<Longrightarrow> length (le_span_id e) = 8 \<Longrightarrow>
   build_log_record P ord (from_log_entry ord ord_arg e) = Ok (log_message P ord ord_arg e)"
  by (simp add: build_log_record_def log_message_def from_log_entry_def Let_def log_trace_id_hex_def
      log_span_id_hex_def split: prod.splits)

lemma request_entries_grouped:
  assumes "iteration ord" and "resources_ok P (map res (map conv es))" and "\<And>n sc. is_name (S n sc) = N n"
    and "\<And>e. e \<in> set es \<Longrightarrow> g (conv e) = m e"
  shows "mset (request_entries (grouped_blocks P ord res scope S g (map conv es))) =
    image_mset (\<lambda>e. (set (build_resource P ord (res (conv e))), N (scope (conv e)), m e)) (mset es)"
proof -
  have "image_mset (\<lambda>e. (set (build_resource P ord (res (conv e))), N (scope (conv e)), g (conv e))) (mset es) =
      image_mset (\<lambda>e. (set (build_resource P ord (res (conv e))), N (scope (conv e)), m e)) (mset es)"
    using assms(4) by (intro image_mset_cong) simp
  then show ?thesis
    using grouped_entries [where S = S and N = N and scope = scope and g = g, OF assms(1-3)] by (simp add: image_mset.compositionality comp_def)
qed


text \<open>
  C30. The same for logs: the protobuf request has every log record exactly once, under its own resource
  and the scope of its logger, with the message as its body and the trace context as raw bytes, or empty
  without one.
\<close>

theorem logs_exported_once:
  assumes "iteration ord"
    and "json_text_of P (resource_values (map (lr_resource_attributes \<circ> from_log_entry ord ord_arg) es))"
    and "\<forall>e\<in>set es. length (le_trace_id e) = 16 \<and> length (le_span_id e) = 8"
  shows "\<exists>blocks. build_logs_request P ord version (map (from_log_entry ord ord_arg) es) = Ok blocks \<and>
    mset (request_entries blocks) =
      image_mset (\<lambda>e. (set (build_resource P ord (build_otel_resource (le_project_name e) (le_app_name e)
          (le_hostname e) (le_ams_net_id e) (le_ams_app_port e) (le_ams_source_port e))),
        scope_or_default (le_logger e), log_message P ord ord_arg e)) (mset es)"
proof -
  let ?c = "from_log_entry ord ord_arg"
  let ?g = "\<lambda>r. (case build_log_record P ord r of Ok s \<Rightarrow> s)"
  let ?S = "\<lambda>n sc. \<lparr>is_name = n, is_version = version,
    is_attributes = build_attributes P ord (lr_scope_attributes (hd sc))\<rparr>"
  have c: "lr_resource_attributes (?c e) = build_otel_resource (le_project_name e) (le_app_name e)
          (le_hostname e) (le_ams_net_id e) (le_ams_app_port e) (le_ams_source_port e)"
      "lr_scope_name (?c e) = le_logger e" for e
    by (simp_all add: from_log_entry_def split: prod.splits)
  have g: "build_log_record P ord (?c e) = Ok (log_message P ord ord_arg e)" if "e \<in> set es" for e
    using assms(3) that by (intro build_log_entry) auto
  have res: "resources_ok P (map lr_resource_attributes (map ?c es))"
    using assms(2) by (intro otel_resources_ok) (auto simp: c otel_resource_plain)
  have "build_logs_request P ord version (map ?c es) =
      Ok (grouped_blocks P ord lr_resource_attributes (\<lambda>r. scope_or_default (lr_scope_name r)) ?S ?g (map ?c es))"
    using g by (intro logs_request_grouped) auto
  moreover have "mset (request_entries (grouped_blocks P ord lr_resource_attributes
        (\<lambda>r. scope_or_default (lr_scope_name r)) ?S ?g (map ?c es))) =
      image_mset (\<lambda>e. (set (build_resource P ord (lr_resource_attributes (?c e))),
        scope_or_default (lr_scope_name (?c e)), log_message P ord ord_arg e)) (mset es)"
    using g by (intro request_entries_grouped [OF assms(1) res]) simp_all
  ultimately show ?thesis by (simp add: c)
qed

section \<open>A batch that meets the assumptions\<close>

definition sample_ops :: export_ops where
  "sample_ops = \<lparr>xo_display = (\<lambda>v. ''?''),
     xo_to_string = (\<lambda>v. case v of JString s \<Rightarrow> Ok (CHR 0x22 # s @ [CHR 0x22]) | _ \<Rightarrow> Ok ''?''),
     xo_nanos = (\<lambda>t. None), xo_f64_of = (\<lambda>n. 0), xo_json_f64 = (\<lambda>w. JFloat w)\<rparr>"

definition sample_spans :: "datetime \<Rightarrow> span_entry list" where
  "sample_spans now =
     (let s = span_entry_new now now (replicate 16 1) (replicate 8 2) ''run'' in
      [s\<lparr>sp_project_name := ''line1''\<rparr>, s\<lparr>sp_project_name := ''line2'', sp_scope_namespace := ''FB''\<rparr>,
       s\<lparr>sp_project_name := ''line1''\<rparr>])"

definition sample_logs :: "datetime \<Rightarrow> log_entry list" where
  "sample_logs now =
     (let e = log_entry_new ''id'' now now '''' ''plc'' ''started'' ''Main'' LInfo in
      [e, e\<lparr>le_hostname := ''plc2''\<rparr>, e])"

lemma sample_span_values:
  "resource_values (map (tr_resource_attributes \<circ> from_span_entry) (sample_spans now)) =
   {JString ''line1'', JString ''line2''}"
proof -
  have "map (tr_resource_attributes \<circ> from_span_entry) (sample_spans now) =
      [[(''service.name'', JString ''line1'')], [(''service.name'', JString ''line2'')], [(''service.name'', JString ''line1'')]]"
    by (simp add: sample_spans_def Let_def from_span_entry_def build_otel_resource_def
        build_service_instance_id_def insert_when_def hm_insert_def span_entry_new_def)
  then show ?thesis by (auto simp: resource_values_def)
qed

lemma sample_log_values:
  "resource_values (map (lr_resource_attributes \<circ> from_log_entry ord ord_arg) (sample_logs now)) =
   {JString ''plc'', JString ''plc2''}"
proof -
  have "map (lr_resource_attributes \<circ> from_log_entry ord ord_arg) (sample_logs now) =
      [[(''host.name'', JString ''plc'')], [(''host.name'', JString ''plc2'')], [(''host.name'', JString ''plc'')]]"
    by (simp add: sample_logs_def Let_def from_log_entry_def build_otel_resource_def
        build_service_instance_id_def insert_when_def hm_insert_def log_entry_new_def log_has_trace_context_def)
  then show ?thesis by (auto simp: resource_values_def)
qed

lemma sample_texts: "CHR 0x1F \<notin> set a \<Longrightarrow> CHR 0x1F \<notin> set b \<Longrightarrow> json_text_of sample_ops {JString a, JString b}"
  by (auto simp: json_text_of_def sample_ops_def inj_on_def)



theorem logs_exported_once_witness:
  "\<exists>blocks. build_logs_request sample_ops (\<lambda>m. m) ''1'' (map (from_log_entry (\<lambda>m. m) (\<lambda>m. m)) (sample_logs (DateTime 0 0))) = Ok blocks \<and>
     length (request_entries blocks) = 3"
proof -
  have "json_text_of sample_ops (resource_values (map (lr_resource_attributes \<circ> from_log_entry (\<lambda>m. m) (\<lambda>m. m)) (sample_logs (DateTime 0 0))))"
    unfolding sample_log_values by (rule sample_texts) simp_all
  moreover have "\<forall>e\<in>set (sample_logs (DateTime 0 0)). length (le_trace_id e) = 16 \<and> length (le_span_id e) = 8"
    by (simp add: sample_logs_def Let_def log_entry_new_def)
  ultimately obtain blocks F where
      b: "build_logs_request sample_ops (\<lambda>m. m) ''1'' (map (from_log_entry (\<lambda>m. m) (\<lambda>m. m)) (sample_logs (DateTime 0 0))) = Ok blocks"
      and m: "mset (request_entries blocks) = image_mset F (mset (sample_logs (DateTime 0 0)))"
    using logs_exported_once [OF iteration_id, of sample_ops "\<lambda>m. m" "sample_logs (DateTime 0 0)" "''1''"]
    by blast
  have "length (request_entries blocks) = length (sample_logs (DateTime 0 0))"
    using arg_cong [OF m, of size] by (simp only: size_mset size_image_mset)
  then have "length (request_entries blocks) = 3" by (simp add: sample_logs_def Let_def)
  with b show ?thesis by blast
qed

end
