(* ===== verification/Exporter.thy ===== *)
theory Exporter
  imports Proto
begin

text \<open>
  The export of whole batches, \<^verbatim>\<open>export_batch\<close>, \<^verbatim>\<open>export_metrics_batch\<close> and
  \<^verbatim>\<open>export_traces_batch\<close> of \<^verbatim>\<open>tc-otel-export/src/exporter.rs\<close>, on top of the payloads of \<open>Export\<close> and
  \<open>Proto\<close>. The encoding of a protobuf message to bytes is the work of another crate and an argument.
  The lemmas show that a batch counts as exported only if the collector accepted a request with its
  encoding.
\<close>

section \<open>Encoders\<close>

record wire_ops =
  wo_version :: string
  wo_logs :: "proto_log_record resource_block list \<Rightarrow> u8 list"
  wo_metrics :: "proto_metric resource_block list \<Rightarrow> u8 list"
  wo_traces :: "proto_span resource_block list \<Rightarrow> u8 list"

definition proto_logs_build ::
    "export_ops \<Rightarrow> wire_ops \<Rightarrow> (string, json) iter \<Rightarrow> log_record list \<Rightarrow> (unit, u8 list) res" where
  "proto_logs_build P W ord records =
     bind_res (build_logs_request P ord (wo_version W) records) (\<lambda>request. Ok (wo_logs W request))"

definition proto_metrics_build ::
    "bool \<Rightarrow> export_ops \<Rightarrow> wire_ops \<Rightarrow> (string, json) iter \<Rightarrow> metric_record list \<Rightarrow> (unit, u8 list) res" where
  "proto_metrics_build checks P W ord records =
     bind_res (build_metrics_request checks P ord (wo_version W) records) (\<lambda>request. Ok (wo_metrics W request))"

definition proto_traces_build ::
    "export_ops \<Rightarrow> wire_ops \<Rightarrow> (string, json) iter \<Rightarrow> trace_record list \<Rightarrow> (unit, u8 list) res" where
  "proto_traces_build P W ord records =
     bind_res (build_traces_request P ord (wo_version W) records) (\<lambda>request. Ok (wo_traces W request))"

section \<open>Bodies\<close>

text \<open>The body of a request and its content type; the protobuf encoders have no error of their own.\<close>

definition encoded_body ::
    "wire_format \<Rightarrow> (otel_error, string) res \<Rightarrow> (unit, u8 list) res \<Rightarrow> (otel_error, u8 list \<times> string) res" where
  "encoded_body fmt json proto =
     (case fmt of
        WireJson \<Rightarrow> bind_res json (\<lambda>payload. Ok (bytes_of_str payload, ''application/json''))
      | WireProtobuf \<Rightarrow> (case proto of Ok bytes \<Rightarrow> Ok (bytes, ''application/x-protobuf'') | _ \<Rightarrow> Panic))"

definition metrics_endpoint :: "string \<Rightarrow> string" where
  "metrics_endpoint endpoint =
     str_replace ''/insert/jsonline'' ''/v1/metrics'' (str_replace ''/v1/logs'' ''/v1/metrics'' endpoint)"

definition traces_endpoint :: "string \<Rightarrow> string" where
  "traces_endpoint endpoint =
     str_replace ''/insert/jsonline'' ''/v1/traces''
       (str_replace ''/v1/metrics'' ''/v1/traces'' (str_replace ''/v1/logs'' ''/v1/traces'' endpoint))"

section \<open>Batches\<close>

definition export_batch ::
    "bool \<Rightarrow> (string \<Rightarrow> string) \<Rightarrow> export_ops \<Rightarrow> wire_ops \<Rightarrow> (string, json) iter \<Rightarrow> exporter_config \<Rightarrow>
     (nat \<Rightarrow> http_request \<Rightarrow> http_outcome) \<Rightarrow> log_record list \<Rightarrow> (otel_error, unit) res" where
  "export_batch checks expand P W ord c answers records =
     (if records = [] then Ok ()
      else bind_res (encoded_body (xc_format c) (build_otel_payload P ord records) (proto_logs_build P W ord records))
        (\<lambda>(body, content_type). fst (send_with_retry checks expand c answers body content_type)))"

definition export_one ::
    "bool \<Rightarrow> (string \<Rightarrow> string) \<Rightarrow> export_ops \<Rightarrow> wire_ops \<Rightarrow> (string, json) iter \<Rightarrow> exporter_config \<Rightarrow>
     (nat \<Rightarrow> http_request \<Rightarrow> http_outcome) \<Rightarrow> log_record \<Rightarrow> (otel_error, unit) res" where
  "export_one checks expand P W ord c answers record = export_batch checks expand P W ord c answers [record]"

definition export_metrics_batch ::
    "bool \<Rightarrow> (string \<Rightarrow> string) \<Rightarrow> export_ops \<Rightarrow> wire_ops \<Rightarrow> (string, json) iter \<Rightarrow> exporter_config \<Rightarrow>
     (nat \<Rightarrow> http_request \<Rightarrow> http_outcome) \<Rightarrow> metric_record list \<Rightarrow> (otel_error, unit) res" where
  "export_metrics_batch checks expand P W ord c answers records =
     (if records = [] then Ok ()
      else bind_res (encoded_body (xc_format c) (build_otel_metrics_payload P ord records)
          (proto_metrics_build checks P W ord records))
        (\<lambda>(body, content_type).
          fst (send_metrics_with_retry checks expand c answers body content_type (metrics_endpoint (xc_endpoint c)))))"

definition export_traces_batch ::
    "bool \<Rightarrow> (string \<Rightarrow> string) \<Rightarrow> export_ops \<Rightarrow> wire_ops \<Rightarrow> (string, json) iter \<Rightarrow> exporter_config \<Rightarrow>
     (nat \<Rightarrow> http_request \<Rightarrow> http_outcome) \<Rightarrow> trace_record list \<Rightarrow> (otel_error, unit) res" where
  "export_traces_batch checks expand P W ord c answers records =
     (if records = [] then Ok ()
      else bind_res (encoded_body (xc_format c) (build_otel_traces_payload P ord records)
          (proto_traces_build P W ord records))
        (\<lambda>(body, content_type).
          fst (send_traces_with_retry checks expand c answers body content_type (traces_endpoint (xc_endpoint c)))))"

section \<open>An exported batch was accepted\<close>

lemma retry_loop_Ok:
  "retry_loop checks max_retries attempt retry_count delay = (Ok (), ds) \<Longrightarrow> \<exists>i\<ge>retry_count. attempt i = Ok ()"
proof (induction checks max_retries attempt retry_count delay arbitrary: ds rule: retry_loop.induct)
  case (1 checks max_retries attempt retry_count delay)
  show ?case
  proof (cases "attempt retry_count")
    case (Err e)
    then obtain d' ds' where "next_delay checks delay = Ok d'" "is_retryable_error e" "\<not> retry_count + 1 > max_retries"
        "retry_loop checks max_retries attempt (retry_count + 1) d' = (Ok (), ds')"
      using 1(2) by (subst (asm) retry_loop.simps) (auto split: if_splits res.splits prod.splits)
    then have "\<exists>i\<ge>retry_count + 1. attempt i = Ok ()" using 1(1) [OF Err] by simp
    then show ?thesis by (meson le_add1 order_trans)
  next
    case (Ok u)
    then show ?thesis by (intro exI [of _ retry_count]) simp
  next
    case Panic
    then show ?thesis using 1(2) by (subst (asm) retry_loop.simps) simp
  qed
qed

lemma outcome_Ok: "outcome_result endpoint out = Ok () \<longleftrightarrow> (\<exists>status. out = Status True status)"
  by (cases out) auto

definition accepted :: "(nat \<Rightarrow> http_request \<Rightarrow> http_outcome) \<Rightarrow> http_request \<Rightarrow> bool" where
  "accepted answers request \<longleftrightarrow> (\<exists>i status. answers i request = Status True status)"

lemma logs_accepted:
  assumes "fst (send_with_retry checks expand c answers body content_type) = Ok ()"
  shows "eq_ignore_ascii_case (xc_endpoint c) ''stdout'' \<or>
    accepted answers (post_request expand c (xc_endpoint c) body content_type)"
proof -
  have "send_with_retry checks expand c answers body content_type =
      (Ok (), snd (send_with_retry checks expand c answers body content_type))"
    using assms by (simp add: prod_eq_iff)
  from retry_loop_Ok [OF this [unfolded send_with_retry_def]] show ?thesis
    by (auto simp: accepted_def send_payload_def outcome_Ok split: if_splits)
qed

lemma posted_accepted:
  assumes "fst (post_loop checks n request answers 0 delay) = Ok ()"
  shows "accepted answers request"
proof -
  have "retry_loop checks n (\<lambda>i. outcome_result (rq_url request) (answers i request)) 0 delay =
      (Ok (), snd (retry_loop checks n (\<lambda>i. outcome_result (rq_url request) (answers i request)) 0 delay))"
    using assms by (simp add: post_loop_retry_loop prod_eq_iff)
  from retry_loop_Ok [OF this] show ?thesis by (auto simp: accepted_def outcome_Ok)
qed

text \<open>What a batch was encoded to when its export succeeded.\<close>

lemma export_traces_accepted:
  assumes "export_traces_batch checks expand P W ord c answers records = Ok ()" and "records \<noteq> []"
  shows "\<exists>body content_type.
    encoded_body (xc_format c) (build_otel_traces_payload P ord records) (proto_traces_build P W ord records) = Ok (body, content_type) \<and>
    accepted answers (post_request expand c (traces_endpoint (xc_endpoint c)) body content_type)"
proof -
  obtain body content_type where "encoded_body (xc_format c) (build_otel_traces_payload P ord records)
      (proto_traces_build P W ord records) = Ok (body, content_type)"
      "fst (send_traces_with_retry checks expand c answers body content_type (traces_endpoint (xc_endpoint c))) = Ok ()"
    using assms by (auto simp: export_traces_batch_def bind_res_Ok_iff)
  then show ?thesis using posted_accepted unfolding send_traces_with_retry_def by blast
qed

lemma export_metrics_accepted:
  assumes "export_metrics_batch checks expand P W ord c answers records = Ok ()" and "records \<noteq> []"
  shows "\<exists>body content_type.
    encoded_body (xc_format c) (build_otel_metrics_payload P ord records) (proto_metrics_build checks P W ord records) = Ok (body, content_type) \<and>
    accepted answers (post_request expand c (metrics_endpoint (xc_endpoint c)) body content_type)"
proof -
  obtain body content_type where "encoded_body (xc_format c) (build_otel_metrics_payload P ord records)
      (proto_metrics_build checks P W ord records) = Ok (body, content_type)"
      "fst (send_metrics_with_retry checks expand c answers body content_type (metrics_endpoint (xc_endpoint c))) = Ok ()"
    using assms by (auto simp: export_metrics_batch_def bind_res_Ok_iff)
  then show ?thesis using posted_accepted unfolding send_metrics_with_retry_def by blast
qed

end
