(* ===== verification/Json_Lines.thy ===== *)
theory Json_Lines
  imports Models
begin

text \<open>
  The newline-delimited JSON that the log dispatcher posts to VictoriaLogs,
  \<^verbatim>\<open>tc-otel-service/src/dispatcher.rs\<close> (\<open>push_json_escaped\<close>, \<open>push_json_value\<close> and the payload loop of
  \<open>flush_batch_owned\<close>). The reader of a JSON string literal is the reference: whatever text a record
  carries, the literal written for it ends at its own closing quote, and a record is one line.
\<close>

section \<open>Writing JSON\<close>

text \<open>
  \<open>show_f64\<close> and \<open>json_text\<close> are the display of a number and \<^verbatim>\<open>to_string\<close> of \<^verbatim>\<open>serde_json\<close>,
  \<open>rfc3339\<close> is chrono's, \<open>lower_text\<close> is \<^verbatim>\<open>str::to_lowercase\<close>.
\<close>

record text_ops =
  show_f64 :: "f64 \<Rightarrow> string"
  json_text :: "json \<Rightarrow> string option"
  rfc3339 :: "datetime \<Rightarrow> string"
  lower_text :: "string \<Rightarrow> string"

abbreviation dquote :: char where "dquote \<equiv> CHR 0x22"
abbreviation backslash :: char where "backslash \<equiv> CHR 0x5C"
abbreviation newline :: char where "newline \<equiv> CHR 0x0A"

definition escape_char :: "char \<Rightarrow> string" where
  "escape_char c =
     (if c = dquote then [backslash, dquote]
      else if c = backslash then [backslash, backslash]
      else if c = newline then [backslash, CHR ''n'']
      else if c = CHR 0x0D then [backslash, CHR ''r'']
      else if c = CHR 0x09 then [backslash, CHR ''t'']
      else if of_char c < (0x20 :: nat) then backslash # ''u00'' @ show_hex2 (of_nat (of_char c))
      else [c])"

definition push_json_escaped :: "string \<Rightarrow> string" where
  "push_json_escaped s = concat (map escape_char s)"

fun push_json_value :: "text_ops \<Rightarrow> json \<Rightarrow> string" where
  "push_json_value T JNull = ''null''"
| "push_json_value T (JBool b) = (if b then ''true'' else ''false'')"
| "push_json_value T (JInt n) = show_int n"
| "push_json_value T (JFloat w) = show_f64 T w"
| "push_json_value T (JString s) = dquote # push_json_escaped s @ [dquote]"
| "push_json_value T (JArray xs) = (case json_text T (JArray xs) of Some s \<Rightarrow> s | None \<Rightarrow> [])"
| "push_json_value T (JObject kvs) = (case json_text T (JObject kvs) of Some s \<Rightarrow> s | None \<Rightarrow> [])"

definition push_json_key_value :: "text_ops \<Rightarrow> string \<Rightarrow> json \<Rightarrow> string" where
  "push_json_key_value T k v = dquote # push_json_escaped k @ [dquote, CHR '':''] @ push_json_value T v"

definition quoted_key :: "string \<Rightarrow> string" where
  "quoted_key k = dquote # k @ [dquote, CHR '':'']"

definition attr_fields :: "text_ops \<Rightarrow> (string \<times> json) list \<Rightarrow> string" where
  "attr_fields T kvs = concat (map (\<lambda>(k, v). CHR '','' # push_json_key_value T k v) kvs)"

text \<open>One record without the newline that ends its line; \<open>ord\<close> is the iteration order of its maps.\<close>

definition log_line :: "text_ops \<Rightarrow> (string, json) iter \<Rightarrow> log_record \<Rightarrow> string" where
  "log_line T ord r =
     ''{'' @ quoted_key ''_msg'' @ push_json_value T (lr_body r) @
     '','' @ quoted_key ''_time'' @ [dquote] @ rfc3339 T (lr_timestamp r) @ [dquote] @
     '','' @ quoted_key ''level'' @ [dquote] @ push_json_escaped (lower_text T (lr_severity_text r)) @ [dquote] @
     '','' @ quoted_key ''severity_number'' @ show_int (lr_severity_number r) @
     attr_fields T (ord (lr_scope_attributes r)) @ attr_fields T (ord (lr_resource_attributes r)) @
     attr_fields T (ord (lr_log_attributes r)) @ ''}''"

definition jsonl_payload :: "text_ops \<Rightarrow> (string, json) iter \<Rightarrow> log_record list \<Rightarrow> string" where
  "jsonl_payload T ord batch = concat (map (\<lambda>r. log_line T ord r @ [newline]) batch)"

section \<open>Reading a string literal\<close>

text \<open>
  The rest of a JSON string literal after its opening quote: the text and what follows the closing
  quote. Of the escapes with a code point those below 256 are read.
\<close>

definition escaped_char :: "char \<Rightarrow> char option" where
  "escaped_char e =
     (if e \<in> {dquote, backslash, CHR ''/''} then Some e
      else if e = CHR ''n'' then Some newline
      else if e = CHR ''r'' then Some (CHR 0x0D)
      else if e = CHR ''t'' then Some (CHR 0x09)
      else if e = CHR ''b'' then Some (CHR 0x08)
      else if e = CHR ''f'' then Some (CHR 0x0C)
      else None)"

fun read_string :: "string \<Rightarrow> (string \<times> string) option" where
  "read_string [] = None"
| "read_string (c # cs) =
     (if c = dquote then Some ([], cs)
      else if c = backslash then
        (case cs of
           e # cs' \<Rightarrow>
             (if e = CHR ''u'' then
                (case cs' of
                   z # z' # h # l # cs'' \<Rightarrow>
                     (case (hex_val h, hex_val l, read_string cs'') of
                        (Some a, Some b, Some (s, rest)) \<Rightarrow>
                          if z = CHR ''0'' \<and> z' = CHR ''0'' then Some (char_of (16 * a + b) # s, rest) else None
                      | _ \<Rightarrow> None)
                 | _ \<Rightarrow> None)
              else
                (case (escaped_char e, read_string cs') of
                   (Some d, Some (s, rest)) \<Rightarrow> Some (d # s, rest)
                 | _ \<Rightarrow> None))
         | [] \<Rightarrow> None)
      else if of_char c < (0x20 :: nat) then None
      else map_option (\<lambda>(s, rest). (c # s, rest)) (read_string cs))"

section \<open>The literal ends where it was closed\<close>

lemma control_digits:
  fixes c :: char
  assumes "of_char c < (0x20 :: nat)"
  shows "\<exists>a b. show_hex2 (of_nat (of_char c)) = [hex_digit a, hex_digit b] \<and> a < 16 \<and> b < 16 \<and> char_of (16 * a + b) = c"
proof -
  let ?n = "of_char c :: nat"
  have u: "unat (of_nat ?n :: u8) = ?n" using assms by (simp add: unat_of_nat)
  have "char_of (16 * (?n div 16) + ?n mod 16) = c" by simp
  moreover have "?n div 16 < 16" "?n mod 16 < 16" using assms by simp_all
  ultimately show ?thesis using u by (intro exI [of _ "?n div 16"] exI [of _ "?n mod 16"]) (simp add: show_hex2_def)
qed

lemma read_escape_char:
  assumes "read_string cs = Some (s, rest)"
  shows "read_string (escape_char c @ cs) = Some (c # s, rest)"
proof (cases "of_char c < (0x20 :: nat)")
  case True
  then obtain a b where h: "show_hex2 (of_nat (of_char c)) = [hex_digit a, hex_digit b]" "a < 16" "b < 16"
      "char_of (16 * a + b) = c" using control_digits by blast
  show ?thesis
    using assms h(1,4) hex_val_digit [OF h(2)] hex_val_digit [OF h(3)] True
    by (auto simp: escape_char_def escaped_char_def)
next
  case False
  then show ?thesis using assms by (auto simp: escape_char_def escaped_char_def)
qed

lemma read_escaped: "read_string (push_json_escaped s @ dquote # rest) = Some (s, rest)"
  by (induction s) (simp_all add: push_json_escaped_def read_escape_char)

section \<open>A record is one line\<close>

lemma hex_digit_no_newline: "n < 16 \<Longrightarrow> hex_digit n \<noteq> newline"
  using hex_val_digit [of n] by (auto simp: hex_val_def)

lemma escape_char_no_newline: "newline \<notin> set (escape_char c)"
proof (cases "of_char c < (0x20 :: nat)")
  case True
  then obtain a b where "show_hex2 (of_nat (of_char c)) = [hex_digit a, hex_digit b]" "a < 16" "b < 16"
    using control_digits by blast
  then show ?thesis using hex_digit_no_newline [of a] hex_digit_no_newline [of b] by (auto simp: escape_char_def)
qed (auto simp: escape_char_def)

lemma escaped_no_newline: "newline \<notin> set (push_json_escaped s)"
  using escape_char_no_newline by (auto simp: push_json_escaped_def)

definition single_line :: "text_ops \<Rightarrow> bool" where
  "single_line T \<longleftrightarrow> (\<forall>w. newline \<notin> set (show_f64 T w)) \<and> (\<forall>v s. json_text T v = Some s \<longrightarrow> newline \<notin> set s) \<and>
     (\<forall>t. newline \<notin> set (rfc3339 T t))"

lemma show_int_no_newline: "newline \<notin> set (show_int n)"
  using show_nat_no_low [of newline] by (auto simp: show_int_def)

lemma value_no_newline: "single_line T \<Longrightarrow> newline \<notin> set (push_json_value T v)"
  by (cases v) (auto simp: single_line_def escaped_no_newline show_int_no_newline split: option.split)

lemma attr_fields_no_newline: "single_line T \<Longrightarrow> newline \<notin> set (attr_fields T kvs)"
  using value_no_newline escaped_no_newline by (auto simp: attr_fields_def push_json_key_value_def)

lemma log_line_no_newline: "single_line T \<Longrightarrow> newline \<notin> set (log_line T ord r)"
  by (simp add: log_line_def quoted_key_def value_no_newline escaped_no_newline show_int_no_newline
      attr_fields_no_newline) (simp add: single_line_def)

section \<open>Properties\<close>

text \<open>
  C32. A record cannot break out of its line or a text out of its literal: whatever the log texts, keys
  and values are, the payload of a batch splits into exactly one line per record in order, every string
  is read back from its literal unchanged, and the reading stops at the closing quote that was written.
\<close>

theorem jsonl_safe:
  "(single_line T \<longrightarrow> split_on newline (jsonl_payload T ord batch) = map (log_line T ord) batch @ [[]]) \<and>
   read_string (push_json_escaped s @ dquote # rest) = Some (s, rest)"
proof
  show "single_line T \<longrightarrow> split_on newline (jsonl_payload T ord batch) = map (log_line T ord) batch @ [[]]"
    by (induction batch) (simp_all add: jsonl_payload_def split_on_append log_line_no_newline)
qed (rule read_escaped)

definition plain_ops :: text_ops where
  "plain_ops = \<lparr>show_f64 = (\<lambda>_. ''0.0''), json_text = (\<lambda>_. None), rfc3339 = (\<lambda>_. ''2024-01-01T00:00:00+00:00''),
     lower_text = (\<lambda>s. s)\<rparr>"

definition hostile_record :: log_record where
  "hostile_record = \<lparr>lr_timestamp = DateTime 0 0, lr_body = JString [dquote, CHR ''}'', newline, CHR ''{''],
     lr_severity_number = 9, lr_severity_text = ''INFO'', lr_trace_id = '''', lr_span_id = '''',
     lr_resource_attributes = [], lr_scope_name = '''', lr_scope_attributes = [], lr_log_attributes = []\<rparr>"

theorem jsonl_safe_witness:
  "split_on newline (jsonl_payload plain_ops (\<lambda>m. m) [hostile_record, hostile_record]) =
     [log_line plain_ops (\<lambda>m. m) hostile_record, log_line plain_ops (\<lambda>m. m) hostile_record, []] \<and>
   read_string (push_json_escaped [dquote, CHR ''}'', newline, CHR ''{''] @ [dquote]) =
     Some ([dquote, CHR ''}'', newline, CHR ''{''], [])"
proof -
  have "single_line plain_ops" by (simp add: single_line_def plain_ops_def)
  then show ?thesis
    using jsonl_safe [of plain_ops "\<lambda>m. m" "[hostile_record, hostile_record]" "[dquote, CHR ''}'', newline, CHR ''{'']" "[]"]
    by simp
qed

end
