(* ===== verification/Symbol.thy ===== *)
theory Symbol
  imports Ams Utf8
begin

text \<open>
  The symbol table of a PLC, \<^verbatim>\<open>tc-otel-ads/src/symbol.rs\<close>: upload info, symbol entries with three
  null-terminated strings, and the table, a sequence of entries whose length field says where the
  next one starts.
\<close>

section \<open>Upload info\<close>

record ads_symbol_upload_info =
  symbol_count :: u32
  symbol_size :: u32

definition upload_info_parse :: "u8 list \<Rightarrow> ads_symbol_upload_info ads_result" where
  "upload_info_parse data =
     (if length data < 8 then Err (IncompleteMessage 8 (length data))
      else Ok \<lparr>symbol_count = u32_at 0 data, symbol_size = u32_at 4 data\<rparr>)"

definition upload_info_serialize :: "ads_symbol_upload_info \<Rightarrow> u8 list" where
  "upload_info_serialize i = u32_to_le (symbol_count i) @ u32_to_le (symbol_size i)"

interpretation upload_info: fixed_codec upload_info_serialize upload_info_parse 8
proof unfold_locales
  fix bs :: "u8 list"
  assume "8 \<le> length bs"
  then have "u32_to_le (u32_at 0 bs) @ u32_to_le (u32_at 4 bs) = take 8 bs"
    by (simp add: u32_at_def u32_to_from_le append_bytes_at bytes_at_def flip: take_add)
  then show "\<exists>x. upload_info_parse bs = Ok x \<and> upload_info_serialize x = take 8 bs"
    using \<open>8 \<le> length bs\<close> by (simp add: upload_info_parse_def upload_info_serialize_def)
qed (simp_all add: upload_info_parse_def upload_info_serialize_def u32_at_def byte_simps)

section \<open>Entries\<close>

record ads_symbol_entry =
  sym_index_group :: u32
  sym_index_offset :: u32
  sym_size :: u32
  sym_data_type :: u32
  sym_flags :: u32
  sym_name :: string
  sym_type_name :: string
  sym_comment :: string

definition SYMBOL_ENTRY_HEADER_SIZE :: nat where
  "SYMBOL_ENTRY_HEADER_SIZE = 4 + 4 + 4 + 4 + 4 + 4 + 2 + 2 + 2"

text \<open>\<open>Display\<close> of the error of \<open>String::from_utf8\<close>.\<close>

function utf8_error_text :: "nat \<Rightarrow> u8 list \<Rightarrow> string" where
  "utf8_error_text i bs =
     (if bs = [] then ''''
      else let n = fst (utf8_step bs) in
        if snd (utf8_step bs) then utf8_error_text (i + n) (drop n bs)
        else if n = length bs \<and> length bs < utf8_char_width (hd bs)
        then ''incomplete utf-8 byte sequence from index '' @ show_nat i
        else ''invalid utf-8 sequence of '' @ show_nat n @ '' bytes from index '' @ show_nat i)"
  by pat_completeness auto
termination
  by (relation "measure (\<lambda>(i, bs). length bs)") (use utf8_step_pos in \<open>auto simp: neq_Nil_conv\<close>)

declare utf8_error_text.simps [simp del]

definition parse_null_terminated_string :: "u8 list \<Rightarrow> string ads_result" where
  "parse_null_terminated_string data =
     (let text = takeWhile (\<lambda>b. b \<noteq> 0) data in
      case from_utf8 text of
        Some s \<Rightarrow> Ok s
      | None \<Rightarrow> Err (InvalidStringEncoding (utf8_error_text 0 text)))"

definition symbol_parse :: "u8 list \<Rightarrow> (ads_symbol_entry \<times> nat) ads_result" where
  "symbol_parse data =
     (if length data < SYMBOL_ENTRY_HEADER_SIZE then
        Err (IncompleteMessage SYMBOL_ENTRY_HEADER_SIZE (length data))
      else
        let entry_length = unat (u32_at 0 data);
            name_length = unat (u16_at 24 data);
            type_length = unat (u16_at 26 data);
            comment_length = unat (u16_at 28 data);
            strings_size = (name_length + 1) + (type_length + 1) + (comment_length + 1);
            total_needed = SYMBOL_ENTRY_HEADER_SIZE + strings_size
        in if length data < total_needed then Err (IncompleteMessage total_needed (length data))
        else
          let offset = SYMBOL_ENTRY_HEADER_SIZE in
          bind_res (slice offset (offset + name_length + 1) data) (\<lambda>b.
          bind_res (parse_null_terminated_string b) (\<lambda>name.
          let offset = offset + name_length + 1 in
          bind_res (slice offset (offset + type_length + 1) data) (\<lambda>b.
          bind_res (parse_null_terminated_string b) (\<lambda>type_name.
          let offset = offset + type_length + 1 in
          bind_res (slice offset (offset + comment_length + 1) data) (\<lambda>b.
          bind_res (parse_null_terminated_string b) (\<lambda>comment.
            Ok (\<lparr>sym_index_group = u32_at 4 data, sym_index_offset = u32_at 8 data,
                 sym_size = u32_at 12 data, sym_data_type = u32_at 16 data,
                 sym_flags = u32_at 20 data, sym_name = name, sym_type_name = type_name,
                 sym_comment = comment\<rparr>, entry_length))))))))"

definition symbol_serialize :: "ads_symbol_entry \<Rightarrow> u8 list" where
  "symbol_serialize e =
     (let name_bytes = bytes_of_str (sym_name e);
          type_bytes = bytes_of_str (sym_type_name e);
          comment_bytes = bytes_of_str (sym_comment e);
          entry_length = SYMBOL_ENTRY_HEADER_SIZE + (length name_bytes + 1) + (length type_bytes + 1)
            + (length comment_bytes + 1)
      in u32_to_le (of_nat entry_length) @ u32_to_le (sym_index_group e) @
         u32_to_le (sym_index_offset e) @ u32_to_le (sym_size e) @ u32_to_le (sym_data_type e) @
         u32_to_le (sym_flags e) @ u16_to_le (of_nat (length name_bytes)) @
         u16_to_le (of_nat (length type_bytes)) @ u16_to_le (of_nat (length comment_bytes)) @
         name_bytes @ [0] @ type_bytes @ [0] @ comment_bytes @ [0])"

section \<open>Tables\<close>

text \<open>
  The loop of the table parser at an offset; the collected entries are returned in order. Every
  entry that is accepted has a positive length, so the offset grows.
\<close>

function symbol_loop :: "u8 list \<Rightarrow> nat \<Rightarrow> ads_symbol_entry list \<Rightarrow> ads_symbol_entry list ads_result" where
  "symbol_loop data offset symbols =
     (if offset < length data then
        (if offset + 4 > length data then Ok symbols
         else
           case slice offset (length data) data of
             Ok rest \<Rightarrow>
               (case symbol_parse rest of
                  Ok (entry, consumed) \<Rightarrow>
                    (if consumed = 0 then Err (ParseError ''symbol entry with zero length'')
                     else symbol_loop data (offset + consumed) (symbols @ [entry]))
                | Err e \<Rightarrow> Err e
                | Panic \<Rightarrow> Panic)
           | Err e \<Rightarrow> Err e
           | Panic \<Rightarrow> Panic)
      else Ok symbols)"
  by pat_completeness auto
termination
  by (relation "measure (\<lambda>(data, offset, _). length data - offset)") auto

declare symbol_loop.simps [simp del]

definition parse_symbol_table :: "u8 list \<Rightarrow> ads_symbol_entry list ads_result" where
  "parse_symbol_table data = symbol_loop data 0 []"

section \<open>Round trip\<close>

definition c_string_ok :: "string \<Rightarrow> bool" where
  "c_string_ok s \<longleftrightarrow> str_ok s \<and> length s < 65536 \<and> 0 \<notin> set (bytes_of_str s)"

definition symbol_ok :: "ads_symbol_entry \<Rightarrow> bool" where
  "symbol_ok e \<longleftrightarrow> c_string_ok (sym_name e) \<and> c_string_ok (sym_type_name e) \<and> c_string_ok (sym_comment e)"

lemma parse_c_string:
  "c_string_ok s \<Longrightarrow> parse_null_terminated_string (bytes_of_str s @ [0]) = Ok s"
proof -
  assume ok: "c_string_ok s"
  have "\<And>b. b \<in> set (bytes_of_str s) \<Longrightarrow> b \<noteq> 0" using ok by (auto simp: c_string_ok_def)
  then have "takeWhile (\<lambda>b. b \<noteq> 0) (bytes_of_str s @ [0]) = bytes_of_str s"
    by (simp add: takeWhile_append2)
  then show ?thesis using ok by (simp add: parse_null_terminated_string_def c_string_ok_def)
qed

lemma parse_null_not_Panic [simp]: "parse_null_terminated_string b \<noteq> Panic"
  by (simp add: parse_null_terminated_string_def Let_def split: option.split)

lemma length_symbol_serialize:
  "length (symbol_serialize e) =
     33 + length (sym_name e) + length (sym_type_name e) + length (sym_comment e)"
  by (simp add: symbol_serialize_def Let_def bytes_of_str_def)

lemma symbol_parse_append:
  assumes "symbol_ok e"
  shows "symbol_parse (symbol_serialize e @ rest) = Ok (e, length (symbol_serialize e))"
proof -
  let ?n = "length (sym_name e)" and ?t = "length (sym_type_name e)" and ?c = "length (sym_comment e)"
  let ?bs = "symbol_serialize e @ rest"
  have ok: "c_string_ok (sym_name e)" "c_string_ok (sym_type_name e)" "c_string_ok (sym_comment e)"
    using assms by (simp_all add: symbol_ok_def)
  then have l: "?n < 65536" "?t < 65536" "?c < 65536" by (simp_all add: c_string_ok_def)
  have blen: "length (bytes_of_str s) = length s" for s by (simp add: bytes_of_str_def)
  have "u32_at 0 ?bs = of_nat (33 + ?n + ?t + ?c)"
    by (simp add: symbol_serialize_def Let_def u32_at_def byte_simps blen SYMBOL_ENTRY_HEADER_SIZE_def)
  then have len: "unat (u32_at 0 ?bs) = 33 + ?n + ?t + ?c"
    using l unat_of_nat [of "33 + ?n + ?t + ?c", where 'a = 32] by simp
  have f: "unat (u16_at 24 ?bs) = ?n"
    "unat (u16_at 26 ?bs) = ?t" "unat (u16_at 28 ?bs) = ?c"
    "u32_at 4 ?bs = sym_index_group e" "u32_at 8 ?bs = sym_index_offset e" "u32_at 12 ?bs = sym_size e"
    "u32_at 16 ?bs = sym_data_type e" "u32_at 20 ?bs = sym_flags e"
    using l by (simp_all add: symbol_serialize_def Let_def u32_at_def u16_at_def byte_simps blen
        SYMBOL_ENTRY_HEADER_SIZE_def unat_of_nat)
  have s: "(slice 30 (30 + ?n + 1) ?bs :: u8 list ads_result) = Ok (bytes_of_str (sym_name e) @ [0])"
    "(slice (30 + ?n + 1) (30 + ?n + 1 + ?t + 1) ?bs :: u8 list ads_result) = Ok (bytes_of_str (sym_type_name e) @ [0])"
    "(slice (30 + ?n + 1 + ?t + 1) (30 + ?n + 1 + ?t + 1 + ?c + 1) ?bs :: u8 list ads_result) =
       Ok (bytes_of_str (sym_comment e) @ [0])"
    by (simp_all add: slice_def symbol_serialize_def Let_def blen)
  show ?thesis
    using s f len ok parse_c_string length_symbol_serialize [of e]
    by (simp add: symbol_parse_def SYMBOL_ENTRY_HEADER_SIZE_def Let_def del: One_nat_def)
qed

lemma slice_to_end: "offset \<le> length data \<Longrightarrow> slice offset (length data) data = Ok (drop offset data)"
  by (simp add: slice_def)

lemma symbol_loop_serialized:
  assumes "list_all symbol_ok es" "drop offset data = concat (map symbol_serialize es)" "offset \<le> length data"
  shows "symbol_loop data offset acc = Ok (acc @ es)"
  using assms
proof (induction es arbitrary: offset acc)
  case Nil
  then show ?case by (simp add: symbol_loop.simps)
next
  case (Cons e es)
  have d: "drop offset data = symbol_serialize e @ concat (map symbol_serialize es)"
    using Cons.prems by simp
  have len: "33 \<le> length (symbol_serialize e)" by (simp add: length_symbol_serialize)
  then have off: "offset + length (symbol_serialize e) \<le> length data"
    using arg_cong [OF d, of length] Cons.prems(3) by simp
  have "drop (offset + length (symbol_serialize e)) data = concat (map symbol_serialize es)"
    using arg_cong [OF d, of "drop (length (symbol_serialize e))"] by (simp add: add.commute)
  then have "symbol_loop data (offset + length (symbol_serialize e)) (acc @ [e]) = Ok ((acc @ [e]) @ es)"
    using Cons.prems(1) off by (intro Cons.IH) simp_all
  moreover have "(slice offset (length data) data :: u8 list ads_result) = Ok (symbol_serialize e @ concat (map symbol_serialize es))"
    using Cons.prems(3) d by (simp add: slice_to_end)
  moreover have "\<not> offset + 4 > length data" "offset < length data" "length (symbol_serialize e) \<noteq> 0"
    using off len by linarith+
  ultimately show ?case
    using Cons.prems(1) by (simp add: symbol_loop.simps [of data offset acc] symbol_parse_append)
qed

definition symbol_strings_ok :: "ads_symbol_entry \<Rightarrow> bool" where
  "symbol_strings_ok e \<longleftrightarrow> str_ok (sym_name e) \<and> str_ok (sym_type_name e) \<and> str_ok (sym_comment e)"

lemma yields_null_terminated [yields_intros]:
  "(\<And>s. str_ok s \<Longrightarrow> yields (f s) P) \<Longrightarrow> yields (bind_res (parse_null_terminated_string b) f) P"
proof (cases "from_utf8 (takeWhile (\<lambda>b. b \<noteq> 0) b)")
  case (Some s)
  then have "str_ok s" by (simp add: from_utf8_Some_iff)
  moreover assume "\<And>s. str_ok s \<Longrightarrow> yields (f s) P"
  ultimately show ?thesis
    by (simp add: parse_null_terminated_string_def Let_def Some)
qed (simp add: parse_null_terminated_string_def Let_def yields_Err)

lemma symbol_parse_yields: "yields (symbol_parse data) (\<lambda>(e, n). symbol_strings_ok e)"
proof -
  have sl: "yields (bind_res (slice a b data) f) P"
    if "a \<le> b" "b \<le> length data" "\<And>xs. yields (f xs) P" for a b P and f :: "u8 list \<Rightarrow> (ads_symbol_entry \<times> nat) ads_result"
    using that by (simp add: slice_def)
  show ?thesis
    unfolding symbol_parse_def Let_def
    by (rule yields_intros sl | simp add: symbol_strings_ok_def SYMBOL_ENTRY_HEADER_SIZE_def)+
qed

lemma symbol_loop_yields:
  "list_all symbol_strings_ok acc \<Longrightarrow>
   yields (symbol_loop data offset acc)
     (\<lambda>es. list_all symbol_strings_ok es \<and> length es \<le> length acc + (length data - offset))"
proof (induction data offset acc rule: symbol_loop.induct)
  case (1 data offset acc)
  show ?case
  proof (cases "offset < length data \<and> \<not> offset + 4 > length data")
    case False
    then show ?thesis using 1(2) by (auto simp: symbol_loop.simps [of data offset acc] yields_Ok)
  next
    case True
    then have s: "(slice offset (length data) data :: u8 list ads_result) = Ok (drop offset data)"
      by (simp add: slice_to_end)
    show ?thesis
    proof (cases "symbol_parse (drop offset data)")
      case (Ok r)
      obtain e n where r: "r = (e, n)" by fastforce
      have "symbol_strings_ok e" using symbol_parse_yields [of "drop offset data"] Ok r by (simp add: yields_def)
      then have "yields (symbol_loop data (offset + n) (acc @ [e]))
          (\<lambda>es. list_all symbol_strings_ok es \<and> length es \<le> length (acc @ [e]) + (length data - (offset + n)))"
        if "n \<noteq> 0"
        using True Ok r s 1(2) that by (intro 1(1) [of "drop offset data" r e n]) auto
      then show ?thesis
        using True Ok r s
        by (auto simp: symbol_loop.simps [of data offset acc] yields_Err elim!: yields_mono)
    next
      case (Err e)
      then show ?thesis using True s by (simp add: symbol_loop.simps [of data offset acc] yields_Err)
    next
      case Panic
      then show ?thesis using symbol_parse_yields [of "drop offset data"] by (simp add: yields_def)
    qed
  qed
qed

section \<open>Properties\<close>

text \<open>
  The symbol table parser inverts the serializer on any list of symbols whose strings fit their
  length fields and contain no zero byte, and on arbitrary bytes it returns: an error, or at most as many
  symbols as there are bytes, with valid strings.
\<close>

theorem symbol_table_correct:
  "(list_all symbol_ok es \<longrightarrow> parse_symbol_table (concat (map symbol_serialize es)) = Ok es) \<and>
   ((\<exists>e. parse_symbol_table data = Err e) \<or>
    (\<exists>syms. parse_symbol_table data = Ok syms \<and> length syms \<le> length data \<and> list_all symbol_strings_ok syms))"
proof
  show "list_all symbol_ok es \<longrightarrow> parse_symbol_table (concat (map symbol_serialize es)) = Ok es"
    using symbol_loop_serialized [of es 0 "concat (map symbol_serialize es)" "[]"]
    by (simp add: parse_symbol_table_def)
  show "(\<exists>e. parse_symbol_table data = Err e) \<or>
    (\<exists>syms. parse_symbol_table data = Ok syms \<and> length syms \<le> length data \<and> list_all symbol_strings_ok syms)"
    using symbol_loop_yields [of "[]" data 0]
    by (cases "parse_symbol_table data") (auto simp: parse_symbol_table_def yields_def)
qed

definition sample_symbol :: ads_symbol_entry where
  "sample_symbol = \<lparr>sym_index_group = 16448, sym_index_offset = 8, sym_size = 4, sym_data_type = 3,
     sym_flags = 0, sym_name = ''MAIN.nCount'', sym_type_name = ''DINT'', sym_comment = ''''\<rparr>"

lemma sample_symbol_ok: "symbol_ok sample_symbol"
proof -
  have ascii: "list_all (\<lambda>c. of_char c < (128 :: nat)) s \<Longrightarrow> str_ok s" for s
    unfolding str_ok_def
    by (rule utf8_valid_ascii) (simp add: bytes_of_str_def list_all_iff word_less_nat_alt unat_of_nat)
  show ?thesis by (simp add: symbol_ok_def c_string_ok_def sample_symbol_def ascii bytes_of_str_def)
qed

theorem symbol_table_correct_witness:
  "parse_symbol_table (symbol_serialize sample_symbol @ symbol_serialize sample_symbol) = Ok [sample_symbol, sample_symbol]"
  using symbol_table_correct [of "[sample_symbol, sample_symbol]"] sample_symbol_ok by simp

end
