(* ===== verification/Ads_Client.thy ===== *)
theory Ads_Client
  imports Symbol
begin

text \<open>
  The ADS client, \<^verbatim>\<open>tc-otel-ads/src/ads_client.rs\<close>: read requests and responses, the exchange of one
  request on a TCP stream, and the download of a symbol table. The other end of a stream is a function
  that gives the bytes it sends after each write; a read that finds too few bytes fails, as when
  the peer closes the connection. Download from a server that answers with the codecs of this
  file gives the table of that server.
\<close>

section \<open>Requests and responses\<close>

definition ADSIGRP_SYM_UPLOADINFO :: u32 where "ADSIGRP_SYM_UPLOADINFO = 0xF00C"

definition ADSIGRP_SYM_UPLOAD :: u32 where "ADSIGRP_SYM_UPLOAD = 0xF00B"

record ads_read_request =
  rd_index_group :: u32
  rd_index_offset :: u32
  rd_length :: u32

definition read_request_serialize :: "ads_read_request \<Rightarrow> u8 list" where
  "read_request_serialize r = u32_to_le (rd_index_group r) @ u32_to_le (rd_index_offset r) @ u32_to_le (rd_length r)"

definition read_request_parse :: "u8 list \<Rightarrow> ads_read_request ads_result" where
  "read_request_parse data =
     (if length data < 12 then Err (IncompleteMessage 12 (length data))
      else Ok \<lparr>rd_index_group = u32_at 0 data, rd_index_offset = u32_at 4 data, rd_length = u32_at 8 data\<rparr>)"

record ads_read_response =
  rs_result :: u32
  rs_data :: "u8 list"

definition read_response_parse :: "u8 list \<Rightarrow> ads_read_response ads_result" where
  "read_response_parse data =
     (if length data < 8 then Err (IncompleteMessage 8 (length data))
      else
        let read_length = unat (u32_at 4 data) in
        if length data < 8 + read_length then Err (IncompleteMessage (8 + read_length) (length data))
        else Ok \<lparr>rs_result = u32_at 0 data, rs_data = bytes_at 8 read_length data\<rparr>)"

definition read_response_serialize :: "ads_read_response \<Rightarrow> u8 list" where
  "read_response_serialize r = u32_to_le (rs_result r) @ u32_to_le (of_nat (length (rs_data r))) @ rs_data r"

section \<open>Streams\<close>

record tcp_stream =
  st_inbox :: "u8 list"
  st_writes :: nat
  st_peer :: "nat \<Rightarrow> u8 list \<Rightarrow> u8 list"

definition write_all :: "u8 list \<Rightarrow> tcp_stream \<Rightarrow> tcp_stream" where
  "write_all bs s = s\<lparr>st_inbox := st_inbox s @ st_peer s (st_writes s) bs, st_writes := st_writes s + 1\<rparr>"

definition read_exact :: "nat \<Rightarrow> tcp_stream \<Rightarrow> u8 list ads_result \<times> tcp_stream" where
  "read_exact n s =
     (if n \<le> length (st_inbox s) then (Ok (take n (st_inbox s)), s\<lparr>st_inbox := drop n (st_inbox s)\<rparr>)
      else (Err (IoError ''early eof''), s\<lparr>st_inbox := []\<rparr>))"

section \<open>The client\<close>

record ads_client =
  cl_stream :: tcp_stream
  cl_source_net_id :: ams_net_id
  cl_source_port :: u16
  cl_target_net_id :: ams_net_id
  cl_target_port :: u16
  cl_invoke_id :: u32

definition client_from_stream ::
    "tcp_stream \<Rightarrow> ams_net_id \<Rightarrow> u16 \<Rightarrow> ams_net_id \<Rightarrow> u16 \<Rightarrow> ads_client" where
  "client_from_stream s source_id source_p target_id target_p =
     \<lparr>cl_stream = s, cl_source_net_id = source_id, cl_source_port = source_p,
      cl_target_net_id = target_id, cl_target_port = target_p, cl_invoke_id = 1\<rparr>"

definition AMS_TCP_PORT :: nat where "AMS_TCP_PORT = 48898"

text \<open>The network gives a stream for an address or an error text.\<close>

definition client_connect ::
    "(string \<Rightarrow> (string, tcp_stream) res) \<Rightarrow> string \<Rightarrow> ams_net_id \<Rightarrow> u16 \<Rightarrow> ams_net_id \<Rightarrow> u16 \<Rightarrow> ads_client ads_result" where
  "client_connect net addr source_id source_p target_id target_p =
     (case net (addr @ '':'' @ show_nat AMS_TCP_PORT) of
        Ok s \<Rightarrow> Ok (client_from_stream s source_id source_p target_id target_p)
      | Err e \<Rightarrow> Err (IoError e)
      | Panic \<Rightarrow> Panic)"

definition build_read_request_frame ::
    "ams_net_id \<Rightarrow> u16 \<Rightarrow> ams_net_id \<Rightarrow> u16 \<Rightarrow> u32 \<Rightarrow> u32 \<Rightarrow> u32 \<Rightarrow> u32 \<Rightarrow> ams_tcp_frame" where
  "build_read_request_frame source_id source_p target_id target_p grp off len invoke =
     (let payload = read_request_serialize
            \<lparr>rd_index_group = grp, rd_index_offset = off, rd_length = len\<rparr>
      in \<lparr>tcp_header = \<lparr>reserved = 0, tcp_data_length = 32 + of_nat (length payload)\<rparr>,
          tcp_ams_header =
            \<lparr>target_net_id = target_id, target_port = target_p, source_net_id = source_id, source_port = source_p,
             command_id = ADS_CMD_READ, state_flags = ADS_STATE_REQUEST, data_length = of_nat (length payload),
             error_code = 0, invoke_id = invoke\<rparr>,
          tcp_payload = payload\<rparr>)"

definition build_read_response_frame :: "ams_tcp_frame \<Rightarrow> u32 \<Rightarrow> u8 list \<Rightarrow> ams_tcp_frame" where
  "build_read_response_frame request result_code data =
     ams_tcp_frame_make_response request 0
       (read_response_serialize \<lparr>rs_result = result_code, rs_data = data\<rparr>)"

text \<open>The prefixed hexadecimal forms with four and eight digits.\<close>

definition hex_u16 :: "u16 \<Rightarrow> string" where
  "hex_u16 w = ''0x'' @ hex_string (rev (u16_to_le w))"

definition hex_u32 :: "u32 \<Rightarrow> string" where
  "hex_u32 w = ''0x'' @ hex_string (rev (u32_to_le w))"

text \<open>What a received frame without its TCP header says.\<close>

definition check_read_reply :: "u8 list \<Rightarrow> ads_read_response ads_result" where
  "check_read_reply rest =
     (if length rest < 32 then Err (IncompleteMessage 32 (length rest))
      else
        bind_res (ams_header_parse (take 32 rest)) (\<lambda>resp_ams.
        if state_flags resp_ams \<noteq> ADS_STATE_RESPONSE then
          Err (ParseError (''expected response state flags '' @ hex_u16 ADS_STATE_RESPONSE @ '', got '' @
            hex_u16 (state_flags resp_ams)))
        else if error_code resp_ams \<noteq> 0 then Err (ParseError (''ADS error code: '' @ hex_u32 (error_code resp_ams)))
        else read_response_parse (drop 32 rest)))"

text \<open>Receiving a frame: the TCP header, then as many bytes as it announces.\<close>

definition receive_reply :: "tcp_stream \<Rightarrow> ads_read_response ads_result \<times> tcp_stream" where
  "receive_reply s =
     (case read_exact 6 s of
        (Ok tcp_buf, s1) \<Rightarrow>
          (case ams_tcp_header_parse tcp_buf of
             Ok resp_tcp \<Rightarrow>
               (case read_exact (unat (tcp_data_length resp_tcp)) s1 of
                  (Ok rest, s2) \<Rightarrow> (check_read_reply rest, s2)
                | (Err e, s2) \<Rightarrow> (Err e, s2)
                | (Panic, s2) \<Rightarrow> (Panic, s2))
           | Err e \<Rightarrow> (Err e, s1)
           | Panic \<Rightarrow> (Panic, s1))
      | (Err e, s1) \<Rightarrow> (Err e, s1)
      | (Panic, s1) \<Rightarrow> (Panic, s1))"

definition ads_read :: "u32 \<Rightarrow> u32 \<Rightarrow> u32 \<Rightarrow> ads_client \<Rightarrow> ads_read_response ads_result \<times> ads_client" where
  "ads_read grp off len c =
     (let frame = build_read_request_frame (cl_source_net_id c) (cl_source_port c) (cl_target_net_id c)
            (cl_target_port c) grp off len (cl_invoke_id c);
          s = write_all (ams_tcp_frame_serialize frame) (cl_stream c)
      in case receive_reply s of (r, s') \<Rightarrow> (r, c\<lparr>cl_stream := s', cl_invoke_id := cl_invoke_id c + 1\<rparr>))"

definition read_symbol_info :: "ads_client \<Rightarrow> ads_symbol_upload_info ads_result \<times> ads_client" where
  "read_symbol_info c =
     (case ads_read ADSIGRP_SYM_UPLOADINFO 0 8 c of
        (r, c') \<Rightarrow>
          (bind_res r (\<lambda>response.
             if rs_result response \<noteq> 0
             then Err (ParseError (''ADS READ error for symbol info: '' @ hex_u32 (rs_result response)))
             else upload_info_parse (rs_data response)), c'))"

definition read_symbol_table :: "ads_client \<Rightarrow> ads_symbol_entry list ads_result \<times> ads_client" where
  "read_symbol_table c =
     (case read_symbol_info c of
        (Ok info, c') \<Rightarrow>
          (case ads_read ADSIGRP_SYM_UPLOAD 0 (symbol_size info) c' of
             (r, c'') \<Rightarrow>
               (bind_res r (\<lambda>response.
                  if rs_result response \<noteq> 0
                  then Err (ParseError (''ADS READ error for symbol table: '' @ hex_u32 (rs_result response)))
                  else parse_symbol_table (rs_data response)), c''))
      | (Err e, c') \<Rightarrow> (Err e, c')
      | (Panic, c') \<Rightarrow> (Panic, c'))"

section \<open>Codecs\<close>

lemma length_read_request [simp]: "length (read_request_serialize r) = 12"
  by (simp add: read_request_serialize_def)

interpretation read_request: fixed_codec read_request_serialize read_request_parse 12
proof unfold_locales
  fix r :: ads_read_request and rest :: "u8 list"
  show "length (read_request_serialize r) = 12" by simp
  show "read_request_parse (read_request_serialize r @ rest) = Ok r"
    by (simp add: read_request_parse_def read_request_serialize_def u32_at_def byte_simps)
next
  fix bs :: "u8 list"
  assume "length bs < 12"
  then show "\<exists>e. read_request_parse bs = Err e" by (simp add: read_request_parse_def)
next
  fix bs :: "u8 list"
  assume len: "12 \<le> length bs"
  have "take 12 bs = bytes_at 0 12 bs" by (simp add: bytes_at_def)
  then show "\<exists>r. read_request_parse bs = Ok r \<and> read_request_serialize r = take 12 bs"
    using len
    by (simp add: read_request_parse_def read_request_serialize_def u32_at_def u32_to_from_le append_bytes_at)
qed

lemma length_read_response [simp]: "length (read_response_serialize r) = 8 + length (rs_data r)"
  by (simp add: read_response_serialize_def)

interpretation read_response: codec read_response_serialize read_response_parse "\<lambda>r. length (rs_data r) < 2 ^ 32"
proof
  fix r :: ads_read_response
  assume "length (rs_data r) < 2 ^ 32"
  then have "unat (of_nat (length (rs_data r)) :: u32) = length (rs_data r)" by (simp add: unat_of_nat)
  then show "read_response_parse (read_response_serialize r) = Ok r"
    by (simp add: read_response_parse_def read_response_serialize_def u32_at_def byte_simps)
qed

section \<open>Nothing a peer sends makes the client panic\<close>

lemma read_exact_not_Panic [simp]: "read_exact n s \<noteq> (Panic, s')"
  by (simp add: read_exact_def)

lemma check_read_reply_not_Panic [simp]: "check_read_reply rest \<noteq> Panic"
  by (simp add: check_read_reply_def ams_header_parse_def read_response_parse_def bind_res_Panic_iff Let_def)

lemma receive_reply_not_Panic [simp]: "receive_reply s \<noteq> (Panic, s')"
  by (auto simp: receive_reply_def ams_tcp_header_parse_def split: prod.splits res.splits)

lemma ads_read_not_Panic [simp]: "ads_read grp off len c \<noteq> (Panic, c')"
  by (auto simp: ads_read_def Let_def split: prod.splits)

lemma upload_info_parse_not_Panic [simp]: "upload_info_parse data \<noteq> Panic"
  by (simp add: upload_info_parse_def)

lemma parse_symbol_table_not_Panic [simp]: "parse_symbol_table data \<noteq> Panic"
  using symbol_loop_yields [of "[]" data 0] by (auto simp: parse_symbol_table_def yields_def)

lemma read_symbol_info_not_Panic [simp]: "read_symbol_info c \<noteq> (Panic, c')"
  by (auto simp: read_symbol_info_def bind_res_Panic_iff split: prod.splits if_splits)

lemma read_symbol_table_not_Panic: "read_symbol_table c \<noteq> (Panic, c')"
  by (auto simp: read_symbol_table_def bind_res_Panic_iff split: prod.splits res.splits if_splits)

section \<open>A server with a symbol table\<close>

text \<open>
  A controller that answers read requests for the upload information and the upload of the table
  \<open>es\<close>, built with the response function of the source.
\<close>

definition table_bytes :: "ads_symbol_entry list \<Rightarrow> u8 list" where
  "table_bytes es = concat (map symbol_serialize es)"

definition server_data :: "ads_symbol_entry list \<Rightarrow> ads_read_request \<Rightarrow> u8 list" where
  "server_data es r =
     (if rd_index_group r = ADSIGRP_SYM_UPLOADINFO then
        upload_info_serialize \<lparr>symbol_count = of_nat (length es), symbol_size = of_nat (length (table_bytes es))\<rparr>
      else take (unat (rd_length r)) (table_bytes es))"

definition symbol_server :: "ads_symbol_entry list \<Rightarrow> nat \<Rightarrow> u8 list \<Rightarrow> u8 list" where
  "symbol_server es n request =
     (case ams_tcp_frame_parse request of
        Ok f \<Rightarrow>
          (case read_request_parse (tcp_payload f) of
             Ok r \<Rightarrow> ams_tcp_frame_serialize (build_read_response_frame f 0 (server_data es r))
           | _ \<Rightarrow> [])
      | _ \<Rightarrow> [])"

lemma request_frame_ok: "tcp_frame_ok (build_read_request_frame a b c d grp off len invoke)"
  by (simp add: tcp_frame_ok_def build_read_request_frame_def Let_def)

lemma server_answers:
  "symbol_server es n (ams_tcp_frame_serialize (build_read_request_frame a b c d grp off len invoke)) =
   ams_tcp_frame_serialize (build_read_response_frame (build_read_request_frame a b c d grp off len invoke) 0
     (server_data es \<lparr>rd_index_group = grp, rd_index_offset = off, rd_length = len\<rparr>))"
  using tcp_frame.dec_enc [OF request_frame_ok] read_request.dec_append [where rest = "[]"]
  by (simp add: symbol_server_def) (simp add: build_read_request_frame_def Let_def)

lemma receive_response_frame:
  assumes "st_inbox s = ams_tcp_frame_serialize (build_read_response_frame f 0 data)" and "length data + 40 < 2 ^ 32"
  shows "receive_reply s = (Ok \<lparr>rs_result = 0, rs_data = data\<rparr>, s\<lparr>st_inbox := []\<rparr>)"
proof -
  let ?resp = "read_response_serialize \<lparr>rs_result = 0, rs_data = data\<rparr>"
  let ?g = "build_read_response_frame f 0 data"
  have len: "unat (32 + of_nat (length ?resp) :: u32) = 32 + length ?resp"
    using assms(2) by (simp add: unat_word_ariths unat_of_nat)
  have g: "tcp_data_length (tcp_header ?g) = 32 + of_nat (length ?resp)" "tcp_payload ?g = ?resp"
      "state_flags (tcp_ams_header ?g) = ADS_STATE_RESPONSE" "error_code (tcp_ams_header ?g) = 0"
    by (simp_all add: build_read_response_frame_def ams_tcp_frame_make_response_def Let_def ams_header_make_response_def)
  have inbox: "st_inbox s = ams_tcp_header_serialize (tcp_header ?g) @ ams_header_serialize (tcp_ams_header ?g) @ ?resp"
    using assms(1) g(2) by (simp add: ams_tcp_frame_serialize_def)
  have "check_read_reply (ams_header_serialize (tcp_ams_header ?g) @ ?resp) = Ok \<lparr>rs_result = 0, rs_data = data\<rparr>"
    using header.dec_append [of "tcp_ams_header ?g" "[]"] read_response.dec_enc assms(2) g(3,4)
    by (simp add: check_read_reply_def)
  then show ?thesis
    using tcp_header.dec_append [of "tcp_header ?g" "[]"] len g(1)
    by (simp add: receive_reply_def read_exact_def inbox)
qed

text \<open>Nothing is left to read, and from now on the peer of the stream is that server.\<close>

definition serves :: "ads_symbol_entry list \<Rightarrow> tcp_stream \<Rightarrow> bool" where
  "serves es s \<longleftrightarrow> st_inbox s = [] \<and> (\<forall>n\<ge>st_writes s. st_peer s n = symbol_server es n)"

lemma ads_read_server:
  assumes "serves es (cl_stream c)"
    and "data = server_data es \<lparr>rd_index_group = grp, rd_index_offset = off, rd_length = len\<rparr>"
    and "length data + 40 < 2 ^ 32"
  shows "\<exists>c'. ads_read grp off len c = (Ok \<lparr>rs_result = 0, rs_data = data\<rparr>, c') \<and> serves es (cl_stream c')"
proof -
  let ?f = "build_read_request_frame (cl_source_net_id c) (cl_source_port c) (cl_target_net_id c)
            (cl_target_port c) grp off len (cl_invoke_id c)"
  let ?s = "write_all (ams_tcp_frame_serialize ?f) (cl_stream c)"
  have "receive_reply ?s = (Ok \<lparr>rs_result = 0, rs_data = data\<rparr>, ?s\<lparr>st_inbox := []\<rparr>)"
    using assms by (intro receive_response_frame) (simp_all add: write_all_def server_answers serves_def)
  then show ?thesis using assms(1) by (simp add: ads_read_def write_all_def serves_def)
qed

lemma read_symbol_table_server:
  assumes server: "serves es (cl_stream c)" and es: "list_all symbol_ok es"
    and size: "length (table_bytes es) + 40 < 2 ^ 32"
  shows "fst (read_symbol_table c) = Ok es"
proof -
  let ?info = "\<lparr>symbol_count = of_nat (length es), symbol_size = of_nat (length (table_bytes es)) :: u32\<rparr>"
  have n: "unat (of_nat (length (table_bytes es)) :: u32) = length (table_bytes es)"
    using size by (simp add: unat_of_nat)
  have "length (upload_info_serialize ?info) = 8" by (rule upload_info.enc_width)
  then obtain c1 where c1: "ads_read ADSIGRP_SYM_UPLOADINFO 0 8 c = (Ok \<lparr>rs_result = 0, rs_data = upload_info_serialize ?info\<rparr>, c1)"
      "serves es (cl_stream c1)"
    using ads_read_server [OF server refl, of ADSIGRP_SYM_UPLOADINFO 0 8] by (auto simp: server_data_def)
  have info: "read_symbol_info c = (Ok ?info, c1)"
    using c1(1) upload_info.dec_append [of ?info "[]"] by (simp add: read_symbol_info_def)
  obtain c2 where "ads_read ADSIGRP_SYM_UPLOAD 0 (symbol_size ?info) c1 = (Ok \<lparr>rs_result = 0, rs_data = table_bytes es\<rparr>, c2)"
    using ads_read_server [OF c1(2) refl, of ADSIGRP_SYM_UPLOAD 0 "symbol_size ?info"] size n
    by (auto simp: server_data_def ADSIGRP_SYM_UPLOAD_def ADSIGRP_SYM_UPLOADINFO_def)
  then show ?thesis
    using symbol_loop_serialized [OF es, of 0 "table_bytes es" "[]"] info
    by (simp add: read_symbol_table_def parse_symbol_table_def table_bytes_def)
qed

text \<open>
  C18. The client never panics, whatever bytes the peer sends. And from a controller that answers
  read requests properly it downloads exactly that controller's symbol table: the request frames, the
  reply frames, the announced sizes and the table survive the two exchanges.
\<close>

theorem symbols_downloaded:
  "read_symbol_table c \<noteq> (Panic, c') \<and>
   (serves es (cl_stream c) \<longrightarrow> list_all symbol_ok es \<longrightarrow> length (table_bytes es) + 40 < 2 ^ 32 \<longrightarrow>
    fst (read_symbol_table c) = Ok es)"
  by (simp add: read_symbol_table_not_Panic read_symbol_table_server)

definition sample_client :: ads_client where
  "sample_client = client_from_stream \<lparr>st_inbox = [], st_writes = 0, st_peer = symbol_server [sample_symbol]\<rparr>
     (AmsNetId 192 168 0 1 1 1) 40000 (AmsNetId 5 1 2 3 1 1) 851"

lemma sample_table_small: "length (table_bytes [sample_symbol]) + 40 < 2 ^ 32"
  by (simp add: table_bytes_def length_symbol_serialize sample_symbol_def)

theorem symbols_downloaded_witness: "fst (read_symbol_table sample_client) = Ok [sample_symbol]"
proof -
  have "serves [sample_symbol] (cl_stream sample_client)"
    by (simp add: sample_client_def client_from_stream_def serves_def)
  then show ?thesis
    using symbols_downloaded [of sample_client _ "[sample_symbol]"] sample_symbol_ok sample_table_small by simp
qed

end
