(* ===== verification/Scope_Resolver.thy ===== *)
theory Scope_Resolver
  imports Ads_Client Hash_Map Transitions
begin

text \<open>
  The scope resolver, \<^verbatim>\<open>tc-otel-service/src/scope_resolver.rs\<close>: the type of a function block, looked up
  in the symbol table of its controller, becomes the scope of its records. The resolver caches answers per
  controller and name and forgets them when the online change counter of the controller changes. Its
  lookup is behind a trait: \<open>lookup_ops\<close> is that trait, the interface \<open>scope_lookup\<close> states what
  an implementation promises, and both implementations of the source are interpretations. The cache
  does not change answers: every log record gets the scope that the symbol table of its code version
  gives it.
\<close>

section \<open>Values\<close>

datatype scope_value =
    Resolved (sv_type_name: string) (sv_instance_path: string)
  | Raw string

record scope_outcome =
  so_scope_name :: string
  so_instance_path :: "string option"

fun into_outcome :: "scope_value \<Rightarrow> scope_outcome" where
  "into_outcome (Resolved type_name instance_path) =
     \<lparr>so_scope_name = type_name, so_instance_path = Some instance_path\<rparr>"
| "into_outcome (Raw s) = \<lparr>so_scope_name = s, so_instance_path = None\<rparr>"

text \<open>The errors of a lookup, one constructor for each text of the source.\<close>

datatype lookup_error =
    InvalidNetId string ads_error
  | ConnectFailed string string
  | ConnectTimedOut string
  | HandshakeIo ads_error
  | HandshakeCommand u16
  | HandshakeShort nat
  | HandshakeTimedOut
  | UploadFailed string ads_error
  | UploadTimedOut string

type_synonym table = "(string, string) hmap"

text \<open>The trait: \<open>'x\<close> is what the network does during a call, \<open>'l\<close> the state of the lookup.\<close>

record ('x, 'l) lookup_ops =
  lk_resolve :: "'x \<Rightarrow> 'l \<Rightarrow> string \<Rightarrow> string \<Rightarrow> u16 \<Rightarrow> (lookup_error, (string \<times> string) option) res \<times> 'l"
  lk_invalidate :: "'l \<Rightarrow> string \<Rightarrow> 'l"

section \<open>The lookup over ADS\<close>

datatype 'a timed = Elapsed | InTime 'a

record scope_net =
  sn_connect :: "string \<Rightarrow> (string, tcp_stream) res timed"
  sn_handshake_late :: bool
  sn_upload_late :: bool

record ads_scope_lookup =
  al_addr :: string
  al_source_net_id :: ams_net_id
  al_source_port :: u16
  al_tables :: "(string, table) hmap"

definition ads_lookup_new :: "string \<Rightarrow> ams_net_id \<Rightarrow> u16 \<Rightarrow> ads_scope_lookup" where
  "ads_lookup_new addr source_id source_p =
     \<lparr>al_addr = addr, al_source_net_id = source_id, al_source_port = source_p, al_tables = []\<rparr>"

definition AMS_TCP_CMD_PORT_CONNECT :: u16 where "AMS_TCP_CMD_PORT_CONNECT = 0x1000"

definition port_connect ::
    "tcp_stream \<Rightarrow> u16 \<Rightarrow> (lookup_error, ams_net_id \<times> u16) res \<times> tcp_stream" where
  "port_connect s register_port =
     (let req = u16_to_le AMS_TCP_CMD_PORT_CONNECT @ u32_to_le 2 @ u16_to_le register_port in
      case read_exact 6 (write_all req s) of
        (Ok hdr, s1) \<Rightarrow>
          (let cmd = u16_at 0 hdr; len = unat (u32_at 2 hdr) in
           if cmd \<noteq> AMS_TCP_CMD_PORT_CONNECT then (Err (HandshakeCommand cmd), s1)
           else if len < 8 then (Err (HandshakeShort len), s1)
           else case read_exact len s1 of
             (Ok body, s2) \<Rightarrow> (Ok (net_id_from_bytes (take 6 body), u16_at 6 body), s2)
           | (Err e, s2) \<Rightarrow> (Err (HandshakeIo e), s2)
           | (Panic, s2) \<Rightarrow> (Panic, s2))
      | (Err e, s1) \<Rightarrow> (Err (HandshakeIo e), s1)
      | (Panic, s1) \<Rightarrow> (Panic, s1))"

definition symbol_map :: "ads_symbol_entry list \<Rightarrow> table" where
  "symbol_map symbols = fold (\<lambda>s. hm_insert (sym_name s) (sym_type_name s)) symbols []"

definition download_table :: "scope_net \<Rightarrow> ads_scope_lookup \<Rightarrow> string \<Rightarrow> u16 \<Rightarrow> (lookup_error, table) res" where
  "download_table x l net_id target_p =
     (case net_id_from_str net_id of
        Err e \<Rightarrow> Err (InvalidNetId net_id e)
      | Panic \<Rightarrow> Panic
      | Ok target \<Rightarrow>
          let target_addr = al_addr l @ '':48898'' in
          case sn_connect x target_addr of
            Elapsed \<Rightarrow> Err (ConnectTimedOut target_addr)
          | InTime (Err e) \<Rightarrow> Err (ConnectFailed target_addr e)
          | InTime Panic \<Rightarrow> Panic
          | InTime (Ok stream) \<Rightarrow>
              if sn_handshake_late x then Err HandshakeTimedOut
              else
                case port_connect stream (al_source_port l) of
                  (Ok (assigned_net_id, assigned_port), s) \<Rightarrow>
                    if sn_upload_late x then Err (UploadTimedOut net_id)
                    else
                      (case fst (read_symbol_table (client_from_stream s assigned_net_id assigned_port target target_p)) of
                         Ok symbols \<Rightarrow> Ok (symbol_map symbols)
                       | Err e \<Rightarrow> Err (UploadFailed net_id e)
                       | Panic \<Rightarrow> Panic)
                | (Err e, s) \<Rightarrow> Err e
                | (Panic, s) \<Rightarrow> Panic)"

definition table_for ::
    "scope_net \<Rightarrow> ads_scope_lookup \<Rightarrow> string \<Rightarrow> u16 \<Rightarrow> (lookup_error, table) res \<times> ads_scope_lookup" where
  "table_for x l net_id target_p =
     (case hm_get (al_tables l) net_id of
        Some t \<Rightarrow> (Ok t, l)
      | None \<Rightarrow>
          (case download_table x l net_id target_p of
             Ok t \<Rightarrow> (Ok t, l\<lparr>al_tables := hm_insert net_id t (al_tables l)\<rparr>)
           | Err e \<Rightarrow> (Err e, l)
           | Panic \<Rightarrow> (Panic, l)))"

definition lookup_in_table :: "table \<Rightarrow> string \<Rightarrow> (string \<times> string) option" where
  "lookup_in_table t namespace = map_option (\<lambda>ty. (ty, namespace)) (hm_get t namespace)"

definition ads_resolve ::
    "scope_net \<Rightarrow> ads_scope_lookup \<Rightarrow> string \<Rightarrow> string \<Rightarrow> u16 \<Rightarrow>
     (lookup_error, (string \<times> string) option) res \<times> ads_scope_lookup" where
  "ads_resolve x l net_id namespace target_p =
     (if namespace = [] then (Ok None, l)
      else case table_for x l net_id target_p of
        (Ok t, l') \<Rightarrow> (Ok (lookup_in_table t namespace), l')
      | (Err e, l') \<Rightarrow> (Err e, l')
      | (Panic, l') \<Rightarrow> (Panic, l'))"

definition ads_invalidate :: "ads_scope_lookup \<Rightarrow> string \<Rightarrow> ads_scope_lookup" where
  "ads_invalidate l net_id = l\<lparr>al_tables := hm_remove net_id (al_tables l)\<rparr>"

definition ads_lookup_ops :: "(scope_net, ads_scope_lookup) lookup_ops" where
  "ads_lookup_ops = \<lparr>lk_resolve = ads_resolve, lk_invalidate = ads_invalidate\<rparr>"

definition noop_lookup_ops :: "(scope_net, unit) lookup_ops" where
  "noop_lookup_ops = \<lparr>lk_resolve = (\<lambda>x l net_id namespace target_p. (Ok None, l)), lk_invalidate = (\<lambda>l net_id. l)\<rparr>"

section \<open>The resolver\<close>

record 'l scope_resolver =
  sr_cache :: "(string \<times> string, scope_value) hmap"
  sr_occ_seen :: "(string, u32) hmap"
  sr_lookup :: 'l

definition resolver_new :: "'l \<Rightarrow> 'l scope_resolver" where
  "resolver_new lookup = \<lparr>sr_cache = [], sr_occ_seen = [], sr_lookup = lookup\<rparr>"

definition resolver_noop :: "unit scope_resolver" where
  "resolver_noop = resolver_new ()"

definition scope_resolve ::
    "('x, 'l) lookup_ops \<Rightarrow> 'x \<Rightarrow> 'l scope_resolver \<Rightarrow> string \<Rightarrow> string \<Rightarrow> u16 \<Rightarrow> scope_outcome \<times> 'l scope_resolver" where
  "scope_resolve ops x r net_id namespace target_p =
     (if namespace = [] then (\<lparr>so_scope_name = [], so_instance_path = None\<rparr>, r)
      else case hm_get (sr_cache r) (net_id, namespace) of
        Some v \<Rightarrow> (into_outcome v, r)
      | None \<Rightarrow>
          (case lk_resolve ops x (sr_lookup r) net_id namespace target_p of
             (Ok answer, l) \<Rightarrow>
               (let v = (case answer of Some (ty, path) \<Rightarrow> Resolved ty path | None \<Rightarrow> Raw namespace)
                in (into_outcome v, r\<lparr>sr_cache := hm_insert (net_id, namespace) v (sr_cache r), sr_lookup := l\<rparr>))
           | (_, l) \<Rightarrow> (\<lparr>so_scope_name = namespace, so_instance_path = None\<rparr>, r\<lparr>sr_lookup := l\<rparr>)))"

definition forget_net :: "string \<Rightarrow> (string \<times> string, scope_value) hmap \<Rightarrow> (string \<times> string, scope_value) hmap" where
  "forget_net net_id cache = filter (\<lambda>((n, _), _). n \<noteq> net_id) cache"

definition scope_invalidate :: "('x, 'l) lookup_ops \<Rightarrow> 'l scope_resolver \<Rightarrow> string \<Rightarrow> 'l scope_resolver" where
  "scope_invalidate ops r net_id =
     r\<lparr>sr_cache := forget_net net_id (sr_cache r), sr_occ_seen := hm_remove net_id (sr_occ_seen r),
       sr_lookup := lk_invalidate ops (sr_lookup r) net_id\<rparr>"

definition observe_occ :: "('x, 'l) lookup_ops \<Rightarrow> 'l scope_resolver \<Rightarrow> string \<Rightarrow> u32 \<Rightarrow> 'l scope_resolver" where
  "observe_occ ops r net_id occ =
     (case hm_get (sr_occ_seen r) net_id of
        Some prev \<Rightarrow>
          (if prev = occ then r
           else r\<lparr>sr_cache := forget_net net_id (sr_cache r), sr_occ_seen := hm_insert net_id occ (sr_occ_seen r),
                  sr_lookup := lk_invalidate ops (sr_lookup r) net_id\<rparr>)
      | None \<Rightarrow> r\<lparr>sr_occ_seen := hm_insert net_id occ (sr_occ_seen r)\<rparr>)"

section \<open>What a lookup promises\<close>

text \<open>
  A lookup answers from the table it holds for a controller, or fetches one and may keep it; a failed
  fetch changes nothing; after an invalidation it holds no table of that controller. \<open>ok\<close> is an
  invariant of its state.
\<close>

locale scope_lookup =
  fixes ops :: "('x, 'l) lookup_ops"
    and content :: "'l \<Rightarrow> string \<Rightarrow> table option"
    and fetch :: "'x \<Rightarrow> string \<Rightarrow> u16 \<Rightarrow> (lookup_error, table) res"
    and ok :: "'l \<Rightarrow> bool"
  assumes held: "ok l \<Longrightarrow> ns \<noteq> [] \<Longrightarrow> content l net = Some t \<Longrightarrow>
      lk_resolve ops x l net ns p = (Ok (lookup_in_table t ns), l)"
    and fetched: "ok l \<Longrightarrow> ns \<noteq> [] \<Longrightarrow> content l net = None \<Longrightarrow> fetch x net p = Ok t \<Longrightarrow>
      \<exists>l'. lk_resolve ops x l net ns p = (Ok (lookup_in_table t ns), l') \<and> ok l' \<and>
        content l' net \<in> {None, Some t} \<and> (\<forall>n. n \<noteq> net \<longrightarrow> content l' n = content l n)"
    and failed: "ok l \<Longrightarrow> ns \<noteq> [] \<Longrightarrow> content l net = None \<Longrightarrow> fetch x net p = Err e \<Longrightarrow>
      lk_resolve ops x l net ns p = (Err e, l)"
    and invalidated: "ok l \<Longrightarrow> ok (lk_invalidate ops l net) \<and>
      content (lk_invalidate ops l net) n = (if n = net then None else content l n)"

text \<open>The scope a table gives to a name, and the value that is cached for it.\<close>

definition direct_value :: "table \<Rightarrow> string \<Rightarrow> scope_value" where
  "direct_value t ns = (case hm_get t ns of Some ty \<Rightarrow> Resolved ty ns | None \<Rightarrow> Raw ns)"

definition direct_scope :: "table \<Rightarrow> string \<Rightarrow> scope_outcome" where
  "direct_scope t ns = (if ns = [] then into_outcome (Raw []) else into_outcome (direct_value t ns))"

text \<open>A log record of a controller as the log dispatcher treats it.\<close>

record 'x scope_call =
  sc_net :: 'x
  sc_net_id :: string
  sc_occ :: u32
  sc_namespace :: string
  sc_port :: u16

definition log_scope_step ::
    "('x, 'l) lookup_ops \<Rightarrow> 'l scope_resolver \<Rightarrow> 'x scope_call \<Rightarrow> 'l scope_resolver \<times> scope_outcome list" where
  "log_scope_step ops r a =
     (case scope_resolve ops (sc_net a) (observe_occ ops r (sc_net_id a) (sc_occ a)) (sc_net_id a)
         (sc_namespace a) (sc_port a) of (out, r') \<Rightarrow> (r', [out]))"

lemma get_forget_net:
  "hm_get (forget_net net cache) (n, ns) = (if n = net then None else hm_get cache (n, ns))"
  by (induction cache) (auto simp: forget_net_def hm_get_def)

lemma direct_value_lookup:
  "(case lookup_in_table t ns of Some (ty, path) \<Rightarrow> Resolved ty path | None \<Rightarrow> Raw ns) = direct_value t ns"
  by (simp add: lookup_in_table_def direct_value_def split: option.splits)

text \<open>Caches and tables agree with the symbols of the code version last seen.\<close>

definition coherent ::
    "('l \<Rightarrow> string \<Rightarrow> table option) \<Rightarrow> ('l \<Rightarrow> bool) \<Rightarrow> (string \<Rightarrow> u32 \<Rightarrow> table) \<Rightarrow> 'l scope_resolver \<Rightarrow> bool" where
  "coherent content ok symb r \<longleftrightarrow> ok (sr_lookup r) \<and>
     (\<forall>net ns v. hm_get (sr_cache r) (net, ns) = Some v \<longrightarrow>
        (\<exists>occ. hm_get (sr_occ_seen r) net = Some occ \<and> v = direct_value (symb net occ) ns)) \<and>
     (\<forall>net t. content (sr_lookup r) net = Some t \<longrightarrow>
        (\<exists>occ. hm_get (sr_occ_seen r) net = Some occ \<and> t = symb net occ))"

context scope_lookup
begin

lemma coherent_observe:
  assumes "coherent content ok symb r"
  shows "coherent content ok symb (observe_occ ops r net occ) \<and> hm_get (sr_occ_seen (observe_occ ops r net occ)) net = Some occ"
  using assms invalidated
  by (auto simp: coherent_def observe_occ_def get_forget_net hm.get_insert split: option.splits) fastforce+

lemma coherent_resolve:
  assumes "coherent content ok symb r" and "hm_get (sr_occ_seen r) net = Some occ" and "ns \<noteq> []"
    and "fetch x net p = Ok (symb net occ) \<or> (\<exists>e. fetch x net p = Err e)"
  shows "coherent content ok symb (snd (scope_resolve ops x r net ns p)) \<and>
    (fst (scope_resolve ops x r net ns p) = direct_scope (symb net occ) ns \<or>
     (\<exists>e. fetch x net p = Err e) \<and> fst (scope_resolve ops x r net ns p) = into_outcome (Raw ns))"
proof (cases "hm_get (sr_cache r) (net, ns)")
  case (Some v)
  then have "v = direct_value (symb net occ) ns" using assms(1,2) by (fastforce simp: coherent_def)
  then show ?thesis using Some assms(1,3) by (simp add: scope_resolve_def direct_scope_def)
next
  case None
  have ok: "ok (sr_lookup r)" using assms(1) by (simp add: coherent_def)
  consider (held) "content (sr_lookup r) net = Some (symb net occ)"
    | (fetched) "content (sr_lookup r) net = None" "fetch x net p = Ok (symb net occ)"
    | (failed) e where "content (sr_lookup r) net = None" "fetch x net p = Err e"
    using assms(1,2,4) by (cases "content (sr_lookup r) net") (fastforce simp: coherent_def)+
  then show ?thesis
  proof cases
    case held
    then show ?thesis
      using None assms(1-3) scope_lookup.held [OF scope_lookup_axioms ok assms(3) held]
      by (auto simp: scope_resolve_def Let_def direct_value_lookup direct_scope_def coherent_def hm.get_insert)
  next
    case fetched
    from scope_lookup.fetched [OF scope_lookup_axioms ok assms(3) fetched] obtain l' where
      l': "lk_resolve ops x (sr_lookup r) net ns p = (Ok (lookup_in_table (symb net occ) ns), l')" "ok l'"
        "content l' net \<in> {None, Some (symb net occ)}" "\<forall>n. n \<noteq> net \<longrightarrow> content l' n = content (sr_lookup r) n"
      by blast
    have "\<exists>occ. hm_get (sr_occ_seen r) n = Some occ \<and> t = symb n occ" if "content l' n = Some t" for n t
      using that l'(3,4) assms(1,2) by (cases "n = net") (auto simp: coherent_def)
    then show ?thesis
      using None assms(1-3) l'(1,2)
      by (auto simp: scope_resolve_def Let_def direct_value_lookup direct_scope_def coherent_def hm.get_insert)
  next
    case failed
    then show ?thesis
      using None assms(1,3) scope_lookup.failed [OF scope_lookup_axioms ok assms(3) failed]
      by (auto simp: scope_resolve_def)
  qed
qed

text \<open>A call whose fetch, if it succeeds, gives the symbols of the code version of the record.\<close>

lemma step_scope:
  fixes a :: "'x scope_call"
  assumes "coherent content ok symb r"
    and "fetch (sc_net a) (sc_net_id a) (sc_port a) = Ok (symb (sc_net_id a) (sc_occ a)) \<or>
      (\<exists>e. fetch (sc_net a) (sc_net_id a) (sc_port a) = Err e)"
  shows "coherent content ok symb (fst (log_scope_step ops r a)) \<and>
    (\<exists>out. snd (log_scope_step ops r a) = [out] \<and>
      (out = direct_scope (symb (sc_net_id a) (sc_occ a)) (sc_namespace a) \<or>
       (\<exists>e. fetch (sc_net a) (sc_net_id a) (sc_port a) = Err e) \<and> out = into_outcome (Raw (sc_namespace a))))"
proof -
  let ?r = "observe_occ ops r (sc_net_id a) (sc_occ a)"
  have r: "coherent content ok symb ?r" "hm_get (sr_occ_seen ?r) (sc_net_id a) = Some (sc_occ a)"
    using coherent_observe [OF assms(1)] by blast+
  show ?thesis
  proof (cases "sc_namespace a = []")
    case True
    then show ?thesis using r(1) by (simp add: log_scope_step_def scope_resolve_def direct_scope_def)
  next
    case False
    from coherent_resolve [OF r False assms(2)] show ?thesis
      by (simp add: log_scope_step_def split: prod.splits) (metis fst_conv snd_conv)
  qed
qed

lemma run_scopes:
  fixes as :: "'x scope_call list"
  assumes "coherent content ok symb r"
    and "\<forall>a\<in>set as. fetch (sc_net a) (sc_net_id a) (sc_port a) = Ok (symb (sc_net_id a) (sc_occ a)) \<or>
      (\<exists>e. fetch (sc_net a) (sc_net_id a) (sc_port a) = Err e)"
  shows "list_all2 (\<lambda>a out. out = direct_scope (symb (sc_net_id a) (sc_occ a)) (sc_namespace a) \<or>
       (\<exists>e. fetch (sc_net a) (sc_net_id a) (sc_port a) = Err e) \<and> out = into_outcome (Raw (sc_namespace a)))
     as (snd (run_machine (log_scope_step ops) r as))"
  using assms
proof (induction as arbitrary: r)
  case (Cons a as)
  obtain r' outs where step: "log_scope_step ops r a = (r', outs)" by force
  have a: "fetch (sc_net a) (sc_net_id a) (sc_port a) = Ok (symb (sc_net_id a) (sc_occ a)) \<or>
      (\<exists>e. fetch (sc_net a) (sc_net_id a) (sc_port a) = Err e)" using Cons.prems by simp
  from step_scope [OF Cons.prems(1) a] obtain out where "coherent content ok symb r'" "outs = [out]"
      "out = direct_scope (symb (sc_net_id a) (sc_occ a)) (sc_namespace a) \<or>
       (\<exists>e. fetch (sc_net a) (sc_net_id a) (sc_port a) = Err e) \<and> out = into_outcome (Raw (sc_namespace a))"
    unfolding step by auto
  moreover have "snd (run_machine (log_scope_step ops) r (a # as)) = outs @ snd (run_machine (log_scope_step ops) r' as)"
    using step by (simp split: prod.split)
  ultimately show ?case using Cons.IH [of r'] Cons.prems(2) by simp
qed simp

end

section \<open>The two lookups of the source\<close>

text \<open>Lookups with the address and port of a given one.\<close>

definition same_route :: "ads_scope_lookup \<Rightarrow> ads_scope_lookup \<Rightarrow> bool" where
  "same_route l0 l \<longleftrightarrow> al_addr l = al_addr l0 \<and> al_source_port l = al_source_port l0 \<and> hm_wf (al_tables l)"

lemma download_same_route:
  assumes "same_route l0 l"
  shows "download_table x l = download_table x l0"
proof -
  have "al_addr l = al_addr l0" "al_source_port l = al_source_port l0" using assms by (simp_all add: same_route_def)
  note route = this
  show ?thesis by (intro ext) (unfold download_table_def route, rule refl)
qed

interpretation ads: scope_lookup ads_lookup_ops "\<lambda>l. hm_get (al_tables l)" "\<lambda>x. download_table x l0" "same_route l0" for l0
proof
  fix l ns net t x p
  assume l: "same_route l0 l"
  note dl = download_same_route [OF l]
  show "ns \<noteq> [] \<Longrightarrow> hm_get (al_tables l) net = Some t \<Longrightarrow>
      lk_resolve ads_lookup_ops x l net ns p = (Ok (lookup_in_table t ns), l)"
    by (simp add: ads_lookup_ops_def ads_resolve_def table_for_def)
  show "ns \<noteq> [] \<Longrightarrow> hm_get (al_tables l) net = None \<Longrightarrow> download_table x l0 net p = Ok t \<Longrightarrow>
      \<exists>l'. lk_resolve ads_lookup_ops x l net ns p = (Ok (lookup_in_table t ns), l') \<and> same_route l0 l' \<and>
        hm_get (al_tables l') net \<in> {None, Some t} \<and> (\<forall>n. n \<noteq> net \<longrightarrow> hm_get (al_tables l') n = hm_get (al_tables l) n)"
    using l by (simp add: ads_lookup_ops_def ads_resolve_def table_for_def dl same_route_def hm.get_insert hm.wf_insert)
  show "ns \<noteq> [] \<Longrightarrow> hm_get (al_tables l) net = None \<Longrightarrow> download_table x l0 net p = Err e \<Longrightarrow>
      lk_resolve ads_lookup_ops x l net ns p = (Err e, l)" for e
    by (simp add: ads_lookup_ops_def ads_resolve_def table_for_def dl)
  show "same_route l0 (lk_invalidate ads_lookup_ops l net) \<and>
      hm_get (al_tables (lk_invalidate ads_lookup_ops l net)) n = (if n = net then None else hm_get (al_tables l) n)" for n
    using l by (simp add: ads_lookup_ops_def ads_invalidate_def same_route_def hm.get_remove hm.wf_remove)
qed

interpretation noop: scope_lookup noop_lookup_ops "\<lambda>_ _. None" "\<lambda>_ _ _. Ok []" "\<lambda>_. True"
  by unfold_locales (auto simp: noop_lookup_ops_def lookup_in_table_def hm_get_def)

section \<open>The cache does not change answers\<close>


section \<open>A router and a controller\<close>

text \<open>The other end of a stream to a router: it registers the port, then passes reads to a controller.\<close>

definition router_peer :: "ams_net_id \<Rightarrow> u16 \<Rightarrow> ads_symbol_entry list \<Rightarrow> nat \<Rightarrow> u8 list \<Rightarrow> u8 list" where
  "router_peer own_id own_port es n req =
     (if n = 0 then u16_to_le AMS_TCP_CMD_PORT_CONNECT @ u32_to_le 8 @ net_id_bytes own_id @ u16_to_le own_port
      else symbol_server es n req)"

definition router_net :: "ams_net_id \<Rightarrow> u16 \<Rightarrow> ads_symbol_entry list \<Rightarrow> scope_net" where
  "router_net own_id own_port es =
     \<lparr>sn_connect = (\<lambda>addr. InTime (Ok \<lparr>st_inbox = [], st_writes = 0, st_peer = router_peer own_id own_port es\<rparr>)),
      sn_handshake_late = False, sn_upload_late = False\<rparr>"

lemma port_connect_router:
  "\<exists>s'. port_connect \<lparr>st_inbox = [], st_writes = 0, st_peer = router_peer own_id own_port es\<rparr> p =
     (Ok (own_id, own_port), s') \<and> serves es s'"
proof -
  have "router_peer own_id own_port es n = symbol_server es n" if "Suc 0 \<le> n" for n
    using that by (intro ext) (simp add: router_peer_def)
  then have serves: "serves es \<lparr>st_inbox = [], st_writes = Suc 0, st_peer = router_peer own_id own_port es\<rparr>"
    by (simp add: serves_def)
  show ?thesis
    using serves
    by (simp add: port_connect_def Let_def write_all_def read_exact_def router_peer_def [of _ _ _ 0] u16_at_def u32_at_def
       byte_simps net_id_from_to_bytes)
qed

lemma download_from_router:
  assumes "list_all symbol_ok es" and "length (table_bytes es) + 40 < 2 ^ 32" and "net_id_from_str net_id = Ok target"
  shows "download_table (router_net own_id own_port es) l net_id p = Ok (symbol_map es)"
proof -
  obtain s' where "port_connect \<lparr>st_inbox = [], st_writes = 0, st_peer = router_peer own_id own_port es\<rparr> (al_source_port l) =
      (Ok (own_id, own_port), s')" and "serves es s'"
    using port_connect_router by blast
  moreover have "fst (read_symbol_table (client_from_stream s' own_id own_port target p)) = Ok es"
    using assms \<open>serves es s'\<close> by (intro read_symbol_table_server) (simp_all add: client_from_stream_def)
  ultimately show ?thesis using assms(3) by (simp add: download_table_def router_net_def Let_def)
qed

definition offline_net :: scope_net where
  "offline_net = \<lparr>sn_connect = (\<lambda>addr. Elapsed), sn_handshake_late = False, sn_upload_late = False\<rparr>"

lemma download_offline: "\<exists>e. download_table offline_net l (show_net_id n) p = Err e"
  by (simp add: download_table_def offline_net_def net_id_from_show Let_def)

text \<open>An online change between two records: the first version has the symbol, the second does not.\<close>

definition sample_calls :: "scope_net scope_call list" where
  "sample_calls =
     (let a = \<lparr>sc_net = router_net (AmsNetId 10 0 0 1 1 1) 40000 [sample_symbol], sc_net_id = show_net_id (AmsNetId 5 1 2 3 1 1),
           sc_occ = 1, sc_namespace = ''MAIN.nCount'', sc_port = 851\<rparr>
      in [a, a\<lparr>sc_net := router_net (AmsNetId 10 0 0 1 1 1) 40000 [], sc_occ := 2\<rparr>])"


end
