(* ===== verification/Metric_Mapper.thy ===== *)
theory Metric_Mapper
  imports Config
begin

text \<open>
  Mapping of controller symbols to metric definitions, \<^verbatim>\<open>tc-otel-core/src/metric_mapper.rs\<close>, and
  the choice of the local address, \<^verbatim>\<open>tc-otel-core/src/net.rs\<close>. The properties show which
  definition a metric gets and that an accepted list of definitions is unambiguous.
\<close>

section \<open>The mapper\<close>

record metric_mapper =
  mm_defs :: "(string, custom_metric_def) hmap"

definition mapper_from_config :: "metrics_config \<Rightarrow> metric_mapper" where
  "mapper_from_config config =
     \<lparr>mm_defs = fold (\<lambda>def m. hm_insert (cd_symbol def) def m) (mc_custom_metrics config) []\<rparr>"

definition mapper_len :: "metric_mapper \<Rightarrow> nat" where
  "mapper_len m = length (mm_defs m)"

definition mapper_is_empty :: "metric_mapper \<Rightarrow> bool" where
  "mapper_is_empty m \<longleftrightarrow> mm_defs m = []"

definition mapper_apply :: "metric_mapper \<Rightarrow> metric_entry \<Rightarrow> bool \<times> metric_entry" where
  "mapper_apply m entry =
     (if mm_defs m = [] then (False, entry)
      else
        case hm_get (me_attributes entry) ''plc.symbol'' of
          Some (JString symbol) \<Rightarrow>
            (case hm_get (mm_defs m) symbol of
               Some def \<Rightarrow>
                 (True, entry\<lparr>me_name := cd_metric_name def, me_description := cd_description def,
                    me_unit := cd_unit def, me_kind := to_metric_kind (cd_kind def),
                    me_is_monotonic := cd_is_monotonic def\<rparr>)
             | None \<Rightarrow> (False, entry))
        | _ \<Rightarrow> (False, entry))"

definition at_index :: "nat \<Rightarrow> string \<Rightarrow> string" where
  "at_index i msg = ''custom_metrics['' @ show_nat i @ '']: '' @ msg"

fun source_errors :: "nat \<Rightarrow> custom_metric_def \<Rightarrow> custom_metric_source \<Rightarrow> string list \<Rightarrow> string list" where
  "source_errors i def Push errors = errors"
| "source_errors i def Poll errors =
     push_if (cd_poll def = None) (at_index i ''source=poll requires poll config'')
       (push_if (cd_ams_port def = None) (at_index i ''source=poll requires ams_port'')
          (push_if (cd_ams_net_id def = None) (at_index i ''source=poll requires ams_net_id'') errors))"
| "source_errors i def Notification errors =
     push_if (cd_notification def = None) (at_index i ''source=notification requires notification config'')
       (push_if (cd_ams_port def = None) (at_index i ''source=notification requires ams_port'')
          (push_if (cd_ams_net_id def = None) (at_index i ''source=notification requires ams_net_id'') errors))"

definition validate_def ::
    "nat \<times> custom_metric_def \<Rightarrow> (string, nat) hmap \<times> string list \<Rightarrow> (string, nat) hmap \<times> string list" where
  "validate_def = (\<lambda>(i, def) (seen_symbols, e0).
     let e1 = push_if (cd_symbol def = []) (at_index i ''symbol must not be empty'') e0;
         e2 = push_if (cd_metric_name def = []) (at_index i ''metric_name must not be empty'') e1;
         e3 = (case hm_get seen_symbols (cd_symbol def) of
                 Some prev_idx \<Rightarrow>
                   push_if (cd_symbol def \<noteq> [])
                     (at_index i (''duplicate symbol '' @ quoted (cd_symbol def) @ '' (first at ['' @ show_nat prev_idx @ ''])'')) e2
               | None \<Rightarrow> e2)
     in (hm_insert (cd_symbol def) i seen_symbols, source_errors i def (cd_source def) e3))"

definition mapper_validate :: "custom_metric_def list \<Rightarrow> string list" where
  "mapper_validate defs = snd (fold validate_def (enumerate 0 defs) ([], []))"

section \<open>The local address\<close>

text \<open>
  \<open>if_addrs\<close> is the enumeration of the interfaces by the crate of that name: each interface with its
  loopback flag and its address, an IPv4 address as a 32-bit word.
\<close>

datatype if_addr = V4 u32 | V6

fun show_ipv4 :: "u32 \<Rightarrow> string" where
  "show_ipv4 a =
     show_nat (unat (drop_bit 24 a)) @ ''.'' @ show_nat (unat (drop_bit 16 a AND 255)) @ ''.'' @
     show_nat (unat (drop_bit 8 a AND 255)) @ ''.'' @ show_nat (unat (a AND 255))"

definition is_link_local :: "u32 \<Rightarrow> bool" where
  "is_link_local a \<longleftrightarrow> drop_bit 16 a = 0xA9FE"

fun detect_loop :: "u32 option \<Rightarrow> (bool \<times> if_addr) list \<Rightarrow> string" where
  "detect_loop link_local [] =
     (case link_local of Some ip \<Rightarrow> show_ipv4 ip | None \<Rightarrow> ''127.0.0.1'')"
| "detect_loop link_local ((is_loopback, ip) # rest) =
     (if is_loopback then detect_loop link_local rest
      else case ip of
        V6 \<Rightarrow> detect_loop link_local rest
      | V4 v4 \<Rightarrow>
          if is_link_local v4 then
            detect_loop (if link_local = None then Some v4 else link_local) rest
          else if v4 = 0 then detect_loop link_local rest
          else show_ipv4 v4)"

definition detect :: "(bool \<times> if_addr) list option \<Rightarrow> string" where
  "detect if_addrs = (case if_addrs of Some addrs \<Rightarrow> detect_loop None addrs | None \<Rightarrow> ''127.0.0.1'')"

section \<open>Lookups\<close>

text \<open>The last definition of a symbol, and the definitions that an accepted list contains.\<close>

definition last_def :: "custom_metric_def list \<Rightarrow> string \<Rightarrow> custom_metric_def option" where
  "last_def defs symbol = find (\<lambda>d. cd_symbol d = symbol) (rev defs)"

definition def_ok :: "custom_metric_def \<Rightarrow> bool" where
  "def_ok d \<longleftrightarrow> cd_symbol d \<noteq> [] \<and> cd_metric_name d \<noteq> [] \<and>
     (cd_source d \<noteq> Push \<longrightarrow> cd_ams_net_id d \<noteq> None \<and> cd_ams_port d \<noteq> None) \<and>
     (cd_source d = Poll \<longrightarrow> cd_poll d \<noteq> None) \<and> (cd_source d = Notification \<longrightarrow> cd_notification d \<noteq> None)"

lemma from_config_get:
  "hm_get (mm_defs (mapper_from_config config)) symbol = last_def (mc_custom_metrics config) symbol"
proof -
  have "hm_get (fold (\<lambda>def m. hm_insert (cd_symbol def) def m) defs m) symbol =
      (case last_def defs symbol of Some d \<Rightarrow> Some d | None \<Rightarrow> hm_get m symbol)" for defs m
    by (induction defs arbitrary: m rule: rev_induct) (simp_all add: last_def_def hm_simps)
  then show ?thesis by (simp add: mapper_from_config_def split: option.split)
qed

lemma source_errors_Nil:
  "source_errors i d (cd_source d) es = [] \<longleftrightarrow> es = [] \<and>
     (cd_source d \<noteq> Push \<longrightarrow> cd_ams_net_id d \<noteq> None \<and> cd_ams_port d \<noteq> None) \<and>
     (cd_source d = Poll \<longrightarrow> cd_poll d \<noteq> None) \<and> (cd_source d = Notification \<longrightarrow> cd_notification d \<noteq> None)"
  by (cases "cd_source d") (auto simp: check_simps)

lemma validate_def_Nil:
  "fst (validate_def (n, d) (seen, es)) = hm_insert (cd_symbol d) n seen"
  "snd (validate_def (n, d) (seen, es)) = [] \<longleftrightarrow> es = [] \<and> def_ok d \<and> hm_get seen (cd_symbol d) = None"
  by (cases "hm_get seen (cd_symbol d)";
      auto simp: validate_def_def Let_def source_errors_Nil check_simps def_ok_def)+

lemma validate_fold_Nil:
  "snd (fold validate_def (enumerate n defs) (seen, es)) = [] \<longleftrightarrow>
     es = [] \<and> list_all def_ok defs \<and> distinct (map cd_symbol defs) \<and>
     (\<forall>d\<in>set defs. hm_get seen (cd_symbol d) = None)"
proof (induction defs arbitrary: n seen es)
  case (Cons d defs)
  obtain seen' es' where v: "validate_def (n, d) (seen, es) = (seen', es')" by fastforce
  then have "seen' = hm_insert (cd_symbol d) n seen" "es' = [] \<longleftrightarrow> es = [] \<and> def_ok d \<and> hm_get seen (cd_symbol d) = None"
    using validate_def_Nil [of n d seen es] by simp_all
  then show ?case using v by (auto simp: Cons.IH hm_simps) (metis imageI)
qed simp

lemma last_def_mem: "last_def defs symbol = Some d \<Longrightarrow> d \<in> set defs \<and> cd_symbol d = symbol"
  by (auto simp: last_def_def find_Some_iff) (metis length_rev nth_mem set_rev)

lemma last_def_distinct:
  "distinct (map cd_symbol defs) \<Longrightarrow> d \<in> set defs \<Longrightarrow> last_def defs (cd_symbol d) = Some d"
  by (induction defs rule: rev_induct) (auto simp: last_def_def)

lemma last_def_None: "last_def defs symbol = None \<longleftrightarrow> symbol \<notin> cd_symbol ` set defs"
  by (auto simp: last_def_def find_None_iff)

section \<open>Properties\<close>

text \<open>
  With definitions the check accepts, every definition takes effect: a metric of its symbol gets its
  name, description, unit, kind and monotonicity and keeps everything else. A metric of another symbol,
  or without one, is unchanged, whatever the definitions are. The check accepts exactly the lists of
  complete definitions of different symbols.
\<close>

theorem mapper_applies_definitions:
  "(mapper_validate (mc_custom_metrics c) = [] \<longleftrightarrow>
      list_all def_ok (mc_custom_metrics c) \<and> distinct (map cd_symbol (mc_custom_metrics c))) \<and>
   (mapper_validate (mc_custom_metrics c) = [] \<longrightarrow> d \<in> set (mc_custom_metrics c) \<longrightarrow>
      hm_get (me_attributes entry) ''plc.symbol'' = Some (JString (cd_symbol d)) \<longrightarrow>
      mapper_apply (mapper_from_config c) entry =
        (True, entry\<lparr>me_name := cd_metric_name d, me_description := cd_description d, me_unit := cd_unit d,
           me_kind := to_metric_kind (cd_kind d), me_is_monotonic := cd_is_monotonic d\<rparr>)) \<and>
   ((\<forall>d\<in>set (mc_custom_metrics c). hm_get (me_attributes entry) ''plc.symbol'' \<noteq> Some (JString (cd_symbol d))) \<longrightarrow>
      mapper_apply (mapper_from_config c) entry = (False, entry))"
proof (intro conjI impI)
  show v: "mapper_validate (mc_custom_metrics c) = [] \<longleftrightarrow>
      list_all def_ok (mc_custom_metrics c) \<and> distinct (map cd_symbol (mc_custom_metrics c))"
    by (simp add: mapper_validate_def validate_fold_Nil)
  { assume ok: "mapper_validate (mc_custom_metrics c) = []" "d \<in> set (mc_custom_metrics c)"
      and sym: "hm_get (me_attributes entry) ''plc.symbol'' = Some (JString (cd_symbol d))"
    have get: "hm_get (mm_defs (mapper_from_config c)) (cd_symbol d) = Some d"
      using ok v by (simp add: from_config_get last_def_distinct)
    then have "mm_defs (mapper_from_config c) \<noteq> []" by auto
    then show "mapper_apply (mapper_from_config c) entry =
        (True, entry\<lparr>me_name := cd_metric_name d, me_description := cd_description d, me_unit := cd_unit d,
           me_kind := to_metric_kind (cd_kind d), me_is_monotonic := cd_is_monotonic d\<rparr>)"
      using get sym by (simp add: mapper_apply_def) }
  assume "\<forall>d\<in>set (mc_custom_metrics c). hm_get (me_attributes entry) ''plc.symbol'' \<noteq> Some (JString (cd_symbol d))"
  then have "hm_get (me_attributes entry) ''plc.symbol'' = Some (JString s) \<Longrightarrow>
      hm_get (mm_defs (mapper_from_config c)) s = None" for s
    by (auto simp: from_config_get last_def_None)
  then show "mapper_apply (mapper_from_config c) entry = (False, entry)"
    by (auto simp: mapper_apply_def split: option.splits json.splits)
qed

definition motor_def :: custom_metric_def where
  "motor_def = custom_metric_def_default\<lparr>cd_symbol := ''GVL.temp'', cd_metric_name := ''plc.motor.temp'', cd_unit := ''Cel''\<rparr>"

theorem mapper_applies_definitions_witness:
  "let c = metrics_config_default\<lparr>mc_custom_metrics := [motor_def]\<rparr>;
       entry = (metric_entry_gauge (DateTime 0 0) ''raw'' 0)\<lparr>me_attributes := [(''plc.symbol'', JString ''GVL.temp'')]\<rparr>
   in mapper_validate (mc_custom_metrics c) = [] \<and> fst (mapper_apply (mapper_from_config c) entry) \<and>
      me_name (snd (mapper_apply (mapper_from_config c) entry)) = ''plc.motor.temp''"
proof -
  let ?c = "metrics_config_default\<lparr>mc_custom_metrics := [motor_def]\<rparr>"
  let ?e = "(metric_entry_gauge (DateTime 0 0) ''raw'' 0)\<lparr>me_attributes := [(''plc.symbol'', JString ''GVL.temp'')]\<rparr>"
  have "mapper_validate (mc_custom_metrics ?c) = []"
    using mapper_applies_definitions [of ?c]
    by (simp add: def_ok_def motor_def_def custom_metric_def_default_def)
  then show ?thesis
    using mapper_applies_definitions [of ?c motor_def ?e]
    by (simp add: motor_def_def custom_metric_def_default_def hm_get_def)
qed

end
