(* ===== verification/Batch_Worker.thy ===== *)
theory Batch_Worker
  imports Exporter Json_Lines Scope_Resolver Metric_Mapper
begin

text \<open>
  The workers that collect records into batches, \<^verbatim>\<open>batch_worker\<close> of the log and the metric dispatcher in
  \<^verbatim>\<open>tc-otel-service/src/dispatcher.rs\<close> and the loop of \<^verbatim>\<open>trace_dispatcher.rs\<close>, as machines: the
  inputs are the branches of \<^verbatim>\<open>select!\<close> and the end of a flush, the outputs the batches handed to a
  flush or dropped. A task whose timer is created with a zero interval panics; \<open>alive\<close> says
  that it did not. The interface \<open>batch_worker\<close> holds the accounting that the three machines share.
\<close>

section \<open>Inputs and flushes\<close>

datatype 'i worker_input =
    Recv 'i
  | Tick
  | Reload app_settings
  | ReloadClosed
  | FlushDone

datatype ('x, 'r) flush = Shipped 'x "'r list" | Dropped "'r list"

fun flush_records :: "('x, 'r) flush \<Rightarrow> 'r list" where
  "flush_records (Shipped x b) = b"
| "flush_records (Dropped b) = b"

fun is_shipped :: "('x, 'r) flush \<Rightarrow> bool" where
  "is_shipped (Shipped x b) = True"
| "is_shipped (Dropped b) = False"

text \<open>The permits in use and what happens to a batch.\<close>

definition try_spawn :: "nat \<Rightarrow> nat \<Rightarrow> 'x \<Rightarrow> 'r list \<Rightarrow> nat \<times> ('x, 'r) flush list" where
  "try_spawn cap inflight x b = (if inflight < cap then (inflight + 1, [Shipped x b]) else (inflight, [Dropped b]))"

section \<open>The log worker\<close>

definition MAX_INFLIGHT_FLUSHES :: nat where "MAX_INFLIGHT_FLUSHES = 16"

definition is_otlp_endpoint :: "string \<Rightarrow> bool" where
  "is_otlp_endpoint endpoint = str_contains ''/v1/logs'' endpoint"

definition build_log_exporter ::
    "(string \<Rightarrow> string option) \<Rightarrow> string \<Rightarrow> nat \<Rightarrow> wire_format \<Rightarrow> otel_exporter option" where
  "build_log_exporter env endpoint batch_size fmt =
     (if is_otlp_endpoint endpoint
      then Some (exporter_with_config ((exporter_config_default env)
             \<lparr>xc_endpoint := endpoint, xc_batch_size := batch_size, xc_format := fmt\<rparr>))
      else None)"

record log_worker =
  lw_alive :: bool
  lw_endpoint :: string
  lw_batch_size :: nat
  lw_flush_interval :: u64
  lw_format :: wire_format
  lw_reloads :: bool
  lw_exporter :: "otel_exporter option"
  lw_inflight :: nat
  lw_batch :: "log_record list"

definition log_worker_new ::
    "(string \<Rightarrow> string option) \<Rightarrow> string \<Rightarrow> nat \<Rightarrow> u64 \<Rightarrow> wire_format \<Rightarrow> bool \<Rightarrow> log_worker" where
  "log_worker_new env endpoint batch_size flush_interval fmt reloads =
     \<lparr>lw_alive = (flush_interval \<noteq> 0), lw_endpoint = endpoint, lw_batch_size = batch_size,
      lw_flush_interval = flush_interval, lw_format = fmt, lw_reloads = reloads,
      lw_exporter = build_log_exporter env endpoint batch_size fmt, lw_inflight = 0, lw_batch = []\<rparr>"

type_synonym log_flush = "(string \<times> otel_exporter option, log_record) flush"

definition spawn_flush :: "log_worker \<Rightarrow> log_worker \<times> log_flush list" where
  "spawn_flush w =
     (case try_spawn MAX_INFLIGHT_FLUSHES (lw_inflight w) (lw_endpoint w, lw_exporter w) (lw_batch w) of
        (n, outs) \<Rightarrow> (w\<lparr>lw_inflight := n, lw_batch := []\<rparr>, outs))"

definition log_reload :: "(string \<Rightarrow> string option) \<Rightarrow> app_settings \<Rightarrow> log_worker \<Rightarrow> log_worker" where
  "log_reload env s w =
     (let new_export = as_export s;
          new_endpoint = (case env ''TCOTEL_EXPORT_ENDPOINT'' of Some e \<Rightarrow> e | None \<Rightarrow> ex_endpoint new_export);
          new_format = ex_format new_export;
          new_flush_interval = ex_flush_interval_ms new_export;
          exporter_dirty = (new_endpoint \<noteq> lw_endpoint w \<or> new_format \<noteq> lw_format w)
      in w\<lparr>lw_endpoint := new_endpoint, lw_format := new_format,
           lw_exporter := (if exporter_dirty then build_log_exporter env new_endpoint (lw_batch_size w) new_format
                           else lw_exporter w),
           lw_batch_size := ex_batch_size new_export,
           lw_flush_interval := new_flush_interval,
           lw_alive := (new_flush_interval = lw_flush_interval w \<or> new_flush_interval \<noteq> 0)\<rparr>)"

fun log_worker_step ::
    "(string \<Rightarrow> string option) \<Rightarrow> log_worker \<Rightarrow> log_record worker_input \<Rightarrow> log_worker \<times> log_flush list" where
  "log_worker_step env w FlushDone = (w\<lparr>lw_inflight := lw_inflight w - 1\<rparr>, [])"
| "log_worker_step env w (Recv record) =
     (if \<not> lw_alive w then (w, [])
      else let w' = w\<lparr>lw_batch := lw_batch w @ [record]\<rparr> in
        if length (lw_batch w') \<ge> lw_batch_size w' then spawn_flush w' else (w', []))"
| "log_worker_step env w Tick =
     (if lw_alive w \<and> lw_batch w \<noteq> [] then spawn_flush w else (w, []))"
| "log_worker_step env w (Reload s) =
     (if lw_alive w \<and> lw_reloads w then (log_reload env s w, []) else (w, []))"
| "log_worker_step env w ReloadClosed = (w\<lparr>lw_reloads := False\<rparr>, [])"

text \<open>The export of a batch; \<open>text_of\<close> is the body of a refusal.\<close>

fun otel_error_text :: "otel_error \<Rightarrow> string" where
  "otel_error_text (InvalidRequest s) = ''Invalid OTEL request: '' @ s"
| "otel_error_text (ExportFailed s) = ''OTEL export failed: '' @ s"
| "otel_error_text (ReceiverError s) = ''OTEL receiver error: '' @ s"
| "otel_error_text (JsonError s) = ''JSON parse error: '' @ s"
| "otel_error_text (HttpError s) = ''HTTP error: '' @ s"
| "otel_error_text (SerializationError s) = ''Serialization error: '' @ s"
| "otel_error_text (Internal s) = ''Internal error: '' @ s"

record flush_env =
  fe_checks :: bool
  fe_expand :: "string \<Rightarrow> string"
  fe_ops :: export_ops
  fe_wire :: wire_ops
  fe_text :: text_ops
  fe_order :: "(string, json) iter"
  fe_answers :: "nat \<Rightarrow> http_request \<Rightarrow> http_outcome"
  fe_body :: "http_request \<Rightarrow> string"

definition flush_batch_owned ::
    "flush_env \<Rightarrow> string \<Rightarrow> otel_exporter option \<Rightarrow> log_record list \<Rightarrow> (string, nat) res" where
  "flush_batch_owned F endpoint exporter b =
     (case exporter of
        Some x \<Rightarrow>
          (case export_batch (fe_checks F) (fe_expand F) (fe_ops F) (fe_wire F) (fe_order F) (xp_config x) (fe_answers F) b of
             Ok () \<Rightarrow> Ok (length b)
           | Err e \<Rightarrow> Err (''OTLP export failed: '' @ otel_error_text e)
           | Panic \<Rightarrow> Panic)
      | None \<Rightarrow>
          if eq_ignore_ascii_case endpoint ''stdout'' then Ok (length b)
          else
            let request = \<lparr>rq_url = endpoint, rq_content_type = ''application/stream+json'', rq_authorization = None,
                  rq_body = bytes_of_str (jsonl_payload (fe_text F) (fe_order F) b), rq_timeout_secs = 10\<rparr>
            in case fe_answers F 0 request of
              Failed e \<Rightarrow> Err (''HTTP error: '' @ e)
            | Status success status \<Rightarrow>
                if success then Ok (length b)
                else Err (''Export failed: HTTP '' @ status @ '' - '' @ fe_body F request))"

section \<open>The metric worker\<close>

definition resolve_endpoint :: "app_settings \<Rightarrow> string" where
  "resolve_endpoint s =
     (case mc_export_endpoint (as_metrics s) of
        Some ep \<Rightarrow> ep
      | None \<Rightarrow> metrics_endpoint (ex_endpoint (as_export s)))"

definition resolve_format :: "app_settings \<Rightarrow> wire_format" where
  "resolve_format s =
     (case mc_export_format (as_metrics s) of Some f \<Rightarrow> f | None \<Rightarrow> ex_format (as_export s))"

definition build_export_config :: "(string \<Rightarrow> string option) \<Rightarrow> app_settings \<Rightarrow> exporter_config" where
  "build_export_config env s = (exporter_config_default env)
     \<lparr>xc_endpoint := resolve_endpoint s, xc_batch_size := mc_export_batch_size (as_metrics s),
      xc_max_retries := ex_max_retries (as_export s), xc_timeout_secs := ex_timeout_secs (as_export s),
      xc_format := resolve_format s\<rparr>"

text \<open>The mapper is shared with the dispatcher, which reads it for every metric.\<close>

record metric_worker =
  mw_alive :: bool
  mw_config :: exporter_config
  mw_batch_size :: nat
  mw_flush_interval :: u64
  mw_reloads :: bool
  mw_exporter :: otel_exporter
  mw_inflight :: nat
  mw_batch :: "metric_record list"
  mw_mapper :: metric_mapper

definition metric_worker_new :: "(string \<Rightarrow> string option) \<Rightarrow> app_settings \<Rightarrow> bool \<Rightarrow> metric_worker" where
  "metric_worker_new env s reloads =
     (let cfg = build_export_config env s; flush_interval = mc_export_flush_interval_ms (as_metrics s)
      in \<lparr>mw_alive = (flush_interval \<noteq> 0), mw_config = cfg, mw_batch_size = xc_batch_size cfg,
          mw_flush_interval = flush_interval, mw_reloads = reloads, mw_exporter = exporter_with_config cfg,
          mw_inflight = 0, mw_batch = [], mw_mapper = mapper_from_config (as_metrics s)\<rparr>)"

type_synonym metric_flush = "(otel_exporter, metric_record) flush"

definition spawn_metric_flush :: "metric_worker \<Rightarrow> metric_worker \<times> metric_flush list" where
  "spawn_metric_flush w =
     (case try_spawn MAX_INFLIGHT_FLUSHES (mw_inflight w) (mw_exporter w) (mw_batch w) of
        (n, outs) \<Rightarrow> (w\<lparr>mw_inflight := n, mw_batch := []\<rparr>, outs))"

definition metric_reload :: "(string \<Rightarrow> string option) \<Rightarrow> app_settings \<Rightarrow> metric_worker \<Rightarrow> metric_worker" where
  "metric_reload env s w =
     (let new_cfg = build_export_config env s;
          new_flush_interval = mc_export_flush_interval_ms (as_metrics s);
          exporter_changed =
            (xc_endpoint new_cfg \<noteq> xc_endpoint (mw_config w) \<or> xc_max_retries new_cfg \<noteq> xc_max_retries (mw_config w) \<or>
             xc_timeout_secs new_cfg \<noteq> xc_timeout_secs (mw_config w) \<or> xc_format new_cfg \<noteq> xc_format (mw_config w) \<or>
             xc_batch_size new_cfg \<noteq> xc_batch_size (mw_config w));
          cfg = (if exporter_changed then new_cfg else mw_config w)
      in w\<lparr>mw_config := cfg, mw_exporter := (if exporter_changed then exporter_with_config cfg else mw_exporter w),
           mw_batch_size := xc_batch_size cfg, mw_flush_interval := new_flush_interval,
           mw_alive := (new_flush_interval = mw_flush_interval w \<or> new_flush_interval \<noteq> 0),
           mw_mapper := (if new_flush_interval = mw_flush_interval w \<or> new_flush_interval \<noteq> 0
                         then mapper_from_config (as_metrics s) else mw_mapper w)\<rparr>)"

fun metric_worker_step ::
    "(string \<Rightarrow> string option) \<Rightarrow> metric_worker \<Rightarrow> metric_record worker_input \<Rightarrow> metric_worker \<times> metric_flush list" where
  "metric_worker_step env w FlushDone = (w\<lparr>mw_inflight := mw_inflight w - 1\<rparr>, [])"
| "metric_worker_step env w (Recv record) =
     (if \<not> mw_alive w then (w, [])
      else let w' = w\<lparr>mw_batch := mw_batch w @ [record]\<rparr> in
        if length (mw_batch w') \<ge> mw_batch_size w' then spawn_metric_flush w' else (w', []))"
| "metric_worker_step env w Tick =
     (if mw_alive w \<and> mw_batch w \<noteq> [] then spawn_metric_flush w else (w, []))"
| "metric_worker_step env w (Reload s) =
     (if mw_alive w \<and> mw_reloads w then (metric_reload env s w, []) else (w, []))"
| "metric_worker_step env w ReloadClosed = (w\<lparr>mw_reloads := False\<rparr>, [])"

section \<open>The trace worker\<close>

definition MAX_INFLIGHT_TRACE_FLUSHES :: nat where "MAX_INFLIGHT_TRACE_FLUSHES = 32"

text \<open>\<^verbatim>\<open>as_str\<close> and \<^verbatim>\<open>as_u64\<close> of a JSON value.\<close>

fun json_str :: "json \<Rightarrow> string option" where
  "json_str (JString s) = Some s"
| "json_str v = None"

fun json_u64 :: "json \<Rightarrow> u64 option" where
  "json_u64 (JInt n) = (if 0 \<le> n \<and> n < 2 ^ 64 then Some (word_of_int n) else None)"
| "json_u64 v = None"

definition scope_attribute :: "scope_outcome \<Rightarrow> attrs \<Rightarrow> attrs" where
  "scope_attribute out a =
     (case so_instance_path out of Some path \<Rightarrow> hm_insert ''plc.instance_path'' (JString path) a | None \<Rightarrow> a)"

definition resolve_scope ::
    "('x, 'l) lookup_ops \<Rightarrow> 'x \<Rightarrow> 'l scope_resolver \<Rightarrow> trace_record \<Rightarrow> trace_record \<times> 'l scope_resolver" where
  "resolve_scope ops x r record =
     (if tr_scope_name record = [] then (record, r)
      else
        let net_id = (case hm_get (tr_resource_attributes record) ''plc.ams_net_id'' of
               Some v \<Rightarrow> (case json_str v of Some s \<Rightarrow> s | None \<Rightarrow> []) | None \<Rightarrow> []);
            app_port = ucast (case hm_get (tr_resource_attributes record) ''plc.ams_app_port'' of
               Some v \<Rightarrow> (case json_u64 v of Some n \<Rightarrow> n | None \<Rightarrow> 0) | None \<Rightarrow> 0) :: u16
        in if net_id = [] \<or> app_port = 0 then (record, r)
           else case scope_resolve ops x r net_id (tr_scope_name record) app_port of
             (out, r') \<Rightarrow>
               (record\<lparr>tr_span_attributes := scope_attribute out (tr_span_attributes record),
                       tr_scope_name := so_scope_name out\<rparr>, r'))"

text \<open>The exporter and the batch size of the worker; there is none without an endpoint.\<close>

record 'l trace_worker =
  tw_alive :: bool
  tw_batch_size :: nat
  tw_exporter :: otel_exporter
  tw_inflight :: nat
  tw_batch :: "trace_record list"
  tw_resolver :: "'l scope_resolver"

definition trace_export_config :: "(string \<Rightarrow> string option) \<Rightarrow> app_settings \<Rightarrow> exporter_config" where
  "trace_export_config env s = (exporter_config_default env)
     \<lparr>xc_endpoint := (case tx_endpoint (tc_export (as_traces s)) of
          Some e \<Rightarrow> e | None \<Rightarrow> ''http://localhost:4318/v1/traces''),
      xc_batch_size := tx_batch_size (tc_export (as_traces s)),
      xc_max_retries := ex_max_retries (as_export s), xc_timeout_secs := ex_timeout_secs (as_export s),
      xc_format := (case tx_format (tc_export (as_traces s)) of Some f \<Rightarrow> f | None \<Rightarrow> ex_format (as_export s))\<rparr>"

definition trace_worker_new ::
    "(string \<Rightarrow> string option) \<Rightarrow> app_settings \<Rightarrow> 'l scope_resolver \<Rightarrow> 'l trace_worker" where
  "trace_worker_new env s r =
     \<lparr>tw_alive = (tx_endpoint (tc_export (as_traces s)) \<noteq> None \<and> tx_flush_interval_ms (tc_export (as_traces s)) \<noteq> 0),
      tw_batch_size = tx_batch_size (tc_export (as_traces s)),
      tw_exporter = exporter_with_config (trace_export_config env s), tw_inflight = 0, tw_batch = [], tw_resolver = r\<rparr>"

definition spawn_trace_flush :: "'l trace_worker \<Rightarrow> 'l trace_worker \<times> (otel_exporter, trace_record) flush list" where
  "spawn_trace_flush w =
     (case try_spawn MAX_INFLIGHT_TRACE_FLUSHES (tw_inflight w) (tw_exporter w) (tw_batch w) of
        (n, outs) \<Rightarrow> (w\<lparr>tw_inflight := n, tw_batch := []\<rparr>, outs))"

fun trace_worker_step ::
    "('x, 'l) lookup_ops \<Rightarrow> 'l trace_worker \<Rightarrow> ('x \<times> trace_record) worker_input \<Rightarrow>
     'l trace_worker \<times> (otel_exporter, trace_record) flush list" where
  "trace_worker_step ops w FlushDone = (w\<lparr>tw_inflight := tw_inflight w - 1\<rparr>, [])"
| "trace_worker_step ops w (Recv (x, record)) =
     (if \<not> tw_alive w then (w, [])
      else case resolve_scope ops x (tw_resolver w) record of (record', r) \<Rightarrow>
        let w' = w\<lparr>tw_resolver := r, tw_batch := tw_batch w @ [record']\<rparr> in
        if length (tw_batch w') \<ge> tw_batch_size w' then spawn_trace_flush w' else (w', []))"
| "trace_worker_step ops w Tick =
     (if tw_alive w \<and> tw_batch w \<noteq> [] then spawn_trace_flush w else (w, []))"
| "trace_worker_step ops w _ = (w, [])"

section \<open>Accounting of records\<close>

fun received :: "'i worker_input \<Rightarrow> 'i list" where
  "received (Recv i) = [i]"
| "received _ = []"

text \<open>
  The laws of a worker that is alive, for inputs that keep it so: what it flushes and what it
  still holds is what it held and received, in order; the permits in use stay within the capacity, and
  a batch is dropped only when all are in use; what it holds stays below the bound \<open>B\<close> of the batch
  sizes.
\<close>

locale batch_worker =
  fixes step :: "'w \<Rightarrow> 'i worker_input \<Rightarrow> 'w \<times> ('x, 'r) flush list"
    and held :: "'w \<Rightarrow> 'r list"
    and inflight :: "'w \<Rightarrow> nat"
    and limit :: "'w \<Rightarrow> nat"
    and alive :: "'w \<Rightarrow> bool"
    and cap :: nat
    and B :: nat
    and key_in :: "'i \<Rightarrow> 'k"
    and key_out :: "'r \<Rightarrow> 'k"
    and good :: "'i worker_input \<Rightarrow> bool"
  assumes stays_alive: "alive w \<Longrightarrow> good a \<Longrightarrow> step w a = (w', outs) \<Longrightarrow> alive w'"
    and accounted: "alive w \<Longrightarrow> good a \<Longrightarrow> step w a = (w', outs) \<Longrightarrow>
      map key_out (concat (map flush_records outs) @ held w') = map key_out (held w) @ map key_in (received a)"
    and permits: "inflight w \<le> cap \<Longrightarrow> step w a = (w', outs) \<Longrightarrow> inflight w' \<le> cap"
    and drops: "inflight w \<le> cap \<Longrightarrow> step w a = (w', outs) \<Longrightarrow> Dropped b \<in> set outs \<Longrightarrow> inflight w = cap"
    and bounded: "alive w \<Longrightarrow> good a \<Longrightarrow> step w a = (w', outs) \<Longrightarrow> length (held w) < max 1 B \<Longrightarrow> limit w \<le> B \<Longrightarrow>
      length (held w') < max 1 B \<and> limit w' \<le> B"
begin

lemma accounting:
  assumes "alive w" and "list_all good ins" and "inflight w \<le> cap" and "length (held w) < max 1 B" and "limit w \<le> B"
  shows "alive (fst (run_machine step w ins)) \<and> inflight (fst (run_machine step w ins)) \<le> cap \<and>
    length (held (fst (run_machine step w ins))) < max 1 B \<and>
    map key_out (concat (map flush_records (snd (run_machine step w ins))) @ held (fst (run_machine step w ins))) =
      map key_out (held w) @ map key_in (concat (map received ins))"
  using assms
proof (induction ins arbitrary: w)
  case (Cons a ins)
  obtain w' outs where step: "step w a = (w', outs)" by force
  have a: "good a" using Cons.prems(2) by simp
  have w': "alive w'" "inflight w' \<le> cap" "length (held w') < max 1 B" "limit w' \<le> B"
    using stays_alive [OF Cons.prems(1) a step] permits [OF Cons.prems(3) step]
      bounded [OF Cons.prems(1) a step Cons.prems(4,5)] by simp_all
  note IH = Cons.IH [OF w'(1) _ w'(2-4)]
  have "map key_out (concat (map flush_records outs)) @ map key_out (held w') = map key_out (held w) @ map key_in (received a)"
    using accounted [OF Cons.prems(1) a step] by simp
  then show ?case using IH Cons.prems(2) step by (auto split: prod.splits)
qed simp

lemma drops_when_full:
  assumes "alive w" and "list_all good (ins @ [a])" and "inflight w \<le> cap" and "length (held w) < max 1 B" and "limit w \<le> B"
    and "Dropped b \<in> set (snd (step (fst (run_machine step w ins)) a))"
  shows "inflight (fst (run_machine step w ins)) = cap"
  using accounting [OF assms(1) _ assms(3-5), of ins] assms(2,6) drops
  by (metis list_all_append prod.collapse)

end

section \<open>The three workers keep account\<close>

lemma try_spawn_cases:
  obtains (ship) "n < cap" "try_spawn cap n x b = (n + 1, [Shipped x b])"
  | (drop) "\<not> n < cap" "try_spawn cap n x b = (n, [Dropped b])"
  unfolding try_spawn_def by (cases "n < cap") auto

text \<open>Inputs with which the workers stay alive and their batch sizes below \<open>B\<close>.\<close>

fun log_input_ok :: "nat \<Rightarrow> 'i worker_input \<Rightarrow> bool" where
  "log_input_ok B (Reload s) = (ex_flush_interval_ms (as_export s) \<noteq> 0 \<and> ex_batch_size (as_export s) \<le> B)"
| "log_input_ok B _ = True"

fun metric_input_ok :: "nat \<Rightarrow> 'i worker_input \<Rightarrow> bool" where
  "metric_input_ok B (Reload s) =
     (mc_export_flush_interval_ms (as_metrics s) \<noteq> 0 \<and> mc_export_batch_size (as_metrics s) \<le> B)"
| "metric_input_ok B _ = True"

interpretation logs: batch_worker "log_worker_step env" lw_batch lw_inflight lw_batch_size lw_alive
  MAX_INFLIGHT_FLUSHES B "\<lambda>r. r" "\<lambda>r. r" "log_input_ok B" for env B
proof
  fix w w' :: log_worker and a outs
  assume step: "log_worker_step env w a = (w', outs)"
  show "lw_alive w \<Longrightarrow> log_input_ok B a \<Longrightarrow> lw_alive w'"
    using step by (cases a) (auto simp: spawn_flush_def log_reload_def try_spawn_def Let_def split: if_splits)
  show "lw_alive w \<Longrightarrow> log_input_ok B a \<Longrightarrow>
      map (\<lambda>r. r) (concat (map flush_records outs) @ lw_batch w') = map (\<lambda>r. r) (lw_batch w) @ map (\<lambda>r. r) (received a)"
    using step by (cases a) (auto simp: spawn_flush_def log_reload_def try_spawn_def Let_def split: if_splits)
  show "lw_inflight w \<le> MAX_INFLIGHT_FLUSHES \<Longrightarrow> lw_inflight w' \<le> MAX_INFLIGHT_FLUSHES"
    using step by (cases a) (auto simp: spawn_flush_def log_reload_def try_spawn_def Let_def split: if_splits)
  show "lw_inflight w \<le> MAX_INFLIGHT_FLUSHES \<Longrightarrow> Dropped b \<in> set outs \<Longrightarrow> lw_inflight w = MAX_INFLIGHT_FLUSHES" for b
    using step by (cases a) (auto simp: spawn_flush_def log_reload_def try_spawn_def Let_def split: if_splits)
  show "lw_alive w \<Longrightarrow> log_input_ok B a \<Longrightarrow> length (lw_batch w) < max 1 B \<Longrightarrow> lw_batch_size w \<le> B \<Longrightarrow>
      length (lw_batch w') < max 1 B \<and> lw_batch_size w' \<le> B"
    using step by (cases a) (auto simp: spawn_flush_def log_reload_def try_spawn_def Let_def split: if_splits)
qed

interpretation metrics: batch_worker "metric_worker_step env" mw_batch mw_inflight mw_batch_size mw_alive
  MAX_INFLIGHT_FLUSHES B "\<lambda>r. r" "\<lambda>r. r" "metric_input_ok B" for env B
proof
  fix w w' :: metric_worker and a outs
  assume step: "metric_worker_step env w a = (w', outs)"
  show "mw_alive w \<Longrightarrow> metric_input_ok B a \<Longrightarrow> mw_alive w'"
    using step by (cases a) (auto simp: spawn_metric_flush_def metric_reload_def try_spawn_def Let_def split: if_splits)
  show "mw_alive w \<Longrightarrow> metric_input_ok B a \<Longrightarrow>
      map (\<lambda>r. r) (concat (map flush_records outs) @ mw_batch w') = map (\<lambda>r. r) (mw_batch w) @ map (\<lambda>r. r) (received a)"
    using step by (cases a) (auto simp: spawn_metric_flush_def metric_reload_def try_spawn_def Let_def split: if_splits)
  show "mw_inflight w \<le> MAX_INFLIGHT_FLUSHES \<Longrightarrow> mw_inflight w' \<le> MAX_INFLIGHT_FLUSHES"
    using step by (cases a) (auto simp: spawn_metric_flush_def metric_reload_def try_spawn_def Let_def split: if_splits)
  show "mw_inflight w \<le> MAX_INFLIGHT_FLUSHES \<Longrightarrow> Dropped b \<in> set outs \<Longrightarrow> mw_inflight w = MAX_INFLIGHT_FLUSHES" for b
    using step by (cases a) (auto simp: spawn_metric_flush_def metric_reload_def try_spawn_def Let_def split: if_splits)
  show "mw_alive w \<Longrightarrow> metric_input_ok B a \<Longrightarrow> length (mw_batch w) < max 1 B \<Longrightarrow> mw_batch_size w \<le> B \<Longrightarrow>
      length (mw_batch w') < max 1 B \<and> mw_batch_size w' \<le> B"
    using step by (cases a) (auto simp: spawn_metric_flush_def metric_reload_def build_export_config_def try_spawn_def Let_def split: if_splits)
qed

text \<open>A span without the two fields that the resolution of its scope may change.\<close>

definition span_core :: "trace_record \<Rightarrow> trace_record" where
  "span_core r = r\<lparr>tr_scope_name := [], tr_span_attributes := []\<rparr>"

lemma resolve_scope_core: "resolve_scope ops x r record = (record', r') \<Longrightarrow> span_core record' = span_core record"
  by (auto simp: resolve_scope_def span_core_def Let_def split: if_splits prod.splits)

interpretation traces: batch_worker "trace_worker_step ops" tw_batch tw_inflight tw_batch_size tw_alive
  MAX_INFLIGHT_TRACE_FLUSHES B "\<lambda>(x, r). span_core r" span_core "\<lambda>_. True" for ops B
proof
  fix w w' :: "'b trace_worker" and a outs
  assume step: "trace_worker_step ops w a = (w', outs)"
  show "tw_alive w \<Longrightarrow> tw_alive w'"
    using step by (cases "(ops, w, a)" rule: trace_worker_step.cases)
      (auto simp: spawn_trace_flush_def try_spawn_def Let_def split: if_splits prod.splits)
  show "tw_alive w \<Longrightarrow> map span_core (concat (map flush_records outs) @ tw_batch w') =
      map span_core (tw_batch w) @ map (\<lambda>(x, r). span_core r) (received a)"
    using step by (cases "(ops, w, a)" rule: trace_worker_step.cases)
      (auto simp: spawn_trace_flush_def try_spawn_def Let_def dest!: resolve_scope_core split: if_splits prod.splits)
  show "tw_inflight w \<le> MAX_INFLIGHT_TRACE_FLUSHES \<Longrightarrow> tw_inflight w' \<le> MAX_INFLIGHT_TRACE_FLUSHES"
    using step by (cases "(ops, w, a)" rule: trace_worker_step.cases)
      (auto simp: spawn_trace_flush_def try_spawn_def Let_def split: if_splits prod.splits)
  show "tw_inflight w \<le> MAX_INFLIGHT_TRACE_FLUSHES \<Longrightarrow> Dropped b \<in> set outs \<Longrightarrow>
      tw_inflight w = MAX_INFLIGHT_TRACE_FLUSHES" for b
    using step by (cases "(ops, w, a)" rule: trace_worker_step.cases)
      (auto simp: spawn_trace_flush_def try_spawn_def Let_def split: if_splits prod.splits)
  show "tw_alive w \<Longrightarrow> length (tw_batch w) < max 1 B \<Longrightarrow> tw_batch_size w \<le> B \<Longrightarrow>
      length (tw_batch w') < max 1 B \<and> tw_batch_size w' \<le> B"
    using step by (cases "(ops, w, a)" rule: trace_worker_step.cases)
      (auto simp: spawn_trace_flush_def try_spawn_def Let_def split: if_splits prod.splits)
qed

text \<open>What a run of a worker from a new state promises of its inputs.\<close>

definition accounts_for ::
    "('w \<Rightarrow> 'i worker_input \<Rightarrow> 'w \<times> ('x, 'r) flush list) \<Rightarrow> ('w \<Rightarrow> 'r list) \<Rightarrow> ('w \<Rightarrow> nat) \<Rightarrow> nat \<Rightarrow> nat \<Rightarrow>
     ('i \<Rightarrow> 'k) \<Rightarrow> ('r \<Rightarrow> 'k) \<Rightarrow> 'w \<Rightarrow> 'i worker_input list \<Rightarrow> bool" where
  "accounts_for step held inflight cap B key_in key_out w ins \<longleftrightarrow>
     map key_out (concat (map flush_records (snd (run_machine step w ins))) @ held (fst (run_machine step w ins))) =
       map key_in (concat (map received ins)) \<and>
     inflight (fst (run_machine step w ins)) \<le> cap \<and> length (held (fst (run_machine step w ins))) < max 1 B \<and>
     (\<forall>pre a post b. ins = pre @ a # post \<longrightarrow> Dropped b \<in> set (snd (step (fst (run_machine step w pre)) a)) \<longrightarrow>
        inflight (fst (run_machine step w pre)) = cap)"

context batch_worker
begin

lemma accounts:
  assumes "alive w" and "list_all good ins" and "held w = []" and "inflight w = 0" and "limit w \<le> B"
  shows "accounts_for step held inflight cap B key_in key_out w ins"
proof -
  have w: "inflight w \<le> cap" "length (held w) < max 1 B" using assms(3,4) by simp_all
  have "inflight (fst (run_machine step w pre)) = cap"
    if "ins = pre @ a # post" "Dropped b \<in> set (snd (step (fst (run_machine step w pre)) a))" for pre a post b
    using that assms(2) by (intro drops_when_full [OF assms(1) _ w assms(5)]) auto
  then show ?thesis
    using accounting [OF assms(1,2) w assms(5)] assms(3) by (simp add: accounts_for_def)
qed

end

text \<open>
  C16. The three export workers account for every record. Over any interleaving of records, timer ticks,
  changes of the configuration and ends of flushes, the batches handed to a flush or dropped,
  followed by the batch still held, are exactly the records received, in order; a span may only have got
  its scope. At most 16 (32 for traces) flushes are in flight, a batch is dropped only when
  that many are, and a worker holds fewer records than the largest configured batch size. The workers
  run as long as the flush intervals are not zero and traces have an endpoint.
\<close>

theorem workers_account_for_records:
  assumes "flush_interval \<noteq> 0" and "batch_size \<le> B" and "list_all (log_input_ok B) log_ins"
    and "metric_input_ok B (Reload s :: metric_record worker_input)" and "list_all (metric_input_ok B) metric_ins"
    and "tx_endpoint (tc_export (as_traces s)) \<noteq> None" and "tx_flush_interval_ms (tc_export (as_traces s)) \<noteq> 0"
    and "tx_batch_size (tc_export (as_traces s)) \<le> B"
  shows "accounts_for (log_worker_step env) lw_batch lw_inflight 16 B (\<lambda>r. r) (\<lambda>r. r)
      (log_worker_new env endpoint batch_size flush_interval fmt reloads) log_ins \<and>
    accounts_for (metric_worker_step env) mw_batch mw_inflight 16 B (\<lambda>r. r) (\<lambda>r. r)
      (metric_worker_new env s reloads) metric_ins \<and>
    accounts_for (trace_worker_step ops) tw_batch tw_inflight 32 B (\<lambda>(x, r). span_core r) span_core
      (trace_worker_new env s resolver) trace_ins"
proof (intro conjI)
  show "accounts_for (log_worker_step env) lw_batch lw_inflight 16 B (\<lambda>r. r) (\<lambda>r. r)
      (log_worker_new env endpoint batch_size flush_interval fmt reloads) log_ins"
    using assms(1-3) logs.accounts [of "log_worker_new env endpoint batch_size flush_interval fmt reloads" B log_ins env]
    by (simp add: log_worker_new_def MAX_INFLIGHT_FLUSHES_def)
  show "accounts_for (metric_worker_step env) mw_batch mw_inflight 16 B (\<lambda>r. r) (\<lambda>r. r)
      (metric_worker_new env s reloads) metric_ins"
    using assms(4,5) metrics.accounts [of "metric_worker_new env s reloads" B metric_ins env]
    by (simp add: metric_worker_new_def build_export_config_def MAX_INFLIGHT_FLUSHES_def Let_def)
  show "accounts_for (trace_worker_step ops) tw_batch tw_inflight 32 B (\<lambda>(x, r). span_core r) span_core
      (trace_worker_new env s resolver) trace_ins"
    using assms(6-8) traces.accounts [of "trace_worker_new env s resolver" trace_ins B ops]
    by (simp add: trace_worker_new_def MAX_INFLIGHT_TRACE_FLUSHES_def list_all_iff)
qed

definition traced_settings :: app_settings where
  "traced_settings = app_settings_default
     \<lparr>as_traces := traces_config_default\<lparr>tc_export := traces_export_config_default\<lparr>tx_endpoint := Some ''http://t:4318/v1/traces''\<rparr>\<rparr>\<rparr>"

theorem workers_account_for_records_witness:
  "accounts_for (log_worker_step (\<lambda>_. None)) lw_batch lw_inflight 16 2000 (\<lambda>r. r) (\<lambda>r. r)
     (log_worker_new (\<lambda>_. None) ''stdout'' 2 1000 WireJson True)
     (map Recv (map (from_log_entry (\<lambda>m. m) (\<lambda>m. m)) (sample_logs (DateTime 0 0))) @ [Tick, Reload traced_settings, FlushDone])"
proof -
  have "accounts_for (log_worker_step (\<lambda>_. None)) lw_batch lw_inflight 16 2000 (\<lambda>r. r) (\<lambda>r. r)
     (log_worker_new (\<lambda>_. None) ''stdout'' 2 1000 WireJson True)
     (map Recv (map (from_log_entry (\<lambda>m. m) (\<lambda>m. m)) (sample_logs (DateTime 0 0))) @ [Tick, Reload traced_settings, FlushDone]) \<and>
    accounts_for (metric_worker_step (\<lambda>_. None)) mw_batch mw_inflight 16 2000 (\<lambda>r. r) (\<lambda>r. r)
      (metric_worker_new (\<lambda>_. None) traced_settings True) [Tick] \<and>
    accounts_for (trace_worker_step noop_lookup_ops) tw_batch tw_inflight 32 2000 (\<lambda>(x, r). span_core r) span_core
      (trace_worker_new (\<lambda>_. None) traced_settings resolver_noop) [Tick]"
    by (rule workers_account_for_records)
       (simp_all add: traced_settings_def app_settings_default_def metrics_config_default_def export_config_default_def
         default_flush_interval_ms_def default_batch_size_def default_metrics_batch_size_def
         default_metrics_flush_interval_ms_def traces_export_config_default_def default_traces_batch_size_def
         default_traces_flush_interval_ms_def list_all_iff)
  then show ?thesis by (rule conjunct1)
qed

end
