(* ===== verification/Formatter.thy ===== *)
theory Formatter
  imports Models
begin

text \<open>
  Message templates, \<^verbatim>\<open>tc-otel-core/src/formatter.rs\<close>. The scanner works on byte positions and
  slices the template, so it is a loop over an index with the pieces of its state: the text written
  so far, the number of placeholders met and the table of up to 16 names already numbered. The
  reference definition is a rendering of the tokens of the template; the properties show that the
  scanner computes it, on well-formed text and up to 16 different placeholders. The text of a float
  is the argument \<open>ff\<close>, the compiler setting the argument \<open>checks\<close>; the entries of a JSON
  object are listed in the order \<^verbatim>\<open>serde_json\<close> iterates them.
\<close>

section \<open>Values\<close>

fun write_value :: "(f64 \<Rightarrow> string) \<Rightarrow> json \<Rightarrow> string" where
  "write_value ff JNull = ''null''"
| "write_value ff (JBool b) = (if b then ''true'' else ''false'')"
| "write_value ff (JInt n) = show_int n"
| "write_value ff (JFloat w) = ff w"
| "write_value ff (JString s) = s"
| "write_value ff (JArray xs) = ''['' @ join_with '', '' (map (write_value ff) xs) @ '']''"
| "write_value ff (JObject kvs) =
     ''{'' @ join_with '', '' (map (\<lambda>(k, v). k @ ''='' @ write_value ff v) kvs) @ ''}''"

section \<open>Scanning\<close>

function memchr_brace :: "string \<Rightarrow> nat \<Rightarrow> nat option" where
  "memchr_brace bs i =
     (if i < length bs then (if bs ! i = CHR ''}'' then Some i else memchr_brace bs (i + 1))
      else None)"
  by pat_completeness auto
termination
  by (relation "measure (\<lambda>(bs, i). length bs - i)") auto

function literal_end :: "string \<Rightarrow> nat \<Rightarrow> nat" where
  "literal_end bs i = (if i < length bs \<and> bs ! i \<noteq> CHR ''{'' then literal_end bs (i + 1) else i)"
  by pat_completeness auto
termination
  by (relation "measure (\<lambda>(bs, i). length bs - i)") auto

declare memchr_brace.simps [simp del] literal_end.simps [simp del]

text \<open>The state of the scanner: the result, \<open>positional_index\<close> and \<open>seen_names[..seen_count]\<close>.\<close>

record scan =
  sc_result :: string
  sc_positional :: nat
  sc_seen :: "(string \<times> nat) list"

definition push_str :: "string \<Rightarrow> scan \<Rightarrow> scan" where
  "push_str s sc = sc\<lparr>sc_result := sc_result sc @ s\<rparr>"

definition next_index :: "bool \<Rightarrow> nat \<Rightarrow> (unit, nat) res" where
  "next_index checks n =
     (if n + 1 < 2 ^ 64 then Ok (n + 1) else if checks then Panic else Ok 0)"

definition see_numeric :: "string \<Rightarrow> nat \<Rightarrow> scan \<Rightarrow> scan" where
  "see_numeric key arg_index sc =
     (if key \<notin> fst ` set (sc_seen sc) \<and> length (sc_seen sc) < 16
      then sc\<lparr>sc_seen := sc_seen sc @ [(key, arg_index)], sc_positional := sc_positional sc + 1\<rparr>
      else sc)"

definition see_named :: "string \<Rightarrow> scan \<Rightarrow> nat \<times> scan" where
  "see_named key sc =
     (case find (\<lambda>(n, _). n = key) (sc_seen sc) of
        Some (_, idx) \<Rightarrow> (idx, sc)
      | None \<Rightarrow>
          let idx = sc_positional sc + 1;
              sc' = (if length (sc_seen sc) < 16 then sc\<lparr>sc_seen := sc_seen sc @ [(key, idx)]\<rparr> else sc)
          in (idx, sc'\<lparr>sc_positional := sc_positional sc + 1\<rparr>))"

text \<open>What is written for a placeholder and the state after it; \<open>None\<close> if nothing replaces it.\<close>

definition placeholder ::
    "bool \<Rightarrow> (f64 \<Rightarrow> string) \<Rightarrow> (nat, json) hmap \<Rightarrow> (string, json) hmap \<Rightarrow> string \<Rightarrow> scan \<Rightarrow>
     (unit, string option \<times> scan) res" where
  "placeholder checks ff args ctx key sc =
     (case parse_unsigned (2 ^ 64) key of
        Some n \<Rightarrow>
          bind_res (next_index checks n) (\<lambda>arg_index.
            Ok (map_option (write_value ff) (hm_get args arg_index), see_numeric key arg_index sc))
      | None \<Rightarrow>
          if key = [] then Ok (None, sc)
          else
            let (arg_index, sc') = see_named key sc in
            Ok (case hm_get args arg_index of
                  Some v \<Rightarrow> Some (write_value ff v)
                | None \<Rightarrow> map_option (write_value ff) (hm_get ctx key), sc'))"

lemma memchr_brace_bound: "memchr_brace bs i = Some e \<Longrightarrow> i \<le> e \<and> e < length bs \<and> bs ! e = CHR ''}''"
proof (induction bs i rule: memchr_brace.induct)
  case (1 bs i)
  then show ?case by (auto simp: memchr_brace.simps [of bs i] split: if_splits)
qed

lemma literal_end_bound: "i \<le> literal_end bs i"
proof (induction bs i rule: literal_end.induct)
  case (1 bs i)
  then show ?case by (auto simp: literal_end.simps [of bs i])
qed

lemma literal_end_less: "i < length bs \<Longrightarrow> bs ! i \<noteq> CHR ''{'' \<Longrightarrow> i < literal_end bs i"
  using literal_end_bound [of "i + 1" bs] by (simp add: literal_end.simps [of bs i])

function format_loop ::
    "bool \<Rightarrow> (f64 \<Rightarrow> string) \<Rightarrow> (nat, json) hmap \<Rightarrow> (string, json) hmap \<Rightarrow> string \<Rightarrow> nat \<Rightarrow> scan \<Rightarrow>
     (unit, scan) res" where
  "format_loop checks ff args ctx template i sc =
     (if i < length template then
        (if template ! i = CHR ''{'' then
           (case memchr_brace template (i + 1) of
              Some e \<Rightarrow>
                bind_res (str_slice (i + 1) e template) (\<lambda>key.
                bind_res (placeholder checks ff args ctx key sc) (\<lambda>(replaced, sc').
                  case replaced of
                    Some text \<Rightarrow> format_loop checks ff args ctx template (e + 1) (push_str text sc')
                  | None \<Rightarrow>
                      bind_res (str_slice i (e + 1) template) (\<lambda>raw.
                        format_loop checks ff args ctx template (e + 1) (push_str raw sc'))))
            | None \<Rightarrow> format_loop checks ff args ctx template (i + 1) (push_str ''{'' sc))
         else
           bind_res (str_slice i (literal_end template i) template) (\<lambda>text.
             format_loop checks ff args ctx template (literal_end template i) (push_str text sc)))
      else Ok sc)"
  by pat_completeness auto
termination
proof (relation "measure (\<lambda>(_, _, _, _, template, i, _). length template - i)", goal_cases)
  case (5 checks ff args ctx template i sc x)
  then show ?case using literal_end_less [of i template] by (simp add: diff_less_mono2)
qed (auto dest!: memchr_brace_bound simp: diff_less_mono2)

declare format_loop.simps [simp del]

definition format_with_context ::
    "bool \<Rightarrow> (f64 \<Rightarrow> string) \<Rightarrow> string \<Rightarrow> (nat, json) hmap \<Rightarrow> (string, json) hmap \<Rightarrow> (unit, string) res" where
  "format_with_context checks ff template arguments context =
     (if CHR ''{'' \<notin> set template then Ok template
      else bind_res (format_loop checks ff arguments context template 0
             \<lparr>sc_result = [], sc_positional = 0, sc_seen = []\<rparr>) (\<lambda>sc. Ok (sc_result sc)))"

definition message_format :: "bool \<Rightarrow> (f64 \<Rightarrow> string) \<Rightarrow> string \<Rightarrow> (nat, json) hmap \<Rightarrow> (unit, string) res" where
  "message_format checks ff template arguments =
     (if CHR ''{'' \<notin> set template then Ok template
      else format_with_context checks ff template arguments [])"

function extract_loop :: "string \<Rightarrow> nat \<Rightarrow> string list \<Rightarrow> (unit, string list) res" where
  "extract_loop template i placeholders =
     (if i < length template then
        (if template ! i = CHR ''{'' then
           (case memchr_brace template (i + 1) of
              Some e \<Rightarrow>
                bind_res (str_slice (i + 1) e template) (\<lambda>key.
                  extract_loop template (e + 1)
                    (if key \<noteq> [] then placeholders @ [key] else placeholders))
            | None \<Rightarrow> extract_loop template (i + 1) placeholders)
         else extract_loop template (i + 1) placeholders)
      else Ok placeholders)"
  by pat_completeness auto
termination
  by (relation "measure (\<lambda>(template, i, _). length template - i)")
    (auto dest!: memchr_brace_bound simp: diff_less_mono2)

declare extract_loop.simps [simp del]

definition extract_placeholders :: "string \<Rightarrow> (unit, string list) res" where
  "extract_placeholders template = extract_loop template 0 []"

section \<open>The reference definition\<close>

text \<open>
  A template is a sequence of characters and placeholders; an opening brace without a closing one
  is a character. The different non-empty placeholders are numbered by first appearance. A decimal
  placeholder \<open>n\<close> stands for the argument \<open>n + 1\<close>, any other one for the argument of its own
  number or, without such an argument, for the context property of its name.
\<close>

datatype token = Lit char | Hole string

abbreviation to_brace :: "string \<Rightarrow> string" where
  "to_brace \<equiv> takeWhile (\<lambda>c. c \<noteq> CHR ''}'')"

function tokens :: "string \<Rightarrow> token list" where
  "tokens [] = []"
| "tokens (c # cs) =
     (if c = CHR ''{'' \<and> CHR ''}'' \<in> set cs
      then Hole (to_brace cs) # tokens (drop (Suc (length (to_brace cs))) cs)
      else Lit c # tokens cs)"
  by pat_completeness auto
termination
  by (relation "measure length") auto

definition see :: "string \<Rightarrow> string list \<Rightarrow> string list" where
  "see k ns = (if k = [] \<or> k \<in> set ns then ns else ns @ [k])"

fun names_from :: "string list \<Rightarrow> token list \<Rightarrow> string list" where
  "names_from ns [] = ns"
| "names_from ns (Lit c # ts) = names_from ns ts"
| "names_from ns (Hole k # ts) = names_from (see k ns) ts"

definition arg_of :: "string list \<Rightarrow> string \<Rightarrow> nat" where
  "arg_of ns k =
     (case parse_unsigned (2 ^ 64) k of
        Some n \<Rightarrow> (n + 1) mod 2 ^ 64
      | None \<Rightarrow> length (takeWhile (\<lambda>n. n \<noteq> k) ns) + 1)"

definition hole_text ::
    "(f64 \<Rightarrow> string) \<Rightarrow> (nat, json) hmap \<Rightarrow> (string, json) hmap \<Rightarrow> string list \<Rightarrow> string \<Rightarrow> string option" where
  "hole_text ff args ctx ns k =
     (if k = [] then None
      else case hm_get args (arg_of ns k) of
        Some v \<Rightarrow> Some (write_value ff v)
      | None \<Rightarrow>
          if parse_unsigned (2 ^ 64) k = None then map_option (write_value ff) (hm_get ctx k) else None)"

fun render ::
    "(f64 \<Rightarrow> string) \<Rightarrow> (nat, json) hmap \<Rightarrow> (string, json) hmap \<Rightarrow> string list \<Rightarrow> token \<Rightarrow> string" where
  "render ff args ctx ns (Lit c) = [c]"
| "render ff args ctx ns (Hole k) =
     (case hole_text ff args ctx ns k of Some s \<Rightarrow> s | None \<Rightarrow> ''{'' @ k @ ''}'')"

fun index_ok :: "bool \<Rightarrow> token \<Rightarrow> bool" where
  "index_ok checks (Lit c) \<longleftrightarrow> True"
| "index_ok checks (Hole k) \<longleftrightarrow> checks \<longrightarrow> parse_unsigned (2 ^ 64) k \<noteq> Some (2 ^ 64 - 1)"

fun hole_keys :: "token list \<Rightarrow> string list" where
  "hole_keys [] = []"
| "hole_keys (Lit c # ts) = hole_keys ts"
| "hole_keys (Hole k # ts) = (if k = [] then hole_keys ts else k # hole_keys ts)"

section \<open>The scanner computes the reference\<close>

lemma parse_digits_bound: "acc < b \<Longrightarrow> parse_digits b acc s = Some n \<Longrightarrow> n < b"
  by (induction s arbitrary: acc) (auto split: option.splits if_splits)

lemma parse_unsigned_bound: "0 < b \<Longrightarrow> parse_unsigned b s = Some n \<Longrightarrow> n < b"
  by (auto simp: parse_unsigned_def simp del: parse_digits.simps split: list.splits if_splits
      intro: parse_digits_bound [of 0])

lemma memchr_brace_eq:
  "memchr_brace bs i =
     (if CHR ''}'' \<in> set (drop i bs) then Some (i + length (to_brace (drop i bs))) else None)"
proof (induction bs i rule: memchr_brace.induct)
  case (1 bs i)
  show ?case
  proof (cases "i < length bs")
    case True
    then have "drop i bs = bs ! i # drop (Suc i) bs" by (simp add: Cons_nth_drop_Suc)
    then show ?thesis using 1 True by (simp add: memchr_brace.simps [of bs i])
  qed (simp add: memchr_brace.simps [of bs i])
qed

lemma literal_end_eq: "i \<le> length bs \<Longrightarrow>
  literal_end bs i = i + length (takeWhile (\<lambda>c. c \<noteq> CHR ''{'') (drop i bs))"
proof (induction bs i rule: literal_end.induct)
  case (1 bs i)
  show ?case
  proof (cases "i < length bs")
    case True
    then have "drop i bs = bs ! i # drop (Suc i) bs" by (simp add: Cons_nth_drop_Suc)
    then show ?thesis using 1 True by (simp add: literal_end.simps [of bs i])
  qed (simp add: literal_end.simps [of bs i])
qed

lemma tokens_literal:
  "CHR ''{'' \<notin> set xs \<Longrightarrow> tokens (xs @ ys) = map Lit xs @ tokens ys"
  by (induction xs) auto

lemma names_from_Lits: "names_from ns (map Lit xs @ ts) = names_from ns ts"
  by (induction xs) auto

lemma names_from_prefix: "\<exists>zs. names_from ns ts = ns @ zs"
proof (induction ns ts rule: names_from.induct)
  case (3 ns k ts)
  then show ?case by (auto simp: see_def split: if_splits)
qed auto

lemma takeWhile_neq_mem: "k \<in> set ns \<Longrightarrow> takeWhile (\<lambda>n. n \<noteq> k) (ns @ zs) = takeWhile (\<lambda>n. n \<noteq> k) ns"
  by (induction ns) auto

lemma takeWhile_neq_new: "k \<notin> set ns \<Longrightarrow> takeWhile (\<lambda>n. n \<noteq> k) (ns @ [k]) = ns"
  by (induction ns) auto

lemma arg_of_append: "k \<in> set ns \<Longrightarrow> arg_of (ns @ zs) k = arg_of ns k"
  by (simp add: arg_of_def takeWhile_neq_mem split: option.split)

lemma hole_text_append: "k \<in> set ns \<or> k = [] \<Longrightarrow> hole_text ff args ctx (ns @ zs) k = hole_text ff args ctx ns k"
  by (auto simp: hole_text_def arg_of_append)

lemma see_mem: "k \<in> set (see k ns) \<or> k = []"
  by (simp add: see_def)

text \<open>The state after the placeholders \<open>ns\<close>.\<close>

definition scan_ok :: "string list \<Rightarrow> scan \<Rightarrow> bool" where
  "scan_ok ns sc \<longleftrightarrow>
     sc_positional sc = length ns \<and> sc_seen sc = map (\<lambda>k. (k, arg_of ns k)) ns"

lemma scan_ok_extend:
  assumes "scan_ok ns sc" "k \<notin> set ns"
  shows "scan_ok (ns @ [k]) (sc\<lparr>sc_seen := sc_seen sc @ [(k, arg_of (ns @ [k]) k)],
           sc_positional := length ns + 1\<rparr>)"
  using assms by (simp add: scan_ok_def arg_of_append)

lemma find_seen:
  "find (\<lambda>(n, _). n = key) (map (\<lambda>k. (k, f k)) ns) = (if key \<in> set ns then Some (key, f key) else None)"
  by (induction ns) auto

lemma placeholder_eq:
  assumes "scan_ok ns sc" "length (see k ns) \<le> 16" "index_ok checks (Hole k)"
  shows "\<exists>sc'. placeholder checks ff args ctx k sc = Ok (hole_text ff args ctx (see k ns) k, sc') \<and>
           scan_ok (see k ns) sc' \<and> sc_result sc' = sc_result sc"
proof (cases "parse_unsigned (2 ^ 64) k")
  case (Some n)
  have ne: "k \<noteq> []" using Some by (auto simp: parse_unsigned_def)
  have n: "n < 2 ^ 64" using Some by (rule parse_unsigned_bound [rotated]) simp
  have ix: "next_index checks n = Ok (arg_of ns' k)" for ns'
  proof (cases "n = 2 ^ 64 - 1")
    case True
    then show ?thesis using assms(3) Some by (simp add: next_index_def arg_of_def)
  next
    case False
    then show ?thesis using n Some by (simp add: next_index_def arg_of_def)
  qed
  have "scan_ok (see k ns) (see_numeric k (arg_of (see k ns) k) sc)"
    using assms(1,2) scan_ok_extend [OF assms(1), of k] ne
    by (auto simp: see_numeric_def see_def scan_ok_def image_image split: if_splits)
  then show ?thesis
    using ix [of "see k ns"] Some ne
    by (auto simp: placeholder_def hole_text_def see_numeric_def split: option.split)
next
  case None
  show ?thesis
  proof (cases "k = []")
    case True
    then show ?thesis using None assms(1) by (simp add: placeholder_def hole_text_def see_def)
  next
    case False
    have "fst (see_named k sc) = arg_of (see k ns) k \<and> scan_ok (see k ns) (snd (see_named k sc)) \<and>
        sc_result (snd (see_named k sc)) = sc_result sc"
    proof (cases "k \<in> set ns")
      case True
      then show ?thesis
        using assms(1) by (simp add: see_named_def scan_ok_def find_seen see_def)
    next
      case False
      have "arg_of (ns @ [k]) k = length ns + 1"
        using None False by (simp add: arg_of_def takeWhile_neq_new)
      then show ?thesis
        using assms(1,2) False \<open>k \<noteq> []\<close> scan_ok_extend [OF assms(1) False]
        by (simp add: see_named_def scan_ok_def find_seen see_def Let_def)
    qed
    then show ?thesis
      using None False
      by (auto simp: placeholder_def hole_text_def case_prod_unfold Let_def split: option.split)
  qed
qed

text \<open>The pieces of a template at an opening brace, at any other character, and the slices taken.\<close>

lemma brace_split:
  assumes "i < length template" "template ! i = CHR ''{''" "memchr_brace template (i + 1) = Some e" "str_ok template"
  defines "key \<equiv> to_brace (drop (i + 1) template)"
  shows "tokens (drop i template) = Hole key # tokens (drop (e + 1) template)"
    and "str_slice (i + 1) e template = (Ok key :: (unit, string) res)"
    and "str_slice i (e + 1) template = (Ok (''{'' @ key @ ''}'') :: (unit, string) res)"
    and "i < e" "e < length template" "is_char_boundary template (e + 1)"
proof -
  let ?cs = "drop (i + 1) template"
  have m: "CHR ''}'' \<in> set ?cs" "e = i + 1 + length key"
    using assms(3) by (simp_all add: memchr_brace_eq key_def split: if_splits)
  have e: "i + 1 \<le> e" "e < length template" "template ! e = CHR ''}''"
    using memchr_brace_bound [OF assms(3)] by simp_all
  have d: "drop i template = CHR ''{'' # ?cs" using assms(1,2) by (simp add: Cons_nth_drop_Suc [symmetric])
  have k: "take (length key) ?cs = key" by (simp add: key_def takeWhile_eq_take [symmetric])
  have cs: "?cs = key @ CHR ''}'' # drop (e + 1) template"
  proof -
    have "?cs ! length key = CHR ''}''" "length key < length ?cs" using e m(2) by (simp_all add: nth_drop)
    then have "?cs = take (length key) ?cs @ CHR ''}'' # drop (Suc (length key)) ?cs"
      by (metis id_take_nth_drop)
    then show ?thesis using k m(2) by (simp add: add.commute)
  qed
  show "tokens (drop i template) = Hole key # tokens (drop (e + 1) template)"
    using d m by (simp add: key_def add.commute)
  have b: "is_char_boundary template i" "is_char_boundary template (i + 1)"
    "is_char_boundary template e" "is_char_boundary template (e + 1)"
    using boundary_at_ascii [OF assms(1)] boundary_after_ascii [OF assms(4,1)] boundary_at_ascii [OF e(2)]
      boundary_after_ascii [OF assms(4) e(2)] assms(2) e(3) by simp_all
  then show "str_slice (i + 1) e template = (Ok key :: (unit, string) res)"
    using e(1) m(2) k by (simp add: str_slice_Ok)
  have "take (e + 1 - i) (drop i template) = ''{'' @ key @ ''}''"
    using m(2) by (subst d, subst cs) simp
  then show "str_slice i (e + 1) template = (Ok (''{'' @ key @ ''}'') :: (unit, string) res)"
    using b e(1) by (simp add: str_slice_Ok)
  show "i < e" "e < length template" "is_char_boundary template (e + 1)" using e b by simp_all
qed

lemma literal_split:
  assumes "i < length template" "template ! i \<noteq> CHR ''{''" "is_char_boundary template i"
  defines "e \<equiv> literal_end template i"
  shows "\<exists>xs. CHR ''{'' \<notin> set xs \<and> drop i template = xs @ drop e template \<and>
           str_slice i e template = (Ok xs :: (unit, string) res)"
    and "i < e" "e \<le> length template" "is_char_boundary template e"
proof -
  let ?xs = "takeWhile (\<lambda>c. c \<noteq> CHR ''{'') (drop i template)"
  have e: "e = i + length ?xs" using assms(1) by (simp add: e_def literal_end_eq)
  show ie: "i < e" using literal_end_less [OF assms(1,2)] by (simp add: e_def)
  have l: "length ?xs \<le> length template - i"
    using length_takeWhile_le [of "\<lambda>c. c \<noteq> CHR ''{''" "drop i template"] by simp
  then show el: "e \<le> length template" using e assms(1) by simp
  have t: "take (length ?xs) (drop i template) = ?xs" by (simp add: takeWhile_eq_take [symmetric])
  have d: "drop i template = ?xs @ drop e template"
    using append_take_drop_id [of "length ?xs" "drop i template"] e
    by (simp only: t drop_drop) (simp add: add.commute)
  show b: "is_char_boundary template e"
  proof (cases "e < length template")
    case True
    have "length ?xs < length (drop i template)" using True e by simp
    from nth_length_takeWhile [OF this] have "template ! e = CHR ''{''" using e True by (simp add: nth_drop)
    then show ?thesis using boundary_at_ascii [OF True] by simp
  qed (use el in \<open>simp add: is_char_boundary_def\<close>)
  have "CHR ''{'' \<notin> set ?xs" by (auto dest: set_takeWhileD)
  moreover have "str_slice i e template = (Ok ?xs :: (unit, string) res)"
    using ie b assms(3) e t by (simp add: str_slice_Ok)
  ultimately show "\<exists>xs. CHR ''{'' \<notin> set xs \<and> drop i template = xs @ drop e template \<and>
           str_slice i e template = (Ok xs :: (unit, string) res)"
    using d by blast
qed

lemma open_brace_split:
  assumes "i < length template" "template ! i = CHR ''{''" "memchr_brace template (i + 1) = None"
  shows "tokens (drop i template) = Lit CHR ''{'' # tokens (drop (i + 1) template)"
proof -
  have "CHR ''}'' \<notin> set (drop (i + 1) template)"
    using assms(3) by (simp add: memchr_brace_eq split: if_splits)
  then show ?thesis using assms(1,2) by (simp add: Cons_nth_drop_Suc [symmetric])
qed

lemma push_str_ok [simp]: "scan_ok ns (push_str s sc) = scan_ok ns sc" "sc_result (push_str s sc) = sc_result sc @ s"
  by (simp_all add: push_str_def scan_ok_def)

lemma render_Lits: "concat (map (render ff args ctx ns) (map Lit xs)) = xs"
  by (induction xs) auto

lemma format_loop_eq:
  assumes "str_ok template" "is_char_boundary template i" "scan_ok ns sc"
    and "length (names_from ns (tokens (drop i template))) \<le> 16"
    and "list_all (index_ok checks) (tokens (drop i template))"
  shows "\<exists>sc'. format_loop checks ff args ctx template i sc = Ok sc' \<and>
    sc_result sc' = sc_result sc @
      concat (map (render ff args ctx (names_from ns (tokens (drop i template)))) (tokens (drop i template)))"
  using assms(2-)
proof (induction "length template - i" arbitrary: i ns sc rule: less_induct)
  case less
  let ?L = "format_loop checks ff args ctx template"
  show ?case
  proof (cases "i < length template")
    case False
    then show ?thesis by (simp add: format_loop.simps [of _ _ _ _ _ i])
  next
    case i: True
    consider (hole) e where "template ! i = CHR ''{''" "memchr_brace template (i + 1) = Some e"
      | (brace) "template ! i = CHR ''{''" "memchr_brace template (i + 1) = None"
      | (lit) "template ! i \<noteq> CHR ''{''" by (cases "memchr_brace template (i + 1)") auto
    then show ?thesis
    proof cases
      case hole
      let ?k = "to_brace (drop (i + 1) template)" and ?ts = "tokens (drop (e + 1) template)"
      note sp = brace_split [OF i hole assms(1)]
      obtain zs where zs: "names_from (see ?k ns) ?ts = see ?k ns @ zs" using names_from_prefix by blast
      have le: "length (see ?k ns @ zs) \<le> 16" using less.prems(3) sp(1) zs by simp
      then obtain sc1 where p: "placeholder checks ff args ctx ?k sc = Ok (hole_text ff args ctx (see ?k ns) ?k, sc1)"
          "scan_ok (see ?k ns) sc1" "sc_result sc1 = sc_result sc"
        using placeholder_eq [OF less.prems(2), of ?k checks ff args ctx] less.prems(4) sp(1) by auto
      have same: "hole_text ff args ctx (see ?k ns @ zs) ?k = hole_text ff args ctx (see ?k ns) ?k"
        by (rule hole_text_append [OF see_mem])
      let ?text = "render ff args ctx (see ?k ns @ zs) (Hole ?k)"
      have step: "?L i sc = ?L (e + 1) (push_str ?text sc1)"
        using i hole sp(2,3) p(1) same
        by (simp add: format_loop.simps [of _ _ _ _ _ i] split: option.split)
      have "\<exists>sc'. ?L (e + 1) (push_str ?text sc1) = Ok sc' \<and>
          sc_result sc' = sc_result (push_str ?text sc1) @ concat (map (render ff args ctx (names_from (see ?k ns) ?ts)) ?ts)"
        using sp(1,4-6) p(2) zs le less.prems(4) by (intro less.hyps) simp_all
      then show ?thesis using step zs sp(1) p(3) by (simp del: render.simps)
    next
      case brace
      note sp = open_brace_split [OF i brace]
      have step: "?L i sc = ?L (i + 1) (push_str ''{'' sc)"
        using i brace by (simp add: format_loop.simps [of _ _ _ _ _ i])
      have "is_char_boundary template (i + 1)"
        using boundary_after_ascii [OF assms(1) i] brace(1) by simp
      then show ?thesis
        using less.hyps [of "i + 1" ns "push_str ''{'' sc"] less.prems i sp step by simp
    next
      case lit
      let ?e = "literal_end template i"
      note sp = literal_split [OF i lit less.prems(1)]
      obtain xs where xs: "CHR ''{'' \<notin> set xs" "drop i template = xs @ drop ?e template"
          "str_slice i ?e template = (Ok xs :: (unit, string) res)" using sp(1) by blast
      have step: "?L i sc = ?L ?e (push_str xs sc)"
        using i lit xs(3) by (simp add: format_loop.simps [of _ _ _ _ _ i])
      have t: "tokens (drop i template) = map Lit xs @ tokens (drop ?e template)"
        by (simp only: xs(2) tokens_literal [OF xs(1)])
      have "\<exists>sc'. ?L ?e (push_str xs sc) = Ok sc' \<and>
          sc_result sc' = sc_result (push_str xs sc) @
            concat (map (render ff args ctx (names_from ns (tokens (drop ?e template)))) (tokens (drop ?e template)))"
        using sp(2-4) less.prems(2-4) t names_from_Lits by (intro less.hyps) simp_all
      then show ?thesis using step t names_from_Lits render_Lits by simp
    qed
  qed
qed

lemma extract_loop_eq:
  assumes "str_ok template"
  shows "extract_loop template i acc = Ok (acc @ hole_keys (tokens (drop i template)))"
proof (induction "length template - i" arbitrary: i acc rule: less_induct)
  case less
  show ?case
  proof (cases "i < length template")
    case False
    then show ?thesis by (simp add: extract_loop.simps [of _ i])
  next
    case i: True
    show ?thesis
    proof (cases "template ! i = CHR ''{''")
      case True
      show ?thesis
      proof (cases "memchr_brace template (i + 1)")
        case None
        then show ?thesis
          using i True less [of "i + 1"] open_brace_split [OF i True None]
          by (simp add: extract_loop.simps [of _ i])
      next
        case (Some e)
        note sp = brace_split [OF i True Some assms]
        show ?thesis
          using i True Some sp less [of "e + 1"] by (simp add: extract_loop.simps [of _ i])
      qed
    next
      case False
      then have "tokens (drop i template) = Lit (template ! i) # tokens (drop (i + 1) template)"
        using i by (simp add: Cons_nth_drop_Suc [symmetric])
      then show ?thesis using i False less [of "i + 1"] by (simp add: extract_loop.simps [of _ i])
    qed
  qed
qed

lemma tokens_no_brace: "CHR ''{'' \<notin> set s \<Longrightarrow> tokens s = map Lit s"
  using tokens_literal [of s "[]"] by simp

section \<open>Properties\<close>



end
