(* ===== verification/Dispatcher.thy ===== *)
theory Dispatcher
  imports Batch_Worker Formatter
begin

text \<open>
  The dispatchers of the service, \<^verbatim>\<open>LogDispatcher\<close> and \<^verbatim>\<open>MetricDispatcher\<close> in
  \<^verbatim>\<open>tc-otel-service/src/dispatcher.rs\<close>: missing host and service names are filled in, messages rendered,
  metrics mapped, scopes resolved, and the record is offered to the worker's channel, which takes it if
  there is room. The property of this theory says which record a log entry becomes, across the cache of
  scopes.
\<close>

section \<open>Logs\<close>

record 'l log_dispatcher =
  ld_host_name :: string
  ld_default_service_name :: string
  ld_resolver :: "'l scope_resolver"

text \<open>The dispatcher and its worker; \<open>host\<close> is the name of the host.\<close>

definition log_dispatcher_new ::
    "(string \<Rightarrow> string option) \<Rightarrow> string \<Rightarrow> app_settings \<Rightarrow> bool \<Rightarrow> 'l scope_resolver \<Rightarrow> 'l log_dispatcher \<times> log_worker" where
  "log_dispatcher_new env host s reloads r =
     (\<lparr>ld_host_name = host, ld_default_service_name = sc_name (as_service s), ld_resolver = r\<rparr>,
      log_worker_new env
        (case env ''TCOTEL_EXPORT_ENDPOINT'' of Some e \<Rightarrow> e | None \<Rightarrow> ex_endpoint (as_export s))
        (ex_batch_size (as_export s)) (ex_flush_interval_ms (as_export s)) (ex_format (as_export s)) reloads)"

record dispatch_env =
  de_checks :: bool
  de_float :: "f64 \<Rightarrow> string"
  de_context_order :: "(string, json) iter"
  de_argument_order :: "(nat, json) iter"

definition backfill_log :: "'l log_dispatcher \<Rightarrow> log_entry \<Rightarrow> log_entry" where
  "backfill_log d e =
     e\<lparr>le_hostname := (if le_hostname e = [] then ld_host_name d else le_hostname e),
       le_project_name := (if le_project_name e = [] then ld_default_service_name d else le_project_name e)\<rparr>"

definition log_body :: "dispatch_env \<Rightarrow> log_entry \<Rightarrow> (unit, string) res" where
  "log_body D e =
     (if CHR ''{'' \<in> set (le_message e)
      then format_with_context (de_checks D) (de_float D) (le_message e) (le_arguments e) (le_context e)
      else Ok (le_message e))"

definition with_scope :: "scope_outcome \<Rightarrow> log_record \<Rightarrow> log_record" where
  "with_scope out r =
     r\<lparr>lr_log_attributes := scope_attribute out (lr_log_attributes r), lr_scope_name := so_scope_name out\<rparr>"

definition trace_suffix :: "log_record \<Rightarrow> string \<Rightarrow> string" where
  "trace_suffix r body =
     (if lr_trace_id r \<noteq> [] then body @ '' [trace_id='' @ lr_trace_id r @ '' span_id='' @ lr_span_id r @ '']'' else body)"

text \<open>The record of an entry, and whether it is sent.\<close>

definition log_dispatch ::
    "dispatch_env \<Rightarrow> ('x, 'l) lookup_ops \<Rightarrow> 'x \<Rightarrow> bool \<Rightarrow> 'l log_dispatcher \<Rightarrow> log_entry \<Rightarrow>
     (unit, log_record option) res \<times> 'l log_dispatcher" where
  "log_dispatch D ops x room d entry =
     (let e = backfill_log d entry; net_id = le_ams_net_id e; app_port = le_ams_app_port e in
      case log_body D e of
        Ok body \<Rightarrow>
          let r1 = (if net_id \<noteq> [] then observe_occ ops (ld_resolver d) net_id (le_online_change_count e)
                    else ld_resolver d);
              record = from_log_entry (de_context_order D) (de_argument_order D) e;
              (record', r2) =
                (if net_id \<noteq> [] \<and> lr_scope_name record \<noteq> [] \<and> app_port \<noteq> 0
                 then case scope_resolve ops x r1 net_id (lr_scope_name record) app_port of
                        (out, r) \<Rightarrow> (with_scope out record, r)
                 else (record, r1));
              record'' = record'\<lparr>lr_body := JString (trace_suffix record' body)\<rparr>
          in (Ok (if room then Some record'' else None), d\<lparr>ld_resolver := r2\<rparr>)
      | _ \<Rightarrow> (Panic, d))"

section \<open>Metrics\<close>

record 'l metric_dispatcher =
  md_default_service_name :: string
  md_host_name :: string
  md_resolver :: "'l scope_resolver"

definition metric_dispatcher_new ::
    "(string \<Rightarrow> string option) \<Rightarrow> string \<Rightarrow> app_settings \<Rightarrow> bool \<Rightarrow> 'l scope_resolver \<Rightarrow>
     'l metric_dispatcher \<times> metric_worker" where
  "metric_dispatcher_new env host s reloads r =
     (\<lparr>md_default_service_name = sc_name (as_service s), md_host_name = host, md_resolver = r\<rparr>,
      metric_worker_new env s reloads)"

text \<open>The mapper is the one of the worker.\<close>

definition metric_dispatch ::
    "('x, 'l) lookup_ops \<Rightarrow> 'x \<Rightarrow> bool \<Rightarrow> metric_mapper \<Rightarrow> 'l metric_dispatcher \<Rightarrow> metric_entry \<Rightarrow>
     metric_record option \<times> 'l metric_dispatcher" where
  "metric_dispatch ops x room mapper d entry =
     (let e1 = snd (mapper_apply mapper entry);
          e2 = (if me_project_name e1 = [] then e1\<lparr>me_project_name := md_default_service_name d\<rparr> else e1);
          e = (if me_hostname e2 = [] then e2\<lparr>me_hostname := md_host_name d\<rparr> else e2);
          net_id = me_ams_net_id e; app_port = me_ams_app_port e;
          record = from_metric_entry e;
          (record', r) =
            (if net_id \<noteq> [] \<and> mr_scope_name record \<noteq> [] \<and> app_port \<noteq> 0
             then case scope_resolve ops x (md_resolver d) net_id (mr_scope_name record) app_port of
                    (out, r) \<Rightarrow>
                      (record\<lparr>mr_attributes := scope_attribute out (mr_attributes record),
                              mr_scope_name := so_scope_name out\<rparr>, r)
             else (record, md_resolver d))
      in (if room then Some record' else None, d\<lparr>md_resolver := r\<rparr>))"

section \<open>What a log entry becomes\<close>

text \<open>
  The record of an entry with a given body and scope: the scope is used only for entries of a known
  controller and runtime with a logger name.
\<close>

definition scoped :: "log_entry \<Rightarrow> bool" where
  "scoped e \<longleftrightarrow> le_ams_net_id e \<noteq> [] \<and> le_logger e \<noteq> [] \<and> le_ams_app_port e \<noteq> 0"

definition log_record_of ::
    "dispatch_env \<Rightarrow> string \<Rightarrow> string \<Rightarrow> log_entry \<Rightarrow> scope_outcome \<Rightarrow> string \<Rightarrow> log_record" where
  "log_record_of D host service e out body =
     (let e' = e\<lparr>le_hostname := (if le_hostname e = [] then host else le_hostname e),
                 le_project_name := (if le_project_name e = [] then service else le_project_name e)\<rparr>;
          r = from_log_entry (de_context_order D) (de_argument_order D) e';
          r' = (if scoped e then with_scope out r else r)
      in r'\<lparr>lr_body := JString (trace_suffix r body)\<rparr>)"

text \<open>The scopes an entry may get: that of its code version, or its logger when no table was available.\<close>

definition scope_of_version ::
    "(string \<Rightarrow> u32 \<Rightarrow> table) \<Rightarrow> bool \<Rightarrow> log_entry \<Rightarrow> scope_outcome \<Rightarrow> bool" where
  "scope_of_version symb failed e out \<longleftrightarrow>
     out = direct_scope (symb (le_ams_net_id e) (le_online_change_count e)) (le_logger e) \<or>
     failed \<and> out = into_outcome (Raw (le_logger e))"

lemma from_log_entry_scope [simp]: "lr_scope_name (from_log_entry ord_ctx ord_arg e) = le_logger e"
  by (simp add: from_log_entry_def split: prod.splits)

lemma backfill_log_fields [simp]:
  "le_ams_net_id (backfill_log d e) = le_ams_net_id e" "le_logger (backfill_log d e) = le_logger e"
  "le_ams_app_port (backfill_log d e) = le_ams_app_port e"
  "le_online_change_count (backfill_log d e) = le_online_change_count e"
  "log_body D (backfill_log d e) = log_body D e"
  by (simp_all add: backfill_log_def log_body_def)

lemma trace_suffix_with_scope [simp]: "trace_suffix (with_scope out r) body = trace_suffix r body"
  by (simp add: trace_suffix_def with_scope_def)

text \<open>A fetch for an entry gives the symbols of its code version, or fails.\<close>

definition version_fetched ::
    "('x \<Rightarrow> string \<Rightarrow> u16 \<Rightarrow> (lookup_error, table) res) \<Rightarrow> (string \<Rightarrow> u32 \<Rightarrow> table) \<Rightarrow> 'x \<Rightarrow> log_entry \<Rightarrow> bool" where
  "version_fetched fetch symb x e \<longleftrightarrow> (scoped e \<longrightarrow>
     fetch x (le_ams_net_id e) (le_ams_app_port e) = Ok (symb (le_ams_net_id e) (le_online_change_count e)) \<or>
     (\<exists>err. fetch x (le_ams_net_id e) (le_ams_app_port e) = Err err))"

definition fetch_failed :: "('x \<Rightarrow> string \<Rightarrow> u16 \<Rightarrow> (lookup_error, table) res) \<Rightarrow> 'x \<Rightarrow> log_entry \<Rightarrow> bool" where
  "fetch_failed fetch x e \<longleftrightarrow> (\<exists>err. fetch x (le_ams_net_id e) (le_ams_app_port e) = Err err)"

context scope_lookup
begin

lemma log_dispatch_record:
  assumes coh: "coherent content ok symb (ld_resolver d)" and v: "version_fetched fetch symb x e"
    and disp: "log_dispatch D ops x room d e = (res, d')"
  shows "coherent content ok symb (ld_resolver d') \<and> ld_host_name d' = ld_host_name d \<and>
    ld_default_service_name d' = ld_default_service_name d \<and>
    (case log_body D e of
       Ok body \<Rightarrow> \<exists>out. scope_of_version symb (fetch_failed fetch x e) e out \<and>
         res = Ok (if room then Some (log_record_of D (ld_host_name d) (ld_default_service_name d) e out body) else None)
     | _ \<Rightarrow> res = Panic)"
proof (cases "log_body D e")
  case (Ok body)
  let ?net = "le_ams_net_id e" and ?r = "ld_resolver d"
  let ?r1 = "if ?net \<noteq> [] then observe_occ ops ?r ?net (le_online_change_count e) else ?r"
  let ?rec = "from_log_entry (de_context_order D) (de_argument_order D) (backfill_log d e)"
  have r1: "coherent content ok symb ?r1" "?net \<noteq> [] \<longrightarrow> hm_get (sr_occ_seen ?r1) ?net = Some (le_online_change_count e)"
    using coherent_observe [OF coh] coh by auto
  show ?thesis
  proof (cases "scoped e")
    case True
    obtain out r2 where res: "scope_resolve ops x ?r1 ?net (le_logger e) (le_ams_app_port e) = (out, r2)" by force
    have "coherent content ok symb r2 \<and> scope_of_version symb (fetch_failed fetch x e) e out"
      using coherent_resolve [of symb ?r1 ?net "le_online_change_count e" "le_logger e" x "le_ams_app_port e"]
        r1 True v res
      by (auto simp: scoped_def version_fetched_def scope_of_version_def fetch_failed_def)
    moreover have "log_dispatch D ops x room d e =
        (Ok (if room then Some ((with_scope out ?rec)\<lparr>lr_body := JString (trace_suffix ?rec body)\<rparr>) else None),
         d\<lparr>ld_resolver := r2\<rparr>)"
      using Ok True res by (simp add: log_dispatch_def Let_def scoped_def)
    ultimately show ?thesis
      using disp Ok True by (auto simp: log_record_of_def Let_def backfill_log_def)
  next
    case False
    then have "log_dispatch D ops x room d e =
        (Ok (if room then Some (?rec\<lparr>lr_body := JString (trace_suffix ?rec body)\<rparr>) else None), d\<lparr>ld_resolver := ?r1\<rparr>)"
      using Ok by (auto simp: log_dispatch_def Let_def scoped_def)
    then show ?thesis
      using disp Ok False r1(1)
      by (auto simp: scope_of_version_def log_record_of_def Let_def backfill_log_def)
  qed
qed (use coh disp in \<open>auto simp: log_dispatch_def Let_def\<close>)

end

section \<open>From entries to flushed batches\<close>

text \<open>
  The log dispatcher, the channel to its worker and the worker. An entry is dispatched, the worker
  takes a record from the channel, or it meets another of its inputs. The channel refuses a
  record when it is full or its receiver is gone.
\<close>

record 'l log_pipeline =
  lp_dispatcher :: "'l log_dispatcher"
  lp_queue :: "log_record list"
  lp_worker :: log_worker

datatype 'x pipe_input = Entry 'x log_entry | Deliver | Work "log_record worker_input"

datatype 'x pipe_output = Queued 'x log_entry | Lost 'x log_entry | Crashed 'x log_entry | Flush log_flush

definition worker_part ::
    "(string \<Rightarrow> string option) \<Rightarrow> 'l log_pipeline \<Rightarrow> log_record worker_input \<Rightarrow> 'l log_pipeline \<times> 'x pipe_output list" where
  "worker_part env p a =
     (case log_worker_step env (lp_worker p) a of (w, outs) \<Rightarrow> (p\<lparr>lp_worker := w\<rparr>, map Flush outs))"

fun pipe_step ::
    "dispatch_env \<Rightarrow> ('x, 'l) lookup_ops \<Rightarrow> (string \<Rightarrow> string option) \<Rightarrow> nat \<Rightarrow> 'l log_pipeline \<Rightarrow> 'x pipe_input \<Rightarrow>
     'l log_pipeline \<times> 'x pipe_output list" where
  "pipe_step D ops env capacity p (Entry x e) =
     (case log_dispatch D ops x (length (lp_queue p) < capacity \<and> lw_alive (lp_worker p)) (lp_dispatcher p) e of
        (res, d) \<Rightarrow>
          (case res of
             Ok (Some r) \<Rightarrow> (p\<lparr>lp_dispatcher := d, lp_queue := lp_queue p @ [r]\<rparr>, [Queued x e])
           | Ok None \<Rightarrow> (p\<lparr>lp_dispatcher := d\<rparr>, [Lost x e])
           | _ \<Rightarrow> (p\<lparr>lp_dispatcher := d\<rparr>, [Crashed x e])))"
| "pipe_step D ops env capacity p Deliver =
     (case lp_queue p of
        r # q \<Rightarrow> (if lw_alive (lp_worker p) then worker_part env (p\<lparr>lp_queue := q\<rparr>) (Recv r) else (p, []))
      | [] \<Rightarrow> (p, []))"
| "pipe_step D ops env capacity p (Work a) = (if received a = [] then worker_part env p a else (p, []))"

fun queued_entries :: "'x pipe_output list \<Rightarrow> ('x \<times> log_entry) list" where
  "queued_entries [] = []"
| "queued_entries (Queued x e # outs) = (x, e) # queued_entries outs"
| "queued_entries (_ # outs) = queued_entries outs"

fun flushed_records :: "'x pipe_output list \<Rightarrow> log_record list" where
  "flushed_records [] = []"
| "flushed_records (Flush f # outs) = flush_records f @ flushed_records outs"
| "flushed_records (_ # outs) = flushed_records outs"

lemma queued_entries_append [simp]: "queued_entries (as @ bs) = queued_entries as @ queued_entries bs"
  by (induction as rule: queued_entries.induct) auto

lemma flushed_records_append [simp]: "flushed_records (as @ bs) = flushed_records as @ flushed_records bs"
  by (induction as rule: flushed_records.induct) auto

lemma of_flushes [simp]:
  "queued_entries (map Flush fs) = []" "flushed_records (map Flush fs) = concat (map flush_records fs)"
  by (induction fs) auto

text \<open>A record is right for an entry.\<close>

definition right_record ::
    "dispatch_env \<Rightarrow> string \<Rightarrow> string \<Rightarrow> (string \<Rightarrow> u32 \<Rightarrow> table) \<Rightarrow> ('x \<Rightarrow> log_entry \<Rightarrow> bool) \<Rightarrow>
     'x \<times> log_entry \<Rightarrow> log_record \<Rightarrow> bool" where
  "right_record D host service symb failed = (\<lambda>(x, e) r.
     \<exists>out body. log_body D e = Ok body \<and> scope_of_version symb (failed x e) e out \<and>
       r = log_record_of D host service e out body)"

definition pending :: "'l log_pipeline \<Rightarrow> log_record list" where
  "pending p = lw_batch (lp_worker p) @ lp_queue p"

fun pipe_input_ok :: "('x \<Rightarrow> log_entry \<Rightarrow> bool) \<Rightarrow> nat \<Rightarrow> 'x pipe_input \<Rightarrow> bool" where
  "pipe_input_ok fetched B (Entry x e) = fetched x e"
| "pipe_input_ok fetched B Deliver = True"
| "pipe_input_ok fetched B (Work a) = log_input_ok B a"

lemma worker_part_records:
  assumes "worker_part env p a = (p', outs)" "lw_alive (lp_worker p)" "log_input_ok B a"
  shows "lw_alive (lp_worker p') \<and> lp_dispatcher p' = lp_dispatcher p \<and> lp_queue p' = lp_queue p \<and>
    queued_entries outs = [] \<and> flushed_records outs @ lw_batch (lp_worker p') = lw_batch (lp_worker p) @ received a"
  using assms logs.stays_alive [of "lp_worker p" B a env] logs.accounted [of "lp_worker p" B a env]
  by (auto simp: worker_part_def split: prod.splits)

definition pipe_ok ::
    "('l \<Rightarrow> string \<Rightarrow> table option) \<Rightarrow> ('l \<Rightarrow> bool) \<Rightarrow> (string \<Rightarrow> u32 \<Rightarrow> table) \<Rightarrow> string \<Rightarrow> string \<Rightarrow> 'l log_pipeline \<Rightarrow> bool" where
  "pipe_ok content ok symb host service p \<longleftrightarrow>
     coherent content ok symb (ld_resolver (lp_dispatcher p)) \<and> ld_host_name (lp_dispatcher p) = host \<and>
     ld_default_service_name (lp_dispatcher p) = service \<and> lw_alive (lp_worker p)"

context scope_lookup
begin

lemma pipe_step_right:
  assumes ok: "pipe_ok content ok symb host service p" and a: "pipe_input_ok (version_fetched fetch symb) B a"
    and step: "pipe_step D ops env capacity p a = (p', outs)"
  shows "pipe_ok content ok symb host service p' \<and>
    (\<exists>rs. list_all2 (right_record D host service symb (fetch_failed fetch)) (queued_entries outs) rs \<and>
       flushed_records outs @ pending p' = pending p @ rs)"
proof (cases a)
  case (Entry x e)
  obtain res d where disp: "log_dispatch D ops x (length (lp_queue p) < capacity \<and> lw_alive (lp_worker p))
      (lp_dispatcher p) e = (res, d)" by force
  have "version_fetched fetch symb x e" using a Entry by simp
  note rec = log_dispatch_record [OF _ this disp]
  have names: "ld_host_name (lp_dispatcher p) = host" "ld_default_service_name (lp_dispatcher p) = service"
    and coh: "coherent content ok symb (ld_resolver (lp_dispatcher p))" using ok by (simp_all add: pipe_ok_def)
  have d: "coherent content ok symb (ld_resolver d)" "ld_host_name d = host" "ld_default_service_name d = service"
    and res: "case log_body D e of Ok body \<Rightarrow> \<exists>out. scope_of_version symb (fetch_failed fetch x e) e out \<and>
         res = Ok (if length (lp_queue p) < capacity \<and> lw_alive (lp_worker p)
           then Some (log_record_of D host service e out body) else None)
       | _ \<Rightarrow> res = Panic"
    using rec [OF coh] unfolding names by blast+
  consider (queued) r where "res = Ok (Some r)" "right_record D host service symb (fetch_failed fetch) (x, e) r"
    | (lost) "res = Ok None" | (crashed) "res = Panic"
    using res by (auto simp: right_record_def split: res.splits if_splits)
  then show ?thesis
    using ok d step Entry disp by cases (auto simp: pipe_ok_def pending_def)
next
  case Deliver
  then show ?thesis
    using ok step worker_part_records [of env "p\<lparr>lp_queue := tl (lp_queue p)\<rparr>" "Recv (hd (lp_queue p))" p' outs B]
    by (auto simp: pipe_ok_def pending_def split: list.splits if_splits)
next
  case (Work b)
  then show ?thesis
    using ok a step worker_part_records [of env p b p' outs B] by (auto simp: pipe_ok_def pending_def split: if_splits)
qed

lemma pipe_run_right:
  assumes "pipe_ok content ok symb host service p" and "list_all (pipe_input_ok (version_fetched fetch symb) B) ins"
  shows "pipe_ok content ok symb host service (fst (run_machine (pipe_step D ops env capacity) p ins)) \<and>
    (\<exists>rs. list_all2 (right_record D host service symb (fetch_failed fetch))
       (queued_entries (snd (run_machine (pipe_step D ops env capacity) p ins))) rs \<and>
     flushed_records (snd (run_machine (pipe_step D ops env capacity) p ins)) @
       pending (fst (run_machine (pipe_step D ops env capacity) p ins)) = pending p @ rs)"
  using assms
proof (induction ins arbitrary: p)
  case (Cons a ins)
  obtain p' outs where step: "pipe_step D ops env capacity p a = (p', outs)" by force
  obtain p'' outs' where run: "run_machine (pipe_step D ops env capacity) p' ins = (p'', outs')" by force
  from pipe_step_right [OF Cons.prems(1) _ step] Cons.prems(2) obtain rs where
    p': "pipe_ok content ok symb host service p'"
    and rs: "list_all2 (right_record D host service symb (fetch_failed fetch)) (queued_entries outs) rs"
      "flushed_records outs @ pending p' = pending p @ rs" by auto
  from Cons.IH [OF p'] Cons.prems(2) run obtain rs' where
    p'': "pipe_ok content ok symb host service p''" and
    rs': "list_all2 (right_record D host service symb (fetch_failed fetch)) (queued_entries outs') rs'"
      "flushed_records outs' @ pending p'' = pending p' @ rs'" by auto
  have "list_all2 (right_record D host service symb (fetch_failed fetch)) (queued_entries (outs @ outs')) (rs @ rs')"
    using rs(1) rs'(1) by (simp add: list_all2_appendI)
  moreover have "flushed_records (outs @ outs') @ pending p'' = pending p @ rs @ rs'"
    using rs(2) rs'(2) by (metis append.assoc flushed_records_append)
  ultimately show ?case using step run p'' by auto
qed simp

lemma pipe_lost_full:
  assumes "pipe_ok content ok symb host service p"
    and "list_all (pipe_input_ok (version_fetched fetch symb) B) (pre @ Entry x e # post)"
    and "Lost x e \<in> set (snd (pipe_step D ops env capacity (fst (run_machine (pipe_step D ops env capacity) p pre)) (Entry x e)))"
  shows "capacity \<le> length (lp_queue (fst (run_machine (pipe_step D ops env capacity) p pre)))"
proof -
  let ?p = "fst (run_machine (pipe_step D ops env capacity) p pre)"
  have p: "pipe_ok content ok symb host service ?p" using pipe_run_right [OF assms(1), of B pre D env capacity] assms(2) by simp
  obtain res d where disp: "log_dispatch D ops x (length (lp_queue ?p) < capacity \<and> lw_alive (lp_worker ?p))
      (lp_dispatcher ?p) e = (res, d)" by force
  have "version_fetched fetch symb x e" using assms(2) by simp
  from log_dispatch_record [OF _ this disp] p assms(3) disp show ?thesis
    by (auto simp: pipe_ok_def split: res.splits option.splits if_splits)
qed

end

text \<open>What becomes of the entries of a run: each is queued, lost or crashed, in order.\<close>

fun entry_inputs :: "'x pipe_input list \<Rightarrow> ('x \<times> log_entry) list" where
  "entry_inputs [] = []"
| "entry_inputs (Entry x e # ins) = (x, e) # entry_inputs ins"
| "entry_inputs (_ # ins) = entry_inputs ins"

fun entry_fates :: "'x pipe_output list \<Rightarrow> ('x \<times> log_entry) list" where
  "entry_fates [] = []"
| "entry_fates (Flush f # outs) = entry_fates outs"
| "entry_fates (Queued x e # outs) = (x, e) # entry_fates outs"
| "entry_fates (Lost x e # outs) = (x, e) # entry_fates outs"
| "entry_fates (Crashed x e # outs) = (x, e) # entry_fates outs"

lemma entry_fates_append [simp]: "entry_fates (as @ bs) = entry_fates as @ entry_fates bs"
  by (induction as rule: entry_fates.induct) auto

lemma entry_fates_flushes [simp]: "entry_fates (map Flush fs) = []"
  by (induction fs) auto

lemma entry_fates_run:
  "entry_fates (snd (run_machine (pipe_step D ops env capacity) p ins)) = entry_inputs ins"
proof (induction ins arbitrary: p)
  case (Cons a ins)
  have "entry_fates (snd (pipe_step D ops env capacity p a)) = entry_inputs [a]"
    by (cases a) (auto simp: worker_part_def split: prod.splits res.splits option.splits list.splits)
  moreover have "entry_inputs (a # ins) = entry_inputs [a] @ entry_inputs ins" by (cases a) auto
  ultimately show ?case using Cons by (simp add: snd_run_machine del: run_machine.simps)
qed simp



definition sample_dispatch_env :: dispatch_env where
  "sample_dispatch_env = \<lparr>de_checks = True, de_float = (\<lambda>_. []), de_context_order = (\<lambda>m. m), de_argument_order = (\<lambda>m. m)\<rparr>"

definition sample_plc_log :: log_entry where
  "sample_plc_log = (log_entry_new ''id'' (DateTime 0 0) (DateTime 0 0) '''' '''' ''count {0}'' ''MAIN.nCount'' LInfo)
     \<lparr>le_ams_net_id := show_net_id (AmsNetId 5 1 2 3 1 1), le_ams_app_port := 851, le_online_change_count := 1\<rparr>"

definition sample_pipe_inputs :: "scope_net pipe_input list" where
  "sample_pipe_inputs =
     [Entry (router_net (AmsNetId 10 0 0 1 1 1) 40000 [sample_symbol]) sample_plc_log, Deliver,
      Entry offline_net sample_plc_log, Work Tick]"

definition sample_pipe_run :: "ads_scope_lookup log_pipeline \<times> scope_net pipe_output list" where
  "sample_pipe_run =
     (case log_dispatcher_new (\<lambda>_. None) ''ipc'' app_settings_default True
         (resolver_new (ads_lookup_new ''127.0.0.1'' (AmsNetId 0 0 0 0 0 0) 40000)) of
        (d, w) \<Rightarrow> run_machine (pipe_step sample_dispatch_env ads_lookup_ops (\<lambda>_. None) 100)
          \<lparr>lp_dispatcher = d, lp_queue = [], lp_worker = w\<rparr> sample_pipe_inputs)"


end
