(* ===== verification/Floats.thy ===== *)
theory Floats
  imports Rust_Std
begin

text \<open>
  Conversions to and comparisons of IEEE 754 numbers, on bit patterns: the casts \<^verbatim>\<open>as f64\<close> of an
  unsigned integer (rounded to nearest, ties to even) and of an \<^verbatim>\<open>f32\<close> (exact), and \<^verbatim>\<open><\<close> of two
  \<^verbatim>\<open>f32\<close>. Small integers are represented exactly.
\<close>

text \<open>The position of the highest bit.\<close>

fun top_bit :: "nat \<Rightarrow> nat" where
  "top_bit n = (if n < 2 then 0 else Suc (top_bit (n div 2)))"

declare top_bit.simps [simp del]

definition f64_bits :: "nat \<Rightarrow> nat \<Rightarrow> f64" where
  "f64_bits biased mantissa = of_nat (biased * 2 ^ 52 + mantissa)"

text \<open>A carry out of the mantissa when rounding up goes to the exponent, as it should.\<close>

definition f64_of_nat :: "nat \<Rightarrow> f64" where
  "f64_of_nat n =
     (if n = 0 then 0
      else
        let e = top_bit n in
        if e \<le> 52 then f64_bits (1023 + e) (n * 2 ^ (52 - e) - 2 ^ 52)
        else
          let s = e - 52; q = n div 2 ^ s; r = n mod 2 ^ s;
              up = (2 ^ s < 2 * r \<or> 2 ^ s = 2 * r \<and> odd q)
          in f64_bits (1023 + e) (q - 2 ^ 52 + (if up then 1 else 0)))"

definition f32_sign :: "f32 \<Rightarrow> bool" where "f32_sign w = (2 ^ 31 \<le> unat w)"

definition f32_exponent :: "f32 \<Rightarrow> nat" where "f32_exponent w = unat w div 2 ^ 23 mod 256"

definition f32_mantissa :: "f32 \<Rightarrow> nat" where "f32_mantissa w = unat w mod 2 ^ 23"

definition f32_is_nan :: "f32 \<Rightarrow> bool" where
  "f32_is_nan w = (f32_exponent w = 255 \<and> f32_mantissa w \<noteq> 0)"

text \<open>The bits of a converted NaN beyond its being one are not specified by the language.\<close>

definition f64_of_f32 :: "f32 \<Rightarrow> f64" where
  "f64_of_f32 w =
     (let e = f32_exponent w; m = f32_mantissa w;
          magnitude =
            (if e = 255 then f64_bits 2047 (m * 2 ^ 29)
             else if e \<noteq> 0 then f64_bits (e + 896) (m * 2 ^ 29)
             else if m = 0 then 0
             else f64_bits (874 + top_bit m) (m * 2 ^ (52 - top_bit m) - 2 ^ 52))
      in if f32_sign w then magnitude + 2 ^ 63 else magnitude)"

definition f32_order :: "f32 \<Rightarrow> int" where
  "f32_order w = (let magnitude = int (unat w mod 2 ^ 31) in if f32_sign w then - magnitude else magnitude)"

definition f32_less :: "f32 \<Rightarrow> f32 \<Rightarrow> bool" where
  "f32_less a b = (\<not> f32_is_nan a \<and> \<not> f32_is_nan b \<and> f32_order a < f32_order b)"

section \<open>Small integers are exact\<close>

lemma top_bit_bounds: "0 < n \<Longrightarrow> 2 ^ top_bit n \<le> n \<and> n < 2 ^ Suc (top_bit n)"
proof (induction n rule: top_bit.induct)
  case (1 n)
  show ?case
  proof (cases "n < 2")
    case False
    then have "2 ^ top_bit (n div 2) \<le> n div 2 \<and> n div 2 < 2 ^ Suc (top_bit (n div 2))" using 1 by simp
    then show ?thesis using False by (subst (1 2) top_bit.simps) auto
  qed (use 1 in \<open>simp add: top_bit.simps [of n]\<close>)
qed

text \<open>The value of a pattern that stands for a natural number.\<close>

definition f64_nat :: "f64 \<Rightarrow> nat \<Rightarrow> bool" where
  "f64_nat w n \<longleftrightarrow>
     w = 0 \<and> n = 0 \<or>
     (let biased = unat w div 2 ^ 52; mantissa = unat w mod 2 ^ 52 in
      1023 \<le> biased \<and> biased < 2047 \<and> (2 ^ 52 + mantissa) * 2 ^ (biased - 1023) = n * 2 ^ 52)"

lemma f64_of_nat_exact:
  assumes "n < 2 ^ 53"
  shows "f64_nat (f64_of_nat n) n"
proof (cases "n = 0")
  case False
  let ?e = "top_bit n"
  have b: "2 ^ ?e \<le> n" "n < 2 ^ Suc ?e" using top_bit_bounds False by auto
  have "2 ^ ?e < (2 :: nat) ^ 53" using b(1) assms by linarith
  then have "?e < 53" by (rule power_less_imp_less_exp [rotated]) simp
  then have e: "?e \<le> 52" by simp
  have p: "(2 :: nat) ^ 52 = 2 ^ ?e * 2 ^ (52 - ?e)" using e by (simp flip: power_add)
  let ?m = "n * 2 ^ (52 - ?e) - 2 ^ 52"
  have lo: "2 ^ 52 \<le> n * 2 ^ (52 - ?e)" unfolding p using b(1) by (intro mult_right_mono) simp_all
  have "n * 2 ^ (52 - ?e) < 2 ^ Suc ?e * 2 ^ (52 - ?e)" using b(2) by (intro mult_strict_right_mono) simp_all
  also have "\<dots> = 2 * 2 ^ 52" unfolding p by simp
  finally have hi: "?m < 2 ^ 52" using lo by simp
  have "(1023 + ?e) * 2 ^ 52 + ?m < 2 ^ 64" using e hi by simp
  then have w: "unat (f64_bits (1023 + ?e) ?m) = (1023 + ?e) * 2 ^ 52 + ?m"
    unfolding f64_bits_def by (simp only: unat_of_nat) (simp add: take_bit_nat_eq_self)
  have "(2 ^ 52 + ?m) * 2 ^ ?e = n * 2 ^ 52" using lo p by (simp add: algebra_simps)
  moreover have "((1023 + ?e) * 2 ^ 52 + ?m) div 2 ^ 52 = 1023 + ?e" "((1023 + ?e) * 2 ^ 52 + ?m) mod 2 ^ 52 = ?m"
    using hi by (simp_all only: div_mult_self3 mod_mult_self3) simp_all
  ultimately show ?thesis
    using False e w by (simp add: f64_of_nat_def f64_nat_def Let_def)
qed (simp add: f64_of_nat_def f64_nat_def)

end
