(* ===== verification/Diagnostics_Bridge.thy ===== *)
theory Diagnostics_Bridge
  imports Push Registry Proto Floats "HOL-Library.Sublist"
begin

text \<open>
  The bridge from diagnostic events to metric entries,
  \<^verbatim>\<open>tc-otel-service/src/diagnostics_bridge.rs\<close>, and the drain task of \<^verbatim>\<open>service.rs\<close> that runs it: every
  event becomes metric entries, which the registry of tasks completes and the metric channel takes
  while it has room. Timestamps of the samples of an aggregate are exact, derived from cycle offsets,
  or interpolated. The readings of the clock are arguments: \<open>be_now k\<close> for the \<open>k\<close>-th entry
  of an event, \<open>be_late i k\<close> for a timestamp of sample \<open>i\<close> that chrono rejects.
\<close>

record bridge_env =
  be_ext :: ext
  be_source :: string
  be_now :: "nat \<Rightarrow> datetime"
  be_late :: "nat \<Rightarrow> nat \<Rightarrow> datetime"

definition METRIC_FLAG_RING_OVERFLOWED :: u8 where "METRIC_FLAG_RING_OVERFLOWED = 2"
definition SAMPLE_FLAG_CYCLE_EXCEED :: u8 where "SAMPLE_FLAG_CYCLE_EXCEED = 1"
definition SAMPLE_FLAG_RT_VIOLATION :: u8 where "SAMPLE_FLAG_RT_VIOLATION = 2"
definition SAMPLE_FLAG_OVERFLOW :: u8 where "SAMPLE_FLAG_OVERFLOW = 8"

definition METRIC_STAT_ORDER :: "(u8 \<times> string) list" where
  "METRIC_STAT_ORDER =
     [(1, ''min''), (2, ''max''), (4, ''mean''), (8, ''sum''), (16, ''count''), (32, ''stddev'')]"

text \<open>
  Seconds by truncating division, nanoseconds by Euclidean remainder. The sum stays within the range
  of \<^verbatim>\<open>i64\<close> for every argument.
\<close>

definition sample_datetime :: "ext \<Rightarrow> datetime \<Rightarrow> int \<Rightarrow> datetime" where
  "sample_datetime X now dc_ns =
     (case from_timestamp X (946684800 + trunc_div dc_ns 1000000000) (nat (dc_ns mod 1000000000)) of
        Some t \<Rightarrow> t
      | None \<Rightarrow> now)"

section \<open>Where an entry comes from\<close>

definition with_source :: "bridge_env \<Rightarrow> metric_entry \<Rightarrow> metric_entry" where
  "with_source E m = (if me_source m = [] then m\<lparr>me_source := be_source E\<rparr> else m)"

definition with_ams :: "bridge_env \<Rightarrow> string \<Rightarrow> metric_entry \<Rightarrow> metric_entry" where
  "with_ams E net_id m = with_source E (m\<lparr>me_ams_net_id := net_id\<rparr>)"

definition with_task :: "bridge_env \<Rightarrow> string \<Rightarrow> u16 \<Rightarrow> string \<Rightarrow> metric_entry \<Rightarrow> metric_entry" where
  "with_task E net_id task_port task_name m =
     with_source E (m\<lparr>me_ams_net_id := net_id, me_ams_source_port := task_port, me_task_name := task_name\<rparr>)"

definition with_sample_attrs :: "metric_entry \<Rightarrow> diag_sample \<Rightarrow> metric_entry" where
  "with_sample_attrs m s =
     m\<lparr>me_attributes :=
         hm_insert ''exec_time_us'' (JInt (uint (ds_exec_time_us s)))
           (hm_insert ''dc_time_ns'' (JInt (ds_dc_time s))
             (hm_insert ''cycle_count'' (JInt (uint (ds_cycle_count s))) (me_attributes m)))\<rparr>"

section \<open>Task batches\<close>

definition f64_one :: f64 where "f64_one = f64_of_nat 1"

definition sample_edges :: "bridge_env \<Rightarrow> string \<Rightarrow> task_diag_batch \<Rightarrow> nat \<Rightarrow> diag_sample \<Rightarrow> metric_entry list" where
  "sample_edges E net_id b i s =
     (let ts = sample_datetime (be_ext E) (be_late E i 0) (ds_dc_time s);
          edge = (\<lambda>m. (with_sample_attrs (with_task E net_id (tb_task_port b) (tb_task_name b) m) s)\<lparr>me_timestamp := ts\<rparr>)
      in (if ds_flags s AND SAMPLE_FLAG_CYCLE_EXCEED \<noteq> 0
          then [edge (metric_entry_sum ts ''tc.task.cycle_exceed_edge'' f64_one False),
                edge (metric_entry_gauge ts ''tc.task.cycle_exceed_exec_us'' (f64_of_nat (unat (ds_exec_time_us s))))]
          else []) @
         (if ds_flags s AND SAMPLE_FLAG_RT_VIOLATION \<noteq> 0
          then [edge (metric_entry_sum ts ''tc.task.rt_violation_edge'' f64_one False)] else []))"

definition batch_to_metrics :: "bridge_env \<Rightarrow> string \<Rightarrow> task_diag_batch \<Rightarrow> metric_entry list" where
  "batch_to_metrics E net_id b =
     (let task = with_task E net_id (tb_task_port b) (tb_task_name b);
          gauge = (\<lambda>k name v. task (metric_entry_gauge (be_now E k) name (f64_of_nat v)));
          sum = (\<lambda>k name v monot. task (metric_entry_sum (be_now E k) name (f64_of_nat v) monot));
          overflow_seen = list_ex (\<lambda>s. ds_flags s AND SAMPLE_FLAG_OVERFLOW \<noteq> 0) (tb_samples b)
      in [gauge 0 ''tc.task.exec_time_min_us'' (unat (tb_exec_time_min_us b)),
          gauge 1 ''tc.task.exec_time_max_us'' (unat (tb_exec_time_max_us b)),
          gauge 2 ''tc.task.exec_time_avg_us'' (unat (tb_exec_time_avg_us b)),
          gauge 3 ''tc.task.window_ms'' (unat (tb_window_ms b)),
          gauge 4 ''tc.task.sample_count'' (length (tb_samples b)),
          sum 5 ''tc.task.cycle_count'' (unat (tb_cycle_count_end b)) True,
          sum 6 ''tc.task.cycle_exceed_window'' (unat (tb_cycle_exceed_count b)) False,
          sum 7 ''tc.task.rt_violation_window'' (unat (tb_rt_violation_count b)) False] @
         concat (map (\<lambda>(i, s). sample_edges E net_id b i s) (enumerate 0 (tb_samples b))) @
         [gauge 8 ''tc.task.sample_buffer_overflow'' (if overflow_seen then 1 else 0)])"

section \<open>Metric batches\<close>

definition bucket_idx :: "f32 list \<Rightarrow> f32 \<Rightarrow> nat" where
  "bucket_idx bounds v = length (takeWhile (\<lambda>b. \<not> f32_less v b) bounds)"

definition one_observation :: "nat \<Rightarrow> nat \<Rightarrow> u64 list" where
  "one_observation n k = (replicate (n + 1) 0)[k := 1]"

definition descriptor_entry :: "metric_descriptor \<Rightarrow> datetime \<Rightarrow> f32 \<Rightarrow> metric_entry option" where
  "descriptor_entry desc ts v =
     (if md_kind desc = 0 then Some (metric_entry_gauge ts (md_name desc) (f64_of_f32 v))
      else if md_kind desc = 1 then
        Some (metric_entry_sum ts (md_name desc) (f64_of_f32 v) (md_flags desc AND 1 \<noteq> 0))
      else if md_kind desc = 2 then
        (case md_histogram_bounds desc of
           None \<Rightarrow> None
         | Some bounds \<Rightarrow>
             Some (metric_entry_histogram ts (md_name desc) (map f64_of_f32 bounds)
               (one_observation (length bounds) (bucket_idx bounds v)) 1 (f64_of_f32 v)))
      else None)"

definition metric_sample_entry ::
    "bridge_env \<Rightarrow> string \<Rightarrow> (u16, metric_descriptor) hmap \<Rightarrow> nat \<Rightarrow> metric_sample \<Rightarrow> metric_entry option" where
  "metric_sample_entry E net_id cache i s =
     (case hm_get cache (ms_metric_id s) of
        None \<Rightarrow> None
      | Some desc \<Rightarrow>
          let ts = sample_datetime (be_ext E) (be_late E i 0) (ms_dc_time s) in
          map_option (\<lambda>m.
            m\<lparr>me_description := md_description desc, me_unit := md_unit desc, me_timestamp := ts,
              me_ams_net_id := net_id, me_scope_namespace := md_scope_namespace desc,
              me_source := be_source E,
              me_attributes :=
                fold (\<lambda>(k, v) a. hm_insert k (JString v) a) (md_attributes desc) (me_attributes m)\<rparr>)
            (descriptor_entry desc ts (ms_value s)))"

definition metric_batch_to_entries ::
    "bridge_env \<Rightarrow> string \<Rightarrow> (u16, metric_descriptor) hmap \<Rightarrow> metric_sample list \<Rightarrow> metric_entry list" where
  "metric_batch_to_entries E net_id cache samples =
     List.map_filter (\<lambda>(i, s). metric_sample_entry E net_id cache i s) (enumerate 0 samples)"

definition descriptor_cache :: "metric_descriptor list \<Rightarrow> (u16, metric_descriptor) hmap" where
  "descriptor_cache descriptors = fold (\<lambda>d m. hm_insert (md_metric_id d) d m) descriptors []"

section \<open>Aggregate batches\<close>

definition discrete_bytes_to_f64 :: "u8 list \<Rightarrow> f64" where
  "discrete_bytes_to_f64 bytes = f64_of_nat (unat (u64_from_le (take 8 bytes @ replicate (8 - length bytes) 0)))"

fun body_schema_name :: "metric_body_schema \<Rightarrow> string" where
  "body_schema_name BoolSchema = ''bool''"
| "body_schema_name NumericSchema = ''numeric''"
| "body_schema_name DiscreteSchema = ''discrete''"
| "body_schema_name StringSchema = ''string''"
| "body_schema_name WstringSchema = ''wstring''"
| "body_schema_name NumericAggregatedSchema = ''numericaggregated''"

definition build_aggregate_entry ::
    "bridge_env \<Rightarrow> string \<Rightarrow> metric_aggregate_batch \<Rightarrow> datetime \<Rightarrow> int \<Rightarrow> string \<Rightarrow> f64 \<Rightarrow> metric_entry" where
  "build_aggregate_entry E net_id b late ts_ns name v =
     (let ts = sample_datetime (be_ext E) late ts_ns;
          a = hm_insert ''sample_size'' (JInt (uint (ma_sample_size b)))
                (hm_insert ''body_schema'' (JString (body_schema_name (ma_body_schema b)))
                  (hm_insert ''metric_id'' (JInt (uint (ma_metric_id b))) []));
          a' = (if ma_flags b AND METRIC_FLAG_RING_OVERFLOWED \<noteq> 0
                then hm_insert ''ring_overflowed'' (JBool True) a else a)
      in (metric_entry_gauge ts name v)
           \<lparr>me_unit := ma_unit b, me_timestamp := ts, me_ams_net_id := net_id,
            me_task_index := uint (ma_task_index b), me_source := be_source E,
            me_scope_namespace := ma_scope_namespace b, me_attributes := a',
            me_trace_id := (case ma_trace_id b of Some t \<Rightarrow> t | None \<Rightarrow> no_trace),
            me_span_id := (case ma_span_id b of Some s \<Rightarrow> s | None \<Rightarrow> no_span)\<rparr>)"

text \<open>The statistics of an aggregated sample that are set in its mask, with the values they take.\<close>

fun stat_values :: "u8 \<Rightarrow> (u8 \<times> string) list \<Rightarrow> f64 list \<Rightarrow> (string \<times> f64) list" where
  "stat_values stats_set [] values = []"
| "stat_values stats_set ((b, label) # stats) values =
     (if stats_set AND b = 0 then stat_values stats_set stats values
      else (case values of [] \<Rightarrow> [] | v # vs \<Rightarrow> (label, v) # stat_values stats_set stats vs))"

fun sample_values :: "string \<Rightarrow> metric_aggregate_sample \<Rightarrow> (string \<times> f64) list" where
  "sample_values name (SNumericAggregated stats_set values) =
     map (\<lambda>(label, v). (name @ ''.'' @ label, v)) (stat_values stats_set METRIC_STAT_ORDER values)"
| "sample_values name (SBool v) = [(name, if v then f64_one else 0)]"
| "sample_values name (SNumeric v) = [(name, v)]"
| "sample_values name (SDiscrete bytes) = [(name, discrete_bytes_to_f64 bytes)]"
| "sample_values name (SString _) = []"
| "sample_values name (SWstring _) = []"

definition window_span :: "bool \<Rightarrow> metric_aggregate_batch \<Rightarrow> (unit, int) res" where
  "window_span checks b =
     bind_res (i64_result checks (ma_dc_time_end b - ma_dc_time_start b)) (\<lambda>d. Ok (max d 0))"

definition cycle_time_ns :: "metric_aggregate_batch \<Rightarrow> int \<Rightarrow> int option" where
  "cycle_time_ns b span =
     (let cycles = uint (ma_cycle_count_end b - ma_cycle_count_start b) in
      if 0 < cycles \<and> 0 < span then Some (span div cycles) else None)"

definition linear_ts :: "bool \<Rightarrow> metric_aggregate_batch \<Rightarrow> int \<Rightarrow> nat \<Rightarrow> (unit, int) res" where
  "linear_ts checks b span i =
     (let n = length (ma_samples b) in
      if n = 1 then Ok (ma_dc_time_start b)
      else bind_res (i64_result checks (int i * span)) (\<lambda>p.
             i64_result checks (ma_dc_time_start b + trunc_div p (max (int n - 1) 1))))"

definition cycle_ts :: "bool \<Rightarrow> metric_aggregate_batch \<Rightarrow> int \<Rightarrow> nat \<Rightarrow> (unit, int) res" where
  "cycle_ts checks b span i =
     (case (ma_sample_cycle_offsets b, cycle_time_ns b span) of
        (Some offs, Some cns) \<Rightarrow>
          if i < length offs
          then bind_res (i64_result checks (uint (offs ! i) * cns)) (\<lambda>p. i64_result checks (ma_dc_time_start b + p))
          else linear_ts checks b span i
      | _ \<Rightarrow> linear_ts checks b span i)"

definition sample_ts :: "bool \<Rightarrow> metric_aggregate_batch \<Rightarrow> int \<Rightarrow> nat \<Rightarrow> (unit, int) res" where
  "sample_ts checks b span i =
     (case ma_sample_dc_times b of
        Some stamps \<Rightarrow> if i < length stamps then Ok (stamps ! i) else cycle_ts checks b span i
      | None \<Rightarrow> cycle_ts checks b span i)"

definition sample_entries ::
    "bridge_env \<Rightarrow> string \<Rightarrow> metric_aggregate_batch \<Rightarrow> int \<Rightarrow> nat \<times> metric_aggregate_sample \<Rightarrow>
     (unit, metric_entry list) res" where
  "sample_entries E net_id b span = (\<lambda>(i, s).
     bind_res (sample_ts (overflow_checks (be_ext E)) b span i) (\<lambda>ts_ns.
       Ok (map (\<lambda>(k, name, v). build_aggregate_entry E net_id b (be_late E i k) ts_ns name v)
             (enumerate 0 (sample_values (ma_name b) s)))))"

definition metric_aggregate_to_entries ::
    "bridge_env \<Rightarrow> string \<Rightarrow> metric_aggregate_batch \<Rightarrow> (unit, metric_entry list) res" where
  "metric_aggregate_to_entries E net_id b =
     (if ma_samples b = [] then Ok []
      else bind_res (window_span (overflow_checks (be_ext E)) b) (\<lambda>span.
             bind_res (map_all (sample_entries E net_id b span) (enumerate 0 (ma_samples b))) (\<lambda>entries.
               Ok (concat entries))))"

section \<open>Events\<close>

text \<open>The products of tick counts and 100.0 are exact.\<close>

definition diag_event_to_metrics ::
    "bridge_env \<Rightarrow> ams_net_id \<Rightarrow> (ams_net_id \<times> u16, string) hmap \<Rightarrow> diag_event \<Rightarrow> (unit, metric_entry list) res" where
  "diag_event_to_metrics E target task_names ev =
     (let net_id = show_net_id target; now = be_now E in
      case ev of
        ExceedCounter v \<Rightarrow>
          Ok [with_ams E net_id (metric_entry_sum (now 0) ''tc.rt.exceed_counter'' (f64_of_nat (unat v)) True)]
      | ExceedReset \<Rightarrow> Ok [with_ams E net_id (metric_entry_sum (now 0) ''tc.rt.exceed_counter'' 0 False)]
      | RtUsage u \<Rightarrow>
          Ok (map (\<lambda>(k, name, v). with_ams E net_id (metric_entry_gauge (now k) name (f64_of_nat (unat v))))
               [(0, ''tc.rt.cpu_usage_percent'', ru_cpu_percent u),
                (1, ''tc.rt.system_latency_us'', ru_system_latency_us u),
                (2, ''tc.rt.peak_latency_us'', ru_peak_latency_us u)])
      | TaskStats t \<Rightarrow>
          (let port = ts_task_port t;
               task_name = (case hm_get task_names (target, port) of
                              Some name \<Rightarrow> name
                            | None \<Rightarrow> ''port-'' @ show_nat (unat port))
           in Ok (map (\<lambda>(k, name, v). with_task E net_id port task_name (metric_entry_sum (now k) name (f64_of_nat v) True))
                   [(0, ''tc.task.cpu_time_ns'', unat (ts_cpu_ticks_100ns t) * 100),
                    (1, ''tc.task.exec_time_ns'', unat (ts_exec_ticks_100ns t) * 100),
                    (2, ''tc.task.cycle_count'', unat (ts_cycle_counter t))]))
      | TaskDiagBatch b \<Rightarrow> Ok (batch_to_metrics E net_id b)
      | MetricBatch b \<Rightarrow>
          Ok (metric_batch_to_entries E net_id (descriptor_cache (mb_descriptors b)) (mb_samples b))
      | MetricAggregateBatch b \<Rightarrow> metric_aggregate_to_entries E net_id b)"

section \<open>The drain task\<close>

definition backfill_entry ::
    "(registration_key, task_metadata) iter \<Rightarrow> registry \<Rightarrow> metric_entry \<Rightarrow> metric_entry" where
  "backfill_entry ord reg m =
     (if me_ams_net_id m = [] then m
      else
        case lookup_partial ord reg (me_ams_net_id m)
               (if me_ams_source_port m \<noteq> 0 then Some (me_ams_source_port m) else None)
               (if 0 < me_task_index m then Some (word_of_int (me_task_index m)) else None) of
          None \<Rightarrow> m
        | Some (k, meta) \<Rightarrow>
            m\<lparr>me_ams_app_port := (if me_ams_app_port m = 0 then tm_app_port meta else me_ams_app_port m),
              me_ams_source_port := (if me_ams_source_port m = 0 then rk_ams_source_port k else me_ams_source_port m),
              me_task_index := (if me_task_index m = 0 then uint (rk_task_index k) else me_task_index m),
              me_app_name := (if tm_app_name meta \<noteq> [] then tm_app_name meta else me_app_name m),
              me_project_name := (if tm_project_name meta \<noteq> [] then tm_project_name meta else me_project_name m),
              me_task_name := (if tm_task_name meta \<noteq> [] then tm_task_name meta else me_task_name m)\<rparr>)"

definition backfill_metrics_from_registry ::
    "(registration_key, task_metadata) iter \<Rightarrow> registry \<Rightarrow> metric_entry list \<Rightarrow> metric_entry list" where
  "backfill_metrics_from_registry ord reg metrics = map (backfill_entry ord reg) metrics"

text \<open>
  \<^verbatim>\<open>try_send\<close> of each entry on a bounded channel; the receiver may take \<open>taken k\<close> entries out before
  the \<open>k\<close>-th attempt.
\<close>

fun send_entries :: "nat \<Rightarrow> (nat \<Rightarrow> nat) \<Rightarrow> nat \<Rightarrow> metric_entry list \<Rightarrow> metric_entry list \<Rightarrow>
    metric_entry list \<times> metric_entry list" where
  "send_entries capacity taken k q [] = ([], q)"
| "send_entries capacity taken k q (m # ms) =
     (let q' = drop (taken k) q; room = length q' < capacity;
          (out, q'') = send_entries capacity taken (Suc k) (if room then q' @ [m] else q') ms
      in (take (taken k) q @ out, q''))"

definition drain_event ::
    "bridge_env \<Rightarrow> (registration_key, task_metadata) iter \<Rightarrow> registry \<Rightarrow> nat \<Rightarrow> (nat \<Rightarrow> nat) \<Rightarrow>
     metric_entry list option \<Rightarrow> ams_net_id \<times> diag_event \<Rightarrow>
     (unit, metric_entry list \<times> metric_entry list option) res" where
  "drain_event E ord reg capacity taken channel = (\<lambda>(net_id, ev).
     bind_res (diag_event_to_metrics E net_id [] ev) (\<lambda>metrics.
       let metrics' = backfill_metrics_from_registry ord reg metrics in
       Ok (case channel of
             None \<Rightarrow> ([], None)
           | Some q \<Rightarrow> (case send_entries capacity taken 0 q metrics' of (out, q') \<Rightarrow> (out, Some q')))))"


section \<open>Timestamps of aggregate samples\<close>

text \<open>The cycles an offset may name: none after the last one of the window.\<close>

definition offsets_in_window :: "metric_aggregate_batch \<Rightarrow> bool" where
  "offsets_in_window b =
     (case ma_sample_cycle_offsets b of
        None \<Rightarrow> True
      | Some offs \<Rightarrow> length offs = length (ma_samples b) \<and>
                      list_all (\<lambda>x. uint x \<le> uint (ma_cycle_count_end b - ma_cycle_count_start b)) offs \<and>
                      sorted (map uint offs))"

definition window_ok :: "metric_aggregate_batch \<Rightarrow> bool" where
  "window_ok b =
     (i64_range (ma_dc_time_start b) \<and> i64_range (ma_dc_time_end b) \<and>
      ma_dc_time_start b \<le> ma_dc_time_end b \<and>
      i64_range (int (length (ma_samples b)) * (ma_dc_time_end b - ma_dc_time_start b)))"

lemma trunc_div_nonneg [simp]: "0 \<le> a \<Longrightarrow> trunc_div a b = a div b"
  by (simp add: trunc_div_def)

lemma i64_range_between: "i64_range a \<Longrightarrow> i64_range c \<Longrightarrow> a \<le> b \<Longrightarrow> b \<le> c \<Longrightarrow> i64_range b"
  by (simp add: i64_range_def)

lemma i64_range_0 [simp]: "i64_range 0"
  by (simp add: i64_range_def)

lemma scaled_within: "(0 :: int) \<le> w \<Longrightarrow> 0 \<le> k \<Longrightarrow> k \<le> d \<Longrightarrow> 0 < d \<Longrightarrow> k * w div d \<le> w"
  by (metis mult.commute mult_right_mono nonzero_mult_div_cancel_left order_less_irrefl zdiv_mono1)

definition linear_point :: "metric_aggregate_batch \<Rightarrow> nat \<Rightarrow> int" where
  "linear_point b i =
     (if length (ma_samples b) = 1 then ma_dc_time_start b
      else ma_dc_time_start b +
           int i * (ma_dc_time_end b - ma_dc_time_start b) div (int (length (ma_samples b)) - 1))"

lemma linear_ts_window:
  assumes w: "window_ok b" and i: "i < length (ma_samples b)"
  shows "linear_ts checks b (ma_dc_time_end b - ma_dc_time_start b) i = Ok (linear_point b i)"
    "ma_dc_time_start b \<le> linear_point b i" "linear_point b i \<le> ma_dc_time_end b"
proof -
  let ?n = "length (ma_samples b)" and ?w = "ma_dc_time_end b - ma_dc_time_start b"
  have nonneg: "0 \<le> ?w" and rng: "i64_range (ma_dc_time_start b)" "i64_range (ma_dc_time_end b)" "i64_range (int ?n * ?w)"
    using w by (simp_all add: window_ok_def)
  have "ma_dc_time_start b \<le> linear_point b i \<and> linear_point b i \<le> ma_dc_time_end b \<and>
        linear_ts checks b ?w i = Ok (linear_point b i)"
  proof (cases "?n = 1")
    case False
    then have d: "0 < int ?n - 1" "int i \<le> int ?n - 1" using i by auto
    have q: "0 \<le> int i * ?w div (int ?n - 1)" "int i * ?w div (int ?n - 1) \<le> ?w"
      using d nonneg scaled_within [of ?w "int i" "int ?n - 1"] by (auto simp: pos_imp_zdiv_nonneg_iff)
    have "int i * ?w \<le> int ?n * ?w" using i nonneg by (intro mult_right_mono) auto
    moreover have pos: "0 \<le> int i * ?w" using nonneg by simp
    ultimately have "i64_range (int i * ?w)" using rng(3) i64_range_between [OF i64_range_0] by blast
    moreover have "i64_range (linear_point b i)"
      using False q rng i64_range_between [OF rng(1,2)] by (simp add: linear_point_def)
    ultimately show ?thesis using False q pos d by (simp add: linear_ts_def linear_point_def)
  qed (use nonneg in \<open>simp add: linear_ts_def linear_point_def\<close>)
  then show "linear_ts checks b ?w i = Ok (linear_point b i)" "ma_dc_time_start b \<le> linear_point b i"
    "linear_point b i \<le> ma_dc_time_end b" by auto
qed

lemma linear_point_mono:
  "ma_dc_time_start b \<le> ma_dc_time_end b \<Longrightarrow> i \<le> j \<Longrightarrow> j < length (ma_samples b) \<Longrightarrow>
   linear_point b i \<le> linear_point b j"
  by (auto simp: linear_point_def intro!: zdiv_mono1 mult_right_mono)

text \<open>The time the code gives a sample that has none of its own.\<close>

definition sample_point :: "metric_aggregate_batch \<Rightarrow> nat \<Rightarrow> int" where
  "sample_point b i =
     (case (ma_sample_cycle_offsets b, cycle_time_ns b (ma_dc_time_end b - ma_dc_time_start b)) of
        (Some offs, Some cns) \<Rightarrow>
          if i < length offs then ma_dc_time_start b + uint (offs ! i) * cns else linear_point b i
      | _ \<Rightarrow> linear_point b i)"

lemma offset_window:
  assumes w: "window_ok b" and o: "offsets_in_window b" "ma_sample_cycle_offsets b = Some offs" "i < length offs"
    and c: "cycle_time_ns b (ma_dc_time_end b - ma_dc_time_start b) = Some cns"
  shows "0 \<le> uint (offs ! i) * cns" "uint (offs ! i) * cns \<le> ma_dc_time_end b - ma_dc_time_start b" "0 \<le> cns"
proof -
  let ?w = "ma_dc_time_end b - ma_dc_time_start b" and ?c = "uint (ma_cycle_count_end b - ma_cycle_count_start b)"
  have cns: "0 < ?c" "0 < ?w" "cns = ?w div ?c"
    using c by (simp_all add: cycle_time_ns_def Let_def split: if_splits)
  then show "0 \<le> cns" by (simp add: pos_imp_zdiv_nonneg_iff)
  moreover have "uint (offs ! i) \<le> ?c" using o by (simp add: offsets_in_window_def list_all_length)
  ultimately have "uint (offs ! i) * cns \<le> ?c * cns" by (intro mult_right_mono) auto
  also have "\<dots> \<le> ?w" using cns minus_mod_eq_mult_div [of ?w ?c, symmetric] by simp
  finally show "uint (offs ! i) * cns \<le> ?w" .
  show "0 \<le> uint (offs ! i) * cns" using \<open>0 \<le> cns\<close> by simp
qed

lemma sample_ts_window:
  assumes w: "window_ok b" and o: "offsets_in_window b" and t: "ma_sample_dc_times b = None"
    and i: "i < length (ma_samples b)"
  shows "sample_ts checks b (ma_dc_time_end b - ma_dc_time_start b) i = Ok (sample_point b i) \<and>
    ma_dc_time_start b \<le> sample_point b i \<and> sample_point b i \<le> ma_dc_time_end b"
proof (cases "ma_sample_cycle_offsets b")
  case None
  then show ?thesis
    using t linear_ts_window(1) [OF w i, of checks] linear_ts_window(2,3) [OF w i] by (simp add: sample_ts_def cycle_ts_def sample_point_def)
next
  case (Some offs)
  then have i': "i < length offs" using o i by (simp add: offsets_in_window_def)
  show ?thesis
  proof (cases "cycle_time_ns b (ma_dc_time_end b - ma_dc_time_start b)")
    case None
    then show ?thesis
      using t Some linear_ts_window(1) [OF w i, of checks] linear_ts_window(2,3) [OF w i] by (simp add: sample_ts_def cycle_ts_def sample_point_def)
  next
    case c: (Some cns)
    let ?p = "uint (offs ! i) * cns" and ?w = "ma_dc_time_end b - ma_dc_time_start b"
    note p = offset_window(1,2) [OF w o Some i' c]
    have rng: "i64_range (ma_dc_time_start b)" "i64_range (ma_dc_time_end b)"
      and all: "i64_range (int (length (ma_samples b)) * ?w)" using w by (simp_all add: window_ok_def)
    have "1 * ?w \<le> int (length (ma_samples b)) * ?w"
      using i w by (intro mult_right_mono) (auto simp: window_ok_def)
    then have "?p \<le> int (length (ma_samples b)) * ?w" using p by simp
    then have "i64_range ?p" using i64_range_between [OF i64_range_0 all p(1)] by blast
    moreover have "i64_range (ma_dc_time_start b + ?p)"
      using p by (intro i64_range_between [OF rng]) auto
    ultimately show ?thesis
      using t Some c i' p by (simp add: sample_ts_def cycle_ts_def sample_point_def)
  qed
qed

lemma sample_point_mono:
  assumes w: "window_ok b" and o: "offsets_in_window b" and ij: "i \<le> j" "j < length (ma_samples b)"
  shows "sample_point b i \<le> sample_point b j"
proof (cases "ma_sample_cycle_offsets b = None \<or> cycle_time_ns b (ma_dc_time_end b - ma_dc_time_start b) = None")
  case True
  then show ?thesis
    using w ij linear_point_mono [of b i j] by (auto simp: sample_point_def window_ok_def split: option.splits)
next
  case False
  then obtain offs cns where oc: "ma_sample_cycle_offsets b = Some offs"
    "cycle_time_ns b (ma_dc_time_end b - ma_dc_time_start b) = Some cns" by auto
  then have len: "j < length offs" and srt: "sorted (map uint offs)"
    using o ij by (simp_all add: offsets_in_window_def)
  have "map uint offs ! i \<le> map uint offs ! j" using sorted_nth_mono [OF srt ij(1)] len by simp
  then have "uint (offs ! i) \<le> uint (offs ! j)" using len ij by simp
  then show ?thesis
    using oc len ij offset_window(3) [OF w o oc(1) len oc(2)] by (simp add: sample_point_def mult_right_mono)
qed

text \<open>The entries of an aggregate when the sample \<open>i\<close> has the time \<open>t i\<close>.\<close>

definition aggregate_entries ::
    "bridge_env \<Rightarrow> string \<Rightarrow> metric_aggregate_batch \<Rightarrow> (nat \<Rightarrow> int) \<Rightarrow> metric_entry list" where
  "aggregate_entries E net_id b t =
     concat (map (\<lambda>(i, s). map (\<lambda>(k, name, v). build_aggregate_entry E net_id b (be_late E i k) (t i) name v)
       (enumerate 0 (sample_values (ma_name b) s))) (enumerate 0 (ma_samples b)))"

lemma aggregate_entries_eq:
  assumes span: "window_span (overflow_checks (be_ext E)) b = Ok span"
    and ts: "\<And>i. i < length (ma_samples b) \<Longrightarrow> sample_ts (overflow_checks (be_ext E)) b span i = Ok (t i)"
  shows "metric_aggregate_to_entries E net_id b = Ok (aggregate_entries E net_id b t)"
proof -
  have "map_all (sample_entries E net_id b span) (enumerate 0 (ma_samples b)) =
    Ok (map (\<lambda>(i, s). map (\<lambda>(k, name, v). build_aggregate_entry E net_id b (be_late E i k) (t i) name v)
       (enumerate 0 (sample_values (ma_name b) s))) (enumerate 0 (ma_samples b)))"
    by (rule map_all_Ok) (auto simp: sample_entries_def ts in_set_enumerate_eq)
  then show ?thesis
    using span by (simp add: metric_aggregate_to_entries_def aggregate_entries_def)
qed

section \<open>Entries are fit for export\<close>

definition exportable :: "metric_entry \<Rightarrow> bool" where
  "exportable m \<longleftrightarrow>
     length (me_trace_id m) = 16 \<and> length (me_span_id m) = 8 \<and>
     (me_kind m = Histogram \<longrightarrow> length (me_histogram_counts m) = length (me_histogram_bounds m) + 1)"

lemma exportable_new [simp]:
  "exportable (metric_entry_gauge now name v)" "exportable (metric_entry_sum now name v monot)"
  "length cs = length bs + 1 \<Longrightarrow> exportable (metric_entry_histogram now name bs cs n t)"
  by (simp_all add: exportable_def metric_entry_gauge_def metric_entry_sum_def metric_entry_histogram_def)

lemma exportable_upd [simp]:
  "exportable (with_source E m) = exportable m" "exportable (with_sample_attrs m s) = exportable m"
  "exportable (m\<lparr>me_timestamp := ts\<rparr>) = exportable m"
  by (simp_all add: exportable_def with_source_def with_sample_attrs_def)

lemma exportable_with [simp]:
  "exportable (with_ams E net m) = exportable m" "exportable (with_task E net port name m) = exportable m"
  by (simp_all add: with_ams_def with_task_def) (simp_all add: exportable_def)

lemma exportable_backfill [simp]: "exportable (backfill_entry ord reg m) = exportable m"
  by (simp add: backfill_entry_def exportable_def split: option.splits)

lemma exportable_edges: "m \<in> set (sample_edges E net b i s) \<Longrightarrow> exportable m"
  by (auto simp: sample_edges_def Let_def split: if_splits)

lemma exportable_batch: "m \<in> set (batch_to_metrics E net b) \<Longrightarrow> exportable m"
  by (auto simp: batch_to_metrics_def Let_def dest: exportable_edges)

lemma length_one_observation [simp]: "length (one_observation n k) = Suc n"
  unfolding one_observation_def by (simp only: length_list_update length_replicate)

lemma exportable_descriptor: "descriptor_entry d ts v = Some m \<Longrightarrow> exportable m"
  by (auto simp: descriptor_entry_def split: if_splits option.splits)

lemma exportable_sample: "metric_sample_entry E net cache i s = Some m \<Longrightarrow> exportable m"
  by (auto simp: metric_sample_entry_def Let_def exportable_def split: option.splits
      dest!: exportable_descriptor [unfolded exportable_def])

lemma exportable_metric_batch: "m \<in> set (metric_batch_to_entries E net cache samples) \<Longrightarrow> exportable m"
  by (auto simp: metric_batch_to_entries_def List.map_filter_def dest: exportable_sample)

lemma exportable_aggregate:
  "ids_ok f (ma_trace_id b, ma_span_id b) \<Longrightarrow> m \<in> set (aggregate_entries E net b t) \<Longrightarrow> exportable m"
  by (auto simp: aggregate_entries_def build_aggregate_entry_def Let_def exportable_def ids_ok_def
      metric_entry_gauge_def split: if_splits)

text \<open>The ids of an entry as an exemplar of its data point; the zero id counts as none.\<close>

definition wire_exemplars :: "export_ops \<Rightarrow> metric_entry \<Rightarrow> exemplar list" where
  "wire_exemplars P m =
     (let t = (if me_trace_id m = no_trace then [] else me_trace_id m);
          s = (if me_span_id m = no_span then [] else me_span_id m)
      in if t = [] \<and> s = [] then []
         else [\<lparr>ep_time_unix_nano = datetime_to_unix_nano P (me_timestamp m), ep_span_id = s,
                ep_trace_id = t, ep_value = me_value m\<rparr>])"

fun data_exemplars :: "metric_data \<Rightarrow> exemplar list" where
  "data_exemplars (GaugeData p) = nd_exemplars p"
| "data_exemplars (SumData p _ _) = nd_exemplars p"
| "data_exemplars (HistogramData p _) = hp_exemplars p"

lemma build_exemplars_entry:
  "length (me_trace_id m) = 16 \<Longrightarrow> length (me_span_id m) = 8 \<Longrightarrow>
   build_exemplars (from_metric_entry m) (datetime_to_unix_nano P (me_timestamp m)) = Ok (wire_exemplars P m)"
  by (auto simp: build_exemplars_def from_metric_entry_def metric_trace_id_hex_def metric_span_id_hex_def
      wire_exemplars_def hex_string_Nil_iff Let_def)

lemma from_metric_entry_fields [simp]:
  "mr_timestamp (from_metric_entry m) = me_timestamp m" "mr_kind (from_metric_entry m) = me_kind m"
  "mr_name (from_metric_entry m) = me_name m"
  "mr_histogram_counts (from_metric_entry m) = me_histogram_counts m"
  "mr_histogram_bounds (from_metric_entry m) = me_histogram_bounds m"
  by (simp_all add: from_metric_entry_def)

lemma build_metric_entry:
  "exportable m \<Longrightarrow> \<exists>pm. build_metric checks P iter (from_metric_entry m) = Ok pm \<and>
     pm_name pm = me_name m \<and> data_exemplars (pm_data pm) = wire_exemplars P m"
  by (cases "me_kind m")
    (auto simp: build_metric_def exportable_def build_number_data_point_def build_histogram_data_point_def
      build_exemplars_entry Let_def)

lemma sample_ts_unchecked: "\<exists>t. sample_ts False b span i = Ok t"
  by (auto simp: sample_ts_def cycle_ts_def linear_ts_def Let_def split: option.splits)

lemma aggregate_unchecked:
  assumes "\<not> overflow_checks (be_ext E)"
  shows "\<exists>t. metric_aggregate_to_entries E net b = Ok (aggregate_entries E net b t)"
proof -
  let ?span = "max (wrap_i64 (ma_dc_time_end b - ma_dc_time_start b)) 0"
  obtain t where "\<And>i. sample_ts False b ?span i = Ok (t i)" using sample_ts_unchecked by metis
  then have "metric_aggregate_to_entries E net b = Ok (aggregate_entries E net b t)"
    using assms by (intro aggregate_entries_eq [of _ _ ?span]) (simp_all add: window_span_def)
  then show ?thesis by blast
qed

text \<open>A sample of a plain numeric schema is one entry.\<close>

definition scalar_schema :: "metric_body_schema \<Rightarrow> bool" where
  "scalar_schema c \<longleftrightarrow> c = BoolSchema \<or> c = NumericSchema \<or> c = DiscreteSchema"

lemma length_scalar: "scalar_schema c \<Longrightarrow> sample_matches c n m s \<Longrightarrow> length (sample_values name s) = 1"
  by (cases s; cases c) (auto simp: scalar_schema_def)

lemma length_aggregate_entries:
  assumes "scalar_schema (ma_body_schema b)"
    "list_all (sample_matches (ma_body_schema b) n m) (ma_samples b)"
  shows "length (aggregate_entries E net b t) = length (ma_samples b)"
proof -
  have "map (\<lambda>(i, s). length (sample_values (ma_name b) s)) (enumerate k xs) = map (\<lambda>_. 1) xs"
    if "set xs \<subseteq> set (ma_samples b)" for k xs
    using that assms length_scalar by (induction xs arbitrary: k) (auto simp: list_all_iff)
  from this [of "ma_samples b" 0] show ?thesis
    by (simp add: aggregate_entries_def length_concat comp_def case_prod_unfold sum_list_triv)
qed

section \<open>Samples of a metric batch\<close>

text \<open>The descriptor a sample refers to is the last one the same batch announces for its id.\<close>

definition announced :: "metric_descriptor list \<Rightarrow> u16 \<Rightarrow> metric_descriptor option" where
  "announced ds i = List.find (\<lambda>d. md_metric_id d = i) (rev ds)"

definition usable :: "metric_descriptor list \<Rightarrow> metric_sample \<Rightarrow> bool" where
  "usable ds s =
     (case announced ds (ms_metric_id s) of
        None \<Rightarrow> False
      | Some d \<Rightarrow> md_kind d = 0 \<or> md_kind d = 1 \<or> md_kind d = 2 \<and> md_histogram_bounds d \<noteq> None)"

definition observes :: "f32 list \<Rightarrow> f32 \<Rightarrow> metric_entry \<Rightarrow> bool" where
  "observes bounds v m \<longleftrightarrow>
     me_histogram_bounds m = map f64_of_f32 bounds \<and> me_histogram_count m = 1 \<and>
     me_histogram_sum m = f64_of_f32 v \<and>
     (\<exists>k \<le> length bounds. me_histogram_counts m = replicate k 0 @ [1] @ replicate (length bounds - k) 0 \<and>
        (\<forall>j < k. \<not> f32_less v (bounds ! j)) \<and> (k < length bounds \<longrightarrow> f32_less v (bounds ! k)))"

definition records_sample ::
    "ext \<Rightarrow> string \<Rightarrow> metric_descriptor list \<Rightarrow> metric_sample \<Rightarrow> metric_entry \<Rightarrow> bool" where
  "records_sample X net ds s m \<longleftrightarrow>
     (\<exists>d now. announced ds (ms_metric_id s) = Some d \<and>
        me_name m = md_name d \<and> me_unit m = md_unit d \<and> me_description m = md_description d \<and>
        me_scope_namespace m = md_scope_namespace d \<and> me_ams_net_id m = net \<and>
        me_timestamp m = sample_datetime X now (ms_dc_time s) \<and>
        (md_kind d = 0 \<longrightarrow> me_kind m = Gauge \<and> me_value m = f64_of_f32 (ms_value s)) \<and>
        (md_kind d = 1 \<longrightarrow> me_kind m = Sum \<and> me_value m = f64_of_f32 (ms_value s) \<and>
           me_is_monotonic m = (md_flags d AND 1 \<noteq> 0)) \<and>
        (md_kind d = 2 \<longrightarrow> me_kind m = Histogram \<and> observes (the (md_histogram_bounds d)) (ms_value s) m))"

lemma hm_get_cache: "hm_get (descriptor_cache ds) i = announced ds i"
proof (induction ds rule: rev_induct)
  case (snoc d ds)
  then show ?case by (simp add: descriptor_cache_def announced_def hm.get_insert)
qed (simp add: descriptor_cache_def announced_def hm_get_def)

lemma one_observation_eq: "k \<le> n \<Longrightarrow> one_observation n k = replicate k 0 @ [1] @ replicate (n - k) 0"
  unfolding one_observation_def
  by (rule nth_equalityI) (auto simp: nth_list_update nth_append nth_Cons nth_replicate simp del: replicate_Suc split: nat.splits)

lemma bucket_idx_correct:
  "bucket_idx bounds v \<le> length bounds"
  "j < bucket_idx bounds v \<Longrightarrow> \<not> f32_less v (bounds ! j)"
  "bucket_idx bounds v < length bounds \<Longrightarrow> f32_less v (bounds ! bucket_idx bounds v)"
  unfolding bucket_idx_def
  by (simp add: length_takeWhile_le, metis nth_mem set_takeWhileD takeWhile_nth, metis nth_length_takeWhile)

lemma observes_histogram:
  "observes bounds v (metric_entry_histogram ts name (map f64_of_f32 bounds)
     (one_observation (length bounds) (bucket_idx bounds v)) 1 (f64_of_f32 v))"
  unfolding observes_def
proof (intro conjI)
  let ?m = "metric_entry_histogram ts name (map f64_of_f32 bounds)
     (one_observation (length bounds) (bucket_idx bounds v)) 1 (f64_of_f32 v)"
  have "me_histogram_counts ?m = replicate (bucket_idx bounds v) 0 @ [1] @ replicate (length bounds - bucket_idx bounds v) 0"
    using one_observation_eq [OF bucket_idx_correct(1)] by (simp add: metric_entry_histogram_def)
  then show "\<exists>k \<le> length bounds. me_histogram_counts ?m = replicate k 0 @ [1] @ replicate (length bounds - k) 0 \<and>
      (\<forall>j < k. \<not> f32_less v (bounds ! j)) \<and> (k < length bounds \<longrightarrow> f32_less v (bounds ! k))"
    using bucket_idx_correct by blast
qed (simp_all add: metric_entry_histogram_def)

lemma observes_upd:
  "observes bounds v (m\<lparr>me_description := a, me_unit := b, me_timestamp := c, me_ams_net_id := d,
     me_scope_namespace := e, me_source := f, me_attributes := g\<rparr>) = observes bounds v m"
  by (simp add: observes_def)

lemmas sample_entry_simps = metric_sample_entry_def hm_get_cache descriptor_entry_def Let_def

lemma records_usable:
  assumes "usable ds s"
  shows "\<exists>m. metric_sample_entry E net (descriptor_cache ds) i s = Some m \<and> records_sample (be_ext E) net ds s m"
proof -
  obtain d where d: "announced ds (ms_metric_id s) = Some d"
    "md_kind d = 0 \<or> md_kind d = 1 \<or> md_kind d = 2 \<and> md_histogram_bounds d \<noteq> None"
    using assms by (auto simp: usable_def split: option.splits)
  then consider "md_kind d = 0" | "md_kind d = 1" | bounds where "md_kind d = 2" "md_histogram_bounds d = Some bounds"
    by auto
  then show ?thesis
  proof cases
    case 1
    then show ?thesis
      using d(1) by (auto simp: sample_entry_simps records_sample_def metric_entry_gauge_def)
  next
    case 2
    then show ?thesis
      using d(1) by (auto simp: sample_entry_simps records_sample_def metric_entry_sum_def metric_entry_gauge_def)
  next
    case 3
    then show ?thesis
      using d(1)
      by (auto simp: sample_entry_simps records_sample_def observes_upd observes_histogram)
        (auto simp: metric_entry_histogram_def metric_entry_gauge_def)
  qed
qed

lemma records_unusable: "\<not> usable ds s \<Longrightarrow> metric_sample_entry E net (descriptor_cache ds) i s = None"
  by (auto simp: metric_sample_entry_def hm_get_cache usable_def descriptor_entry_def Let_def split: option.splits)

lemma records_all:
  "list_all2 (records_sample (be_ext E) net ds) (filter (usable ds) samples)
     (List.map_filter (\<lambda>(i, s). metric_sample_entry E net (descriptor_cache ds) i s) (enumerate k samples))"
proof (induction samples arbitrary: k)
  case (Cons s samples)
  then show ?case
    using records_usable [of ds s E net k] records_unusable [of ds s E net k]
    by (cases "usable ds s") (auto simp: List.map_filter_simps)
qed (simp add: List.map_filter_simps)

section \<open>The channel\<close>

lemma send_entries_order:
  assumes "length q \<le> capacity" "send_entries capacity taken k q ms = (out, q')"
  shows "\<exists>kept. subseq kept ms \<and> out @ q' = q @ kept \<and> length q' \<le> capacity \<and>
    (length q + length ms \<le> capacity \<longrightarrow> kept = ms)"
  using assms
proof (induction ms arbitrary: k q out)
  case (Cons m ms)
  let ?q = "drop (taken k) q"
  let ?q1 = "if length ?q < capacity then ?q @ [m] else ?q"
  obtain o1 where o1: "send_entries capacity taken (Suc k) ?q1 ms = (o1, q')" "out = take (taken k) q @ o1"
    using Cons.prems by (auto simp: Let_def split: prod.splits)
  have "length ?q1 \<le> capacity" using Cons.prems by auto
  then obtain kept where kept: "subseq kept ms" "o1 @ q' = ?q1 @ kept" "length q' \<le> capacity"
    "length ?q1 + length ms \<le> capacity \<longrightarrow> kept = ms"
    using Cons.IH o1(1) by blast
  show ?case
  proof (cases "length ?q < capacity")
    case True
    then have "subseq (m # kept) (m # ms)" "out @ q' = q @ (m # kept)" using kept o1(2) by simp_all
    then show ?thesis using kept True by (intro exI [of _ "m # kept"]) auto
  next
    case False
    then have "subseq kept (m # ms)" "out @ q' = q @ kept" using kept o1(2) by auto
    then show ?thesis using kept False by (intro exI [of _ kept]) auto
  qed
qed simp

section \<open>Properties\<close>


definition sample_bridge :: bridge_env where
  "sample_bridge =
     \<lparr>be_ext = unix_ext False, be_source = ''192.168.1.5'', be_now = (\<lambda>k. DateTime 0 0), be_late = (\<lambda>i k. DateTime 0 0)\<rparr>"

definition sample_aggregate :: metric_aggregate_batch where
  "sample_aggregate =
     \<lparr>ma_metric_id = 7, ma_task_index = 1, ma_flags = 4, ma_body_schema = NumericSchema, ma_sample_size = 8,
      ma_stat_mask = 0, ma_cycle_count_start = 4294967290, ma_cycle_count_end = 4, ma_dc_time_start = 1000,
      ma_dc_time_end = 2000, ma_name = ''demo'', ma_unit = ''mm'', ma_scope_namespace = [], ma_trace_id = None,
      ma_span_id = None, ma_samples = [SNumeric 1, SNumeric 2, SNumeric 3],
      ma_sample_cycle_offsets = Some [0, 5, 10], ma_sample_dc_times = None\<rparr>"





text \<open>
  The drain task hands the metrics of an event to the channel in their order: what the receiver
  has taken and what is still queued is what was queued before followed by a subsequence of the
  event's completed metrics, all of them when the channel has room for them. The queue never exceeds
  its capacity.
\<close>

theorem drain_keeps_order:
  assumes "diag_event_to_metrics E net [] ev = Ok ms" "length q \<le> capacity"
  shows "\<exists>out q' kept. drain_event E ord reg capacity taken (Some q) (net, ev) = Ok (out, Some q') \<and>
    out @ q' = q @ kept \<and> subseq kept (backfill_metrics_from_registry ord reg ms) \<and> length q' \<le> capacity \<and>
    (length q + length ms \<le> capacity \<longrightarrow> kept = backfill_metrics_from_registry ord reg ms)"
proof -
  obtain out q' where r: "send_entries capacity taken 0 q (backfill_metrics_from_registry ord reg ms) = (out, q')"
    by (cases "send_entries capacity taken 0 q (backfill_metrics_from_registry ord reg ms)")
  have "length (backfill_metrics_from_registry ord reg ms) = length ms"
    by (simp add: backfill_metrics_from_registry_def)
  then show ?thesis
    using send_entries_order [OF assms(2) r] assms(1) r by (auto simp: drain_event_def)
qed

theorem drain_keeps_order_witness:
  "\<exists>ms out q' kept. diag_event_to_metrics sample_bridge (AmsNetId 1 2 3 4 1 1) [] ExceedReset = Ok ms \<and>
     drain_event sample_bridge (\<lambda>m. m) [] 4 (\<lambda>_. 0) (Some []) (AmsNetId 1 2 3 4 1 1, ExceedReset) = Ok (out, Some q') \<and>
     out @ q' = kept \<and> kept = backfill_metrics_from_registry (\<lambda>m. m) [] ms"
proof -
  obtain ms where ms: "diag_event_to_metrics sample_bridge (AmsNetId 1 2 3 4 1 1) [] ExceedReset = Ok ms" "length ms = 1"
    by (simp add: diag_event_to_metrics_def)
  then show ?thesis
    using drain_keeps_order [OF ms(1), of "[]" 4 "\<lambda>m. m" "[]" "\<lambda>_. 0"] by auto
qed

end
