(* ===== verification/Diagnostics_Poller.thy ===== *)
theory Diagnostics_Poller
  imports Diagnostics_Bridge Transitions
begin

text \<open>
  The self-polling of diagnostics: the observer that pairs requests and responses
  (\<^verbatim>\<open>tc-otel-ads/src/diagnostics_observer.rs\<close>), the poller that sends the requests
  (\<^verbatim>\<open>diagnostics_poller.rs\<close>), and the task of \<^verbatim>\<open>service.rs\<close> that turns its events into metrics. Instants
  are milliseconds; the readings of the clock within one call are taken to be the same. The decoders
  are those of \<open>Diagnostics\<close>, which never panic.
\<close>

section \<open>The observer\<close>

definition PENDING_TTL :: int where "PENDING_TTL = 30000"
definition MAX_PENDING :: nat where "MAX_PENDING = 8192"
definition GC_INTERVAL :: int where "GC_INTERVAL = 10000"

type_synonym correlation_key = "u8 list \<times> u8 list \<times> u32"

record pending_entry =
  pn_req :: pending_request
  pn_inserted :: int

record diagnostics_observer =
  ob_pending :: "(correlation_key, pending_entry) hmap"
  ob_last_gc :: int

definition observer_new :: "int \<Rightarrow> diagnostics_observer" where
  "observer_new now = \<lparr>ob_pending = [], ob_last_gc = now\<rparr>"

definition pending_len :: "diagnostics_observer \<Rightarrow> nat" where
  "pending_len ob = length (ob_pending ob)"

definition gc_now :: "int \<Rightarrow> diagnostics_observer \<Rightarrow> diagnostics_observer" where
  "gc_now now ob =
     ob\<lparr>ob_pending := filter (\<lambda>(k, e). now - PENDING_TTL \<le> pn_inserted e) (ob_pending ob), ob_last_gc := now\<rparr>"

definition maybe_gc :: "int \<Rightarrow> diagnostics_observer \<Rightarrow> diagnostics_observer" where
  "maybe_gc now ob = (if max (now - ob_last_gc ob) 0 < GC_INTERVAL then ob else gc_now now ob)"

fun res_option :: "('e, 'a) res \<Rightarrow> 'a option" where
  "res_option (Ok x) = Some x"
| "res_option _ = None"

definition feed :: "int \<Rightarrow> ams_header \<Rightarrow> u8 list \<Rightarrow> diagnostics_observer \<Rightarrow> diag_event option \<times> diagnostics_observer" where
  "feed now h payload ob0 =
     (let ob = maybe_gc now ob0 in
      if state_flags h AND 1 = 0 then
        (case res_option (decode_write_from_request h payload) of
           Some ev \<Rightarrow> (Some ev, ob)
         | None \<Rightarrow>
             (case res_option (decode_request h payload) of
                None \<Rightarrow> (None, ob)
              | Some (invoke, req) \<Rightarrow>
                  let key = (net_id_bytes (target_net_id h), net_id_bytes (source_net_id h), invoke);
                      ob' = (if MAX_PENDING \<le> length (ob_pending ob) then gc_now now ob else ob)
                  in (None, ob'\<lparr>ob_pending := hm_insert key \<lparr>pn_req = req, pn_inserted = now\<rparr> (ob_pending ob')\<rparr>)))
      else
        let key = (net_id_bytes (source_net_id h), net_id_bytes (target_net_id h), invoke_id h) in
        case hm_get (ob_pending ob) key of
          None \<Rightarrow> (None, ob)
        | Some entry \<Rightarrow>
            (res_option (decode_response h payload (pn_req entry)),
             ob\<lparr>ob_pending := hm_remove key (ob_pending ob)\<rparr>))"

section \<open>Requests\<close>

definition DEFAULT_RT_PORT :: u16 where "DEFAULT_RT_PORT = 200"
definition POLLER_SOURCE_PORT :: u16 where "POLLER_SOURCE_PORT = 30001"
definition PUSH_SUSPEND_WINDOW :: int where "PUSH_SUSPEND_WINDOW = 10000"

record target_config =
  tc_net_id :: ams_net_id
  tc_poll_interval :: nat
  tc_exceed_counter :: bool
  tc_rt_usage :: bool
  tc_task_ports :: "u16 list"
  tc_rt_port :: u16
  tc_task_names :: "(u16, string) hmap"

definition target_with_defaults :: "ams_net_id \<Rightarrow> target_config" where
  "target_with_defaults net_id =
     \<lparr>tc_net_id = net_id, tc_poll_interval = 1000, tc_exceed_counter = True, tc_rt_usage = True,
      tc_task_ports = [340, 350, 351], tc_rt_port = DEFAULT_RT_PORT, tc_task_names = []\<rparr>"

record planned_poll =
  pp_target_net_id :: ams_net_id
  pp_target_port :: u16
  pp_index_group :: u32
  pp_index_offset :: u32
  pp_read_size :: u32
  pp_invoke_id :: u32
  pp_frame :: "u8 list"

definition read_request_header ::
    "ams_net_id \<Rightarrow> u16 \<Rightarrow> ams_net_id \<Rightarrow> u16 \<Rightarrow> u16 \<Rightarrow> u32 \<Rightarrow> u32 \<Rightarrow> ams_header" where
  "read_request_header source sport target tport cmd len invoke =
     \<lparr>target_net_id = target, target_port = tport, source_net_id = source, source_port = sport,
      command_id = cmd, state_flags = ADS_STATE_REQUEST, data_length = len, error_code = 0, invoke_id = invoke\<rparr>"

definition build_read_device_info_frame :: "ams_net_id \<Rightarrow> u16 \<Rightarrow> ams_net_id \<Rightarrow> u16 \<Rightarrow> u32 \<Rightarrow> u8 list" where
  "build_read_device_info_frame source sport target tport invoke =
     ams_header_serialize (read_request_header source sport target tport ADS_CMD_READ_DEVICE_INFO 0 invoke)"

definition build_read_frame ::
    "ams_net_id \<Rightarrow> u16 \<Rightarrow> ams_net_id \<Rightarrow> u16 \<Rightarrow> u32 \<Rightarrow> u32 \<Rightarrow> u32 \<Rightarrow> u32 \<Rightarrow> u8 list" where
  "build_read_frame source sport target tport ig io len invoke =
     ams_header_serialize (read_request_header source sport target tport ADS_CMD_READ 12 invoke) @
     u32_to_le ig @ u32_to_le io @ u32_to_le len"

definition read_poll :: "target_config \<Rightarrow> ams_net_id \<Rightarrow> u16 \<Rightarrow> u32 \<Rightarrow> u32 \<Rightarrow> u32 \<Rightarrow> u32 \<Rightarrow> planned_poll" where
  "read_poll target source port ig io len invoke =
     \<lparr>pp_target_net_id = tc_net_id target, pp_target_port = port, pp_index_group = ig, pp_index_offset = io,
      pp_read_size = len, pp_invoke_id = invoke,
      pp_frame = build_read_frame source POLLER_SOURCE_PORT (tc_net_id target) port ig io len invoke\<rparr>"

definition lowest_port :: "target_config \<Rightarrow> u16" where
  "lowest_port target =
     (case tc_task_ports target of [] \<Rightarrow> tc_rt_port target | p # ps \<Rightarrow> fold min ps p)"

text \<open>The polls of one tick and the counter after them.\<close>

definition build_polls_for_target :: "target_config \<Rightarrow> ams_net_id \<Rightarrow> u32 \<Rightarrow> planned_poll list \<times> u32" where
  "build_polls_for_target target source c0 =
     (let (polls1, c1) =
            (if tc_exceed_counter target
             then ([read_poll target source (lowest_port target) IG_RT_SYSTEM IO_EXCEED_COUNTER 4 c0], c0 + 1) else ([], c0));
          (polls2, c2) =
            (if tc_rt_usage target
             then ([read_poll target source (tc_rt_port target) IG_RT_USAGE IO_RT_USAGE (of_nat RT_USAGE_LEN) c1], c1 + 1)
             else ([], c1));
          polls3 = map (\<lambda>(i, port). read_poll target source port IG_RT_SYSTEM IO_TASK_STATS (of_nat TASK_STATS_LEN) (c2 + of_nat i))
                     (enumerate 0 (tc_task_ports target))
      in (polls1 @ polls2 @ polls3, c2 + of_nat (length (tc_task_ports target))))"

text \<open>
  \<^verbatim>\<open>str::trim\<close>: the length of a white-space character at the start of a text in UTF-8, by its bytes.
\<close>

fun white_len :: "nat list \<Rightarrow> nat" where
  "white_len (b # bs) =
     (if 9 \<le> b \<and> b \<le> 13 \<or> b = 32 then 1
      else
        case bs of
          c # cs \<Rightarrow>
            if b = 0xC2 \<and> (c = 0x85 \<or> c = 0xA0) then 2
            else (case cs of
                    d # _ \<Rightarrow>
                      if b = 0xE1 \<and> c = 0x9A \<and> d = 0x80 \<or>
                         b = 0xE2 \<and> c = 0x80 \<and> (0x80 \<le> d \<and> d \<le> 0x8A \<or> d = 0xA8 \<or> d = 0xA9 \<or> d = 0xAF) \<or>
                         b = 0xE2 \<and> c = 0x81 \<and> d = 0x9F \<or> b = 0xE3 \<and> c = 0x80 \<and> d = 0x80
                      then 3 else 0
                  | [] \<Rightarrow> 0)
        | [] \<Rightarrow> 0)"
| "white_len [] = 0"

definition char_codes :: "string \<Rightarrow> nat list" where
  "char_codes = map of_char"

function trim_start :: "string \<Rightarrow> string" where
  "trim_start s = (let n = white_len (char_codes s) in if n = 0 \<or> s = [] then s else trim_start (drop n s))"
  by pat_completeness auto
termination
  by (relation "measure length") auto

definition white_end :: "string \<Rightarrow> nat" where
  "white_end s =
     (if 1 \<le> length s \<and> white_len (char_codes (drop (length s - 1) s)) = 1 then 1
      else if 2 \<le> length s \<and> white_len (char_codes (drop (length s - 2) s)) = 2 then 2
      else if 3 \<le> length s \<and> white_len (char_codes (drop (length s - 3) s)) = 3 then 3
      else 0)"

function trim_end :: "string \<Rightarrow> string" where
  "trim_end s = (let n = white_end s in if n = 0 \<or> s = [] then s else trim_end (take (length s - n) s))"
  by pat_completeness auto
termination
  by (relation "measure length") auto

declare trim_start.simps [simp del] trim_end.simps [simp del]

definition trim :: "string \<Rightarrow> string" where
  "trim s = trim_end (trim_start s)"

definition parse_device_info_name :: "u8 list \<Rightarrow> string option" where
  "parse_device_info_name body =
     (if length body < 24 \<or> u32_at 0 body \<noteq> 0 then None
      else
        case from_utf8 (takeWhile (\<lambda>b. b \<noteq> 0) (bytes_at 8 16 body)) of
          None \<Rightarrow> None
        | Some s \<Rightarrow> let name = trim s in if name = [] then None else Some name)"

section \<open>The poller\<close>

record diagnostics_poller =
  dp_topic_prefix :: string
  dp_local_net_id :: ams_net_id
  dp_observer :: diagnostics_observer
  dp_invoke_counter :: u32
  dp_task_names :: "(ams_net_id \<times> u16, string) hmap"
  dp_pending_device_info :: "(u32, ams_net_id \<times> u16) hmap"
  dp_push_seen :: "(ams_net_id, int) hmap"

definition poller_new ::
    "(u16, string) iter \<Rightarrow> int \<Rightarrow> string \<Rightarrow> ams_net_id \<Rightarrow> target_config list \<Rightarrow> diagnostics_poller" where
  "poller_new ord now topic_prefix local targets =
     \<lparr>dp_topic_prefix = topic_prefix, dp_local_net_id = local, dp_observer = observer_new now, dp_invoke_counter = 1,
      dp_task_names =
        fold (\<lambda>t m. fold (\<lambda>(port, name) m. hm_insert (tc_net_id t, port) name m) (ord (tc_task_names t)) m) targets [],
      dp_pending_device_info = [], dp_push_seen = []\<rparr>"

definition ams_topic :: "diagnostics_poller \<Rightarrow> ams_net_id \<Rightarrow> string" where
  "ams_topic P net_id = dp_topic_prefix P @ ''/'' @ show_net_id net_id @ ''/ams''"

definition suspended :: "int \<Rightarrow> target_config \<Rightarrow> diagnostics_poller \<Rightarrow> bool" where
  "suspended now target P =
     (case hm_get (dp_push_seen P) (tc_net_id target) of
        None \<Rightarrow> False
      | Some last_push \<Rightarrow> max (now - last_push) 0 < PUSH_SUSPEND_WINDOW)"

definition watch_poll :: "int \<Rightarrow> planned_poll \<Rightarrow> diagnostics_observer \<Rightarrow> diagnostics_observer" where
  "watch_poll now poll ob =
     (case ams_header_parse (pp_frame poll) of
        Ok h \<Rightarrow> snd (feed now h (drop 32 (pp_frame poll)) ob)
      | _ \<Rightarrow> ob)"

text \<open>One tick of the loop of a target: the messages that are published.\<close>

definition target_tick :: "int \<Rightarrow> target_config \<Rightarrow> diagnostics_poller \<Rightarrow> diagnostics_poller \<times> (string \<times> u8 list) list" where
  "target_tick now target P =
     (if suspended now target P then (P, [])
      else
        case build_polls_for_target target (dp_local_net_id P) (dp_invoke_counter P) of
          (polls, counter) \<Rightarrow>
            (P\<lparr>dp_observer := fold (watch_poll now) polls (dp_observer P), dp_invoke_counter := counter\<rparr>,
             map (\<lambda>p. (ams_topic P (pp_target_net_id p), pp_frame p))
               (filter (\<lambda>p. case ams_header_parse (pp_frame p) of Ok _ \<Rightarrow> True | _ \<Rightarrow> False) polls)))"

definition on_response :: "int \<Rightarrow> u8 list \<Rightarrow> diagnostics_poller \<Rightarrow> diagnostics_poller \<times> (ams_net_id \<times> diag_event) option" where
  "on_response now payload P =
     (case ams_header_parse payload of
        Ok h \<Rightarrow>
          if target_net_id h \<noteq> dp_local_net_id P then (P, None)
          else if command_id h = ADS_CMD_READ_DEVICE_INFO then
            (case hm_get (dp_pending_device_info P) (invoke_id h) of
               None \<Rightarrow> (P, None)
             | Some key \<Rightarrow>
                 let P' = P\<lparr>dp_pending_device_info := hm_remove (invoke_id h) (dp_pending_device_info P)\<rparr> in
                 (case parse_device_info_name (drop 32 payload) of
                    None \<Rightarrow> (P', None)
                  | Some name \<Rightarrow> (P'\<lparr>dp_task_names := hm_insert key name (dp_task_names P)\<rparr>, None)))
          else
            (case feed now h (drop 32 payload) (dp_observer P) of
               (ev, ob) \<Rightarrow> (P\<lparr>dp_observer := ob\<rparr>, map_option (\<lambda>e. (source_net_id h, e)) ev))
      | _ \<Rightarrow> (P, None))"

fun discover_ports :: "target_config \<Rightarrow> u16 list \<Rightarrow> diagnostics_poller \<Rightarrow> diagnostics_poller \<times> (string \<times> u8 list) list" where
  "discover_ports target [] P = (P, [])"
| "discover_ports target (port # ports) P =
     (let invoke = dp_invoke_counter P;
          P' = P\<lparr>dp_invoke_counter := invoke + 1,
                 dp_pending_device_info := hm_insert invoke (tc_net_id target, port) (dp_pending_device_info P)\<rparr>;
          frame = build_read_device_info_frame (dp_local_net_id P) POLLER_SOURCE_PORT (tc_net_id target) port invoke;
          (P'', out) = discover_ports target ports P'
      in (P'', (ams_topic P (tc_net_id target), frame) # out))"

definition discover_task_names :: "target_config \<Rightarrow> diagnostics_poller \<Rightarrow> diagnostics_poller \<times> (string \<times> u8 list) list" where
  "discover_task_names target P = discover_ports target (tc_task_ports target) P"

text \<open>The task that bridges the events of the poller to the metric channel.\<close>

definition bridge_event ::
    "bridge_env \<Rightarrow> (registration_key, task_metadata) iter \<Rightarrow> registry \<Rightarrow> nat \<Rightarrow> (nat \<Rightarrow> nat) \<Rightarrow> int \<Rightarrow>
     ams_net_id \<times> diag_event \<Rightarrow> diagnostics_poller \<Rightarrow> metric_entry list option \<Rightarrow>
     (unit, diagnostics_poller \<times> metric_entry list \<times> metric_entry list option) res" where
  "bridge_event E ord reg capacity taken now = (\<lambda>(net_id, ev) P channel.
     let P' = P\<lparr>dp_push_seen := hm_insert net_id now (dp_push_seen P)\<rparr> in
     bind_res (diag_event_to_metrics E net_id (dp_task_names P) ev) (\<lambda>metrics.
       let metrics' = backfill_metrics_from_registry ord reg metrics in
       Ok (case channel of
             None \<Rightarrow> (P', [], None)
           | Some q \<Rightarrow> (case send_entries capacity taken 0 q metrics' of (out, q') \<Rightarrow> (P', out, Some q')))))"

section \<open>Pending polls\<close>

lemma hm_get_filter: "hm_get m k = Some v \<Longrightarrow> P (k, v) \<Longrightarrow> hm_get (filter P m) k = Some v"
  by (induction m) (auto simp: hm_get_def split: if_splits)

lemma gc_keeps:
  assumes "hm_get (ob_pending ob) k = Some e" "now - PENDING_TTL \<le> pn_inserted e"
  shows "hm_get (ob_pending (gc_now now ob)) k = Some e" "hm_get (ob_pending (maybe_gc now ob)) k = Some e"
  using assms by (simp_all add: gc_now_def maybe_gc_def hm_get_filter)

definition poll_key :: "planned_poll \<Rightarrow> ams_net_id \<Rightarrow> correlation_key" where
  "poll_key p local = (net_id_bytes (pp_target_net_id p), net_id_bytes local, pp_invoke_id p)"

definition poll_entry :: "int \<Rightarrow> planned_poll \<Rightarrow> pending_entry" where
  "poll_entry now p =
     \<lparr>pn_req = \<lparr>pq_command_id = ADS_CMD_READ, pq_index_group = pp_index_group p, pq_index_offset = pp_index_offset p,
        pq_size = pp_read_size p, pq_target_port = pp_target_port p\<rparr>, pn_inserted = now\<rparr>"

text \<open>Every poll is one of the reads the observer knows, with its request in the frame.\<close>

definition known_poll :: "target_config \<Rightarrow> ams_net_id \<Rightarrow> planned_poll \<Rightarrow> bool" where
  "known_poll target local p \<longleftrightarrow>
     is_known_read (pp_index_group p) (pp_index_offset p) \<and> pp_target_net_id p = tc_net_id target \<and>
     pp_frame p = build_read_frame local POLLER_SOURCE_PORT (tc_net_id target) (pp_target_port p)
       (pp_index_group p) (pp_index_offset p) (pp_read_size p) (pp_invoke_id p)"

lemma feed_poll:
  assumes "known_poll target local p"
  shows "\<exists>ob' :: diagnostics_observer. (\<forall>k e. hm_get (ob_pending ob) k = Some e \<longrightarrow> now - PENDING_TTL \<le> pn_inserted e \<longrightarrow> hm_get (ob_pending ob') k = Some e) \<and>
    ob_pending (watch_poll now p ob) = hm_insert (poll_key p local) (poll_entry now p) (ob_pending ob')"
proof -
  define h where "h = read_request_header local POLLER_SOURCE_PORT (tc_net_id target) (pp_target_port p) ADS_CMD_READ 12 (pp_invoke_id p)"
  define pl where "pl = u32_to_le (pp_index_group p) @ u32_to_le (pp_index_offset p) @ u32_to_le (pp_read_size p)"
  have f: "ams_header_parse (pp_frame p) = Ok h" "drop 32 (pp_frame p) = pl"
    using assms header.dec_append [of h pl] by (simp_all add: known_poll_def build_read_frame_def h_def pl_def)
  have req: "decode_request h pl = Ok (pp_invoke_id p, pn_req (poll_entry now p))"
    using decode_poll_request [of h ADS_CMD_READ "pp_index_group p" "pp_index_offset p" "pp_read_size p" "[]"] assms
    by (simp add: known_poll_def h_def pl_def read_request_header_def poll_entry_def)
  have wr: "decode_write_from_request h pl = Err ()" and st: "state_flags h AND 1 = 0"
    by (simp_all add: decode_write_from_request_def h_def read_request_header_def ads_consts)
  have tgt: "pp_target_net_id p = tc_net_id target" using assms by (simp add: known_poll_def)
  define ob1 where "ob1 = maybe_gc now ob"
  define ob' where "ob' = (if MAX_PENDING \<le> length (ob_pending ob1) then gc_now now ob1 else ob1)"
  have "ob_pending (watch_poll now p ob) = hm_insert (poll_key p local) (poll_entry now p) (ob_pending ob')"
    by (simp add: watch_poll_def f feed_def Let_def st wr req ob1_def [symmetric] ob'_def [symmetric] poll_key_def tgt)
      (simp add: h_def read_request_header_def poll_entry_def)
  moreover have "hm_get (ob_pending ob') k = Some e"
    if "hm_get (ob_pending ob) k = Some e" "now - PENDING_TTL \<le> pn_inserted e" for k e
    using gc_keeps [OF that] gc_keeps(1) [of ob1 k e now] that(2) by (simp add: ob'_def ob1_def)
  ultimately show ?thesis by blast
qed

lemma watched_polls:
  assumes "list_all (known_poll target local) polls" "distinct (map pp_invoke_id polls)"
    and "hm_get (ob_pending ob) k = Some e" "now - PENDING_TTL \<le> pn_inserted e" "\<And>q. q \<in> set polls \<Longrightarrow> poll_key q local \<noteq> k"
  shows "hm_get (ob_pending (fold (watch_poll now) polls ob)) k = Some e"
  using assms
proof (induction polls arbitrary: ob)
  case (Cons q polls)
  have q: "known_poll target local q" using Cons.prems(1) by simp
  obtain ob' :: diagnostics_observer where ob': "\<forall>k e. hm_get (ob_pending ob) k = Some e \<longrightarrow> now - PENDING_TTL \<le> pn_inserted e \<longrightarrow> hm_get (ob_pending ob') k = Some e"
    "ob_pending (watch_poll now q ob) = hm_insert (poll_key q local) (poll_entry now q) (ob_pending ob')"
    using feed_poll [OF q, of ob now] by blast
  have "hm_get (ob_pending ob') k = Some e" using ob'(1) Cons.prems(3,4) by blast
  moreover have "poll_key q local \<noteq> k" using Cons.prems(5) by simp
  ultimately have "hm_get (ob_pending (watch_poll now q ob)) k = Some e" by (simp add: ob'(2) hm.get_insert)
  then show ?case using Cons by simp
qed simp

lemma all_polls_pending:
  assumes "list_all (known_poll target local) polls" "distinct (map pp_invoke_id polls)" "p \<in> set polls"
  shows "hm_get (ob_pending (fold (watch_poll now) polls ob)) (poll_key p local) = Some (poll_entry now p)"
  using assms
proof (induction polls arbitrary: ob)
  case (Cons q polls)
  show ?case
  proof (cases "p = q")
    case True
    have q: "known_poll target local q" using Cons.prems(1) by simp
    obtain ob' :: diagnostics_observer
      where "ob_pending (watch_poll now q ob) = hm_insert (poll_key q local) (poll_entry now q) (ob_pending ob')"
      using feed_poll [OF q, of ob now] by blast
    then have "hm_get (ob_pending (watch_poll now q ob)) (poll_key q local) = Some (poll_entry now q)"
      by (simp add: hm.get_insert)
    moreover have "poll_key q' local \<noteq> poll_key q local" if "q' \<in> set polls" for q'
      using that Cons.prems(2) by (auto simp: poll_key_def rev_image_eqI)
    ultimately show ?thesis
      using True watched_polls [of target local polls "watch_poll now q ob" "poll_key q local" "poll_entry now q" now] Cons.prems
      by (simp add: poll_entry_def PENDING_TTL_def)
  next
    case False
    then show ?thesis using Cons by simp
  qed
qed simp

lemma read_poll_known: "is_known_read ig io \<Longrightarrow> known_poll target local (read_poll target local port ig io len invoke)"
  by (simp add: known_poll_def read_poll_def)

lemma enumerate_ids: "map (\<lambda>(i, port). c + of_nat i) (enumerate n xs) = map (\<lambda>i. c + of_nat i) [n..<n + length xs]"
  for c :: u32
  unfolding map_fst_enumerate [symmetric] map_map by (simp add: case_prod_unfold comp_def)

definition ids_from :: "u32 \<Rightarrow> planned_poll list \<Rightarrow> bool" where
  "ids_from c ps \<longleftrightarrow> map pp_invoke_id ps = map (\<lambda>i. c + of_nat i) [0..<length ps]"

lemma ids_from_append:
  assumes "ids_from c ps" "ids_from (c + of_nat (length ps)) qs"
  shows "ids_from c (ps @ qs)"
proof -
  have e: "[0..<length ps + length qs] = [0..<length ps] @ map (\<lambda>n. n + length ps) [0..<length qs]"
    using upt_add_eq_append [of 0 "length ps" "length qs"] map_add_upt [of "length ps" "length qs"]
    by (simp only: le0 add.commute)
  have f: "(\<lambda>i. c + of_nat i) \<circ> (\<lambda>n. n + length ps) = (\<lambda>i. c + of_nat (length ps) + (of_nat i :: u32))"
    by (simp add: fun_eq_iff add.commute add.left_commute)
  show ?thesis
    using assms unfolding ids_from_def length_append e map_append map_map f by (simp only:)
qed

lemma ids_from_simple: "ids_from c []" "ids_from c [read_poll target local port ig io len c]"
  by (simp_all add: ids_from_def read_poll_def)

lemma ids_from_tasks:
  "ids_from c (map (\<lambda>(i, port). read_poll target local port ig io len (c + of_nat i)) (enumerate 0 xs))"
  using enumerate_ids [of c 0 xs] by (simp add: ids_from_def read_poll_def case_prod_unfold comp_def)

lemma ids_from_distinct: "ids_from c ps \<Longrightarrow> length ps < 2 ^ 32 \<Longrightarrow> distinct (map pp_invoke_id ps)"
proof -
  assume i: "ids_from c ps" and n: "length ps < 2 ^ 32"
  have "inj_on (\<lambda>i. c + of_nat i :: u32) (set [0..<length ps])"
  proof (rule inj_onI)
    fix x y assume xy: "x \<in> set [0..<length ps]" "y \<in> set [0..<length ps]" "c + of_nat x = c + (of_nat y :: u32)"
    then have "unat (of_nat x :: u32) = unat (of_nat y :: u32)" by simp
    then show "x = y" using xy n by (simp add: unat_of_nat)
  qed
  then show ?thesis using i by (simp add: ids_from_def distinct_map)
qed

lemma polls_of_target:
  assumes "build_polls_for_target target local c = (polls, c')"
  shows "list_all (known_poll target local) polls" "ids_from c polls"
proof -
  have k: "is_known_read IG_RT_SYSTEM IO_EXCEED_COUNTER" "is_known_read IG_RT_USAGE IO_RT_USAGE" "is_known_read IG_RT_SYSTEM IO_TASK_STATS"
    by (simp_all add: is_known_read_def)
  show "list_all (known_poll target local) polls"
    using assms k
    by (auto simp: build_polls_for_target_def Let_def list_all_iff read_poll_known split: if_splits)
  define a where "a = (if tc_exceed_counter target
    then [read_poll target local (lowest_port target) IG_RT_SYSTEM IO_EXCEED_COUNTER 4 c] else [])"
  define c1 where "c1 = c + of_nat (length a)"
  define b where "b = (if tc_rt_usage target
    then [read_poll target local (tc_rt_port target) IG_RT_USAGE IO_RT_USAGE (of_nat RT_USAGE_LEN) c1] else [])"
  define c2 where "c2 = c1 + of_nat (length b)"
  have "polls = a @ b @ map (\<lambda>(i, port). read_poll target local port IG_RT_SYSTEM IO_TASK_STATS (of_nat TASK_STATS_LEN) (c2 + of_nat i))
      (enumerate 0 (tc_task_ports target))"
    using assms by (auto simp: build_polls_for_target_def Let_def a_def b_def c1_def c2_def split: if_splits)
  moreover have "ids_from c a" "ids_from c1 b" by (simp_all add: a_def b_def ids_from_simple)
  ultimately show "ids_from c polls" using ids_from_tasks by (auto simp: c1_def c2_def intro!: ids_from_append)
qed

text \<open>The event a successful response to a poll is reported as.\<close>

definition poll_event :: "planned_poll \<Rightarrow> u8 list \<Rightarrow> diag_event option" where
  "poll_event p data =
     (if pp_index_group p = IG_RT_SYSTEM \<and> pp_index_offset p = IO_EXCEED_COUNTER \<and> length data = 4 then
        Some (ExceedCounter (u32_from_le data))
      else if pp_index_group p = IG_RT_SYSTEM \<and> pp_index_offset p = IO_TASK_STATS \<and> length data = 16 then
        Some (TaskStats \<lparr>ts_task_port = pp_target_port p, ts_type_marker = u16_at 2 data,
          ts_cycle_counter = u16_at 0 data, ts_cpu_ticks_100ns = u32_at 4 data, ts_exec_ticks_100ns = u32_at 8 data\<rparr>)
      else if pp_index_group p = IG_RT_USAGE \<and> pp_index_offset p = IO_RT_USAGE \<and> length data = 24 then
        Some (RtUsage \<lparr>ru_peak_latency_us = u32_at 4 data, ru_system_latency_us = u32_at 8 data,
          ru_cpu_percent = u32_at 16 data\<rparr>)
      else None)"

lemma feed_response:
  assumes "hm_get (ob_pending ob) (net_id_bytes (source_net_id h), net_id_bytes (target_net_id h), invoke_id h) = Some (poll_entry now p)"
    and "t \<le> now + PENDING_TTL" "state_flags h AND 1 \<noteq> 0" "length data < 2 ^ 32"
  shows "fst (feed t h (poll_response 0 data) ob) = poll_event p data"
proof -
  have "hm_get (ob_pending (maybe_gc t ob)) (net_id_bytes (source_net_id h), net_id_bytes (target_net_id h), invoke_id h) = Some (poll_entry now p)"
    by (rule gc_keeps(2) [OF assms(1)]) (use assms(2) in \<open>simp add: poll_entry_def\<close>)
  moreover have "res_option (decode_read_response (poll_response 0 data) (pn_req (poll_entry now p))) = poll_event p data"
    using decode_poll_response [OF assms(4), of "pn_req (poll_entry now p)" _ _ 0]
    by (simp add: poll_entry_def poll_event_def)
  ultimately show ?thesis
    using assms(3) by (simp add: feed_def Let_def decode_response_def ADS_STATE_RESPONSE_MASK_def poll_entry_def)
qed

section \<open>Properties\<close>


definition demo_target :: target_config where
  "demo_target = target_with_defaults (AmsNetId 5 1 2 3 1 1)"

definition demo_poller :: diagnostics_poller where
  "demo_poller = poller_new (\<lambda>m. m) 0 ''AdsOverMqtt'' (AmsNetId 9 9 9 9 1 1) [demo_target]"

definition demo_response :: ams_header where
  "demo_response = \<lparr>target_net_id = AmsNetId 9 9 9 9 1 1, target_port = 30001, source_net_id = AmsNetId 5 1 2 3 1 1,
     source_port = 340, command_id = ADS_CMD_READ, state_flags = 5, data_length = 12, error_code = 0, invoke_id = 1\<rparr>"

lemma demo_poller_simps:
  "\<not> suspended now demo_target demo_poller" "dp_local_net_id demo_poller = AmsNetId 9 9 9 9 1 1" "dp_invoke_counter demo_poller = 1"
  by (simp_all add: demo_poller_def demo_target_def target_with_defaults_def poller_new_def suspended_def)


text \<open>
  C28. The poller suspends itself: the task that bridges its events records each of them as a
  push event of the controller, so after every answered poll all ticks of the next ten
  seconds send nothing, whatever interval is configured.
\<close>

theorem own_answers_suspend:
  assumes "bridge_event E ord reg capacity taken t (tc_net_id target, ev) P channel = Ok (P', out, channel')"
    and "\<forall>now \<in> set ticks. t \<le> now \<and> now < t + PUSH_SUSPEND_WINDOW"
  shows "run_machine (\<lambda>P now. target_tick now target P) P' ticks = (P', [])"
proof -
  have "dp_push_seen P' = hm_insert (tc_net_id target) t (dp_push_seen P)"
    using assms(1) by (auto simp: bridge_event_def Let_def bind_res_Ok_iff case_prod_unfold split: option.splits)
  then have "suspended now target P'" if "now \<in> set ticks" for now
    using that assms(2) by (force simp: suspended_def hm.get_insert PUSH_SUSPEND_WINDOW_def)
  then have "target_tick now target P' = (P', [])" if "now \<in> set ticks" for now
    using that by (simp add: target_tick_def)
  then show ?thesis by (induction ticks) auto
qed

theorem own_answers_suspend_witness:
  "\<exists>P' out. bridge_event sample_bridge (\<lambda>m. m) [] 4 (\<lambda>_. 0) 1200 (AmsNetId 5 1 2 3 1 1, ExceedCounter 77) demo_poller (Some []) =
       Ok (P', out) \<and>
     run_machine (\<lambda>P now. target_tick now demo_target P) P' [2000, 3000, 11199] = (P', [])"
proof -
  have t: "tc_net_id demo_target = AmsNetId 5 1 2 3 1 1" by (simp add: demo_target_def target_with_defaults_def)
  obtain P' out ch where b: "bridge_event sample_bridge (\<lambda>m. m) [] 4 (\<lambda>_. 0) 1200 (tc_net_id demo_target, ExceedCounter 77) demo_poller (Some []) =
      Ok (P', out, ch)" by (simp add: bridge_event_def diag_event_to_metrics_def Let_def case_prod_unfold)
  have "run_machine (\<lambda>P now. target_tick now demo_target P) P' [2000, 3000, 11199] = (P', [])"
    by (rule own_answers_suspend [OF b]) (simp add: PUSH_SUSPEND_WINDOW_def)
  then show ?thesis using b unfolding t by blast
qed

end
