(* ===== verification/Ams_Dispatcher.thy ===== *)
theory Ams_Dispatcher
  imports Ams Hash_Map Transitions
begin

text \<open>
  The request dispatcher of \<^verbatim>\<open>tc-otel-ads/src/dispatcher.rs\<close>: the route table, requests with invoke ids
  over MQTT and TCP, the correlation of responses, and the framing on TCP connections. Every call of
  \<^verbatim>\<open>send_request\<close> is a task with a number of its own; its awaits are the points where other tasks
  run, so a run is a sequence of events in any order. A oneshot channel is the entry of a call in
  the inbox; its sender is alive as long as the call is in the map of pending requests. The MQTT
  client, the sockets and the clock are in the events; what is published, written, delivered to the
  sink or returned are outputs.
\<close>

definition AMS_HEADER_LEN :: nat where "AMS_HEADER_LEN = 32"
definition MAX_AMS_PAYLOAD :: nat where "MAX_AMS_PAYLOAD = 16 * 1024 * 1024"
definition MAX_AMS_FRAME :: nat where "MAX_AMS_FRAME = AMS_HEADER_LEN + MAX_AMS_PAYLOAD"
definition AMS_STATE_RESPONSE :: u16 where "AMS_STATE_RESPONSE = 1"

section \<open>Routes\<close>

datatype transport_kind = KindMqtt | KindTcp

type_synonym route_table = "(ams_net_id, transport_kind) hmap"

definition routes_new :: route_table where "routes_new = []"

definition learn :: "ams_net_id \<Rightarrow> transport_kind \<Rightarrow> route_table \<Rightarrow> bool \<times> route_table" where
  "learn net_id kind t =
     ((case hm_get t net_id of Some prev \<Rightarrow> prev \<noteq> kind | None \<Rightarrow> True), hm_insert net_id kind t)"

definition learn_if_absent :: "ams_net_id \<Rightarrow> transport_kind \<Rightarrow> route_table \<Rightarrow> bool \<times> route_table" where
  "learn_if_absent net_id kind t =
     (case hm_get t net_id of None \<Rightarrow> (True, hm_insert net_id kind t) | Some _ \<Rightarrow> (False, t))"

definition forget :: "ams_net_id \<Rightarrow> route_table \<Rightarrow> transport_kind option \<times> route_table" where
  "forget net_id t = (hm_get t net_id, hm_remove net_id t)"

definition route_get :: "route_table \<Rightarrow> ams_net_id \<Rightarrow> transport_kind option" where
  "route_get t net_id = hm_get t net_id"

definition routes_len :: "route_table \<Rightarrow> nat" where "routes_len t = length t"

definition routes_is_empty :: "route_table \<Rightarrow> bool" where "routes_is_empty t \<longleftrightarrow> t = []"

definition snapshot :: "(ams_net_id, transport_kind) iter \<Rightarrow> route_table \<Rightarrow> (ams_net_id \<times> transport_kind) list" where
  "snapshot ord t = ord t"

section \<open>The dispatcher\<close>

datatype dispatcher_error =
    NoRoute ams_net_id
  | TransportNotAttached transport_kind
  | TimedOut nat
  | ChannelClosed
  | AdsFailure ads_error
  | MqttFailure string

record response_frame =
  rf_header :: ams_header
  rf_payload :: "u8 list"

text \<open>Where a call of \<^verbatim>\<open>send_request\<close> stands; a connection has a number of its own.\<close>

datatype stage = Routed | Dialing string | Connected nat | Waiting

record call =
  cl_target :: ams_net_id
  cl_transport :: transport_kind
  cl_invoke_id :: u32
  cl_frame :: "u8 list"
  cl_timeout :: nat
  cl_stage :: stage

record ams_dispatcher =
  ad_source_net_id :: ams_net_id
  ad_source_port :: u16
  ad_routes :: route_table
  ad_pending :: "(u32, nat) hmap"
  ad_invoke_counter :: u32
  ad_mqtt :: "string option"
  ad_peers :: "(ams_net_id, nat) hmap"
  ad_addrs :: "(ams_net_id, string) hmap"
  ad_calls :: "(nat, call) hmap"
  ad_inbox :: "(nat, response_frame) hmap"

datatype disp_output =
    Subscribe string
  | Publish string "u8 list"
  | WriteTcp nat "u8 list"
  | Deliver ams_header "u8 list"
  | Return nat "(dispatcher_error, u8 list) res"

definition dispatcher_new :: "ams_net_id \<Rightarrow> u16 \<Rightarrow> ams_dispatcher" where
  "dispatcher_new net_id port =
     \<lparr>ad_source_net_id = net_id, ad_source_port = port, ad_routes = routes_new, ad_pending = [],
      ad_invoke_counter = 1, ad_mqtt = None, ad_peers = [], ad_addrs = [], ad_calls = [], ad_inbox = []\<rparr>"

definition attach_mqtt :: "string \<Rightarrow> ams_dispatcher \<Rightarrow> (dispatcher_error, ams_dispatcher) res" where
  "attach_mqtt topic_prefix d =
     (if ad_mqtt d \<noteq> None then Err (MqttFailure ''MQTT transport already attached'')
      else Ok (d\<lparr>ad_mqtt := Some topic_prefix\<rparr>))"

definition subscriptions :: "ams_dispatcher \<Rightarrow> string \<Rightarrow> string list" where
  "subscriptions d topic_prefix =
     [topic_prefix @ ''/+/ams/res'', topic_prefix @ ''/'' @ show_net_id (ad_source_net_id d) @ ''/ams'',
      topic_prefix @ ''/+/info'']"

definition outbound_topic :: "string \<Rightarrow> ams_net_id \<Rightarrow> string" where
  "outbound_topic topic_prefix target = topic_prefix @ ''/'' @ show_net_id target @ ''/ams''"

definition build_ams_frame ::
    "ams_net_id \<Rightarrow> u16 \<Rightarrow> ams_net_id \<Rightarrow> u16 \<Rightarrow> u16 \<Rightarrow> u16 \<Rightarrow> u32 \<Rightarrow> u8 list \<Rightarrow> u8 list" where
  "build_ams_frame target tport source sport cmd flags invoke payload =
     ams_header_serialize
       \<lparr>target_net_id = target, target_port = tport, source_net_id = source, source_port = sport,
        command_id = cmd, state_flags = flags, data_length = of_nat (length payload), error_code = 0,
        invoke_id = invoke\<rparr> @ payload"

definition tcp_wire :: "u8 list \<Rightarrow> u8 list" where
  "tcp_wire frame = [0, 0] @ u32_to_le (of_nat (length frame)) @ frame"

definition add_static_route :: "ams_net_id \<Rightarrow> transport_kind \<Rightarrow> ams_dispatcher \<Rightarrow> ams_dispatcher" where
  "add_static_route net_id kind d = d\<lparr>ad_routes := snd (learn net_id kind (ad_routes d))\<rparr>"

definition add_tcp_peer :: "ams_net_id \<Rightarrow> string \<Rightarrow> ams_dispatcher \<Rightarrow> ams_dispatcher" where
  "add_tcp_peer net_id addr d =
     d\<lparr>ad_routes := snd (learn_if_absent net_id KindTcp (ad_routes d)), ad_addrs := hm_insert net_id addr (ad_addrs d)\<rparr>"

definition force_tcp_peer :: "ams_net_id \<Rightarrow> string \<Rightarrow> ams_dispatcher \<Rightarrow> ams_dispatcher" where
  "force_tcp_peer net_id addr d =
     d\<lparr>ad_routes := snd (learn net_id KindTcp (ad_routes d)), ad_addrs := hm_insert net_id addr (ad_addrs d)\<rparr>"

section \<open>Requests\<close>

text \<open>The end of a call: its channel is dropped.\<close>

definition finish :: "nat \<Rightarrow> ams_dispatcher \<Rightarrow> ams_dispatcher" where
  "finish r d = d\<lparr>ad_calls := hm_remove r (ad_calls d), ad_inbox := hm_remove r (ad_inbox d)\<rparr>"

definition abandon :: "nat \<Rightarrow> call \<Rightarrow> ams_dispatcher \<Rightarrow> ams_dispatcher" where
  "abandon r c d = finish r (d\<lparr>ad_pending := hm_remove (cl_invoke_id c) (ad_pending d)\<rparr>)"

definition fail_call :: "nat \<Rightarrow> call \<Rightarrow> dispatcher_error \<Rightarrow> ams_dispatcher \<Rightarrow> ams_dispatcher \<times> disp_output list" where
  "fail_call r c e d = (abandon r c d, [Return r (Err e)])"

definition set_stage :: "nat \<Rightarrow> call \<Rightarrow> stage \<Rightarrow> ams_dispatcher \<Rightarrow> ams_dispatcher" where
  "set_stage r c st d = d\<lparr>ad_calls := hm_insert r (c\<lparr>cl_stage := st\<rparr>) (ad_calls d)\<rparr>"

definition begin_request ::
    "nat \<Rightarrow> ams_net_id \<Rightarrow> u16 \<Rightarrow> u16 \<Rightarrow> u8 list \<Rightarrow> nat \<Rightarrow> ams_dispatcher \<Rightarrow> ams_dispatcher \<times> disp_output list" where
  "begin_request r target port cmd payload timeout d =
     (case route_get (ad_routes d) target of
        None \<Rightarrow> (d, [Return r (Err (NoRoute target))])
      | Some transport \<Rightarrow>
          let invoke = ad_invoke_counter d;
              frame = build_ams_frame target port (ad_source_net_id d) (ad_source_port d) cmd 4 invoke payload;
              c = \<lparr>cl_target = target, cl_transport = transport, cl_invoke_id = invoke, cl_frame = frame,
                   cl_timeout = timeout, cl_stage = Routed\<rparr>
          in (d\<lparr>ad_invoke_counter := invoke + 1, ad_pending := hm_insert invoke r (ad_pending d),
                ad_calls := hm_insert r c (ad_calls d)\<rparr>, []))"

text \<open>\<open>result\<close> is what the MQTT client answers: nothing, or the text of its error.\<close>

definition publish_mqtt ::
    "nat \<Rightarrow> call \<Rightarrow> string option \<Rightarrow> ams_dispatcher \<Rightarrow> ams_dispatcher \<times> disp_output list" where
  "publish_mqtt r c result d =
     (case ad_mqtt d of
        None \<Rightarrow> fail_call r c (TransportNotAttached KindMqtt) d
      | Some topic_prefix \<Rightarrow>
          (case result of
             Some e \<Rightarrow> fail_call r c (MqttFailure e) d
           | None \<Rightarrow> (set_stage r c Waiting d, [Publish (outbound_topic topic_prefix (cl_target c)) (cl_frame c)])))"

definition get_or_dial_tcp_peer :: "nat \<Rightarrow> call \<Rightarrow> ams_dispatcher \<Rightarrow> ams_dispatcher \<times> disp_output list" where
  "get_or_dial_tcp_peer r c d =
     (case hm_get (ad_peers d) (cl_target c) of
        Some conn \<Rightarrow> (set_stage r c (Connected conn) d, [])
      | None \<Rightarrow>
          (case hm_get (ad_addrs d) (cl_target c) of
             None \<Rightarrow> fail_call r c (NoRoute (cl_target c)) d
           | Some addr \<Rightarrow> (set_stage r c (Dialing addr) d, [])))"

definition dialed ::
    "nat \<Rightarrow> call \<Rightarrow> string \<Rightarrow> string + nat \<Rightarrow> ams_dispatcher \<Rightarrow> ams_dispatcher \<times> disp_output list" where
  "dialed r c addr result d =
     (case result of
        Inl e \<Rightarrow> fail_call r c (MqttFailure (''tcp connect to '' @ addr @ '' failed: '' @ e)) d
      | Inr conn \<Rightarrow> (set_stage r c (Connected conn) (d\<lparr>ad_peers := hm_insert (cl_target c) conn (ad_peers d)\<rparr>), []))"

definition publish_tcp ::
    "nat \<Rightarrow> call \<Rightarrow> nat \<Rightarrow> string option \<Rightarrow> ams_dispatcher \<Rightarrow> ams_dispatcher \<times> disp_output list" where
  "publish_tcp r c conn result d =
     (case result of
        Some e \<Rightarrow>
          fail_call r c (MqttFailure (''tcp write: '' @ e)) (d\<lparr>ad_peers := hm_remove (cl_target c) (ad_peers d)\<rparr>)
      | None \<Rightarrow> (set_stage r c Waiting d, [WriteTcp conn (tcp_wire (cl_frame c))]))"

definition response_result :: "response_frame \<Rightarrow> (dispatcher_error, u8 list) res" where
  "response_result resp =
     (if error_code (rf_header resp) \<noteq> 0
      then Err (AdsFailure (BufferError (''ADS error 0x'' @ show_hex (unat (error_code (rf_header resp))) @
             '' from '' @ show_net_id (source_net_id (rf_header resp)))))
      else Ok (rf_payload resp))"

text \<open>
  The timeout is raced against the channel, which is looked at first. A dropped sender closes the
  channel.
\<close>

definition await_response :: "nat \<Rightarrow> call \<Rightarrow> bool \<Rightarrow> ams_dispatcher \<Rightarrow> ams_dispatcher \<times> disp_output list" where
  "await_response r c elapsed d =
     (case hm_get (ad_inbox d) r of
        Some resp \<Rightarrow> (finish r d, [Return r (response_result resp)])
      | None \<Rightarrow>
          if \<not> list_ex (\<lambda>(k, w). w = r) (ad_pending d) then fail_call r c ChannelClosed d
          else if elapsed then fail_call r c (TimedOut (cl_timeout c)) d
          else (d, []))"

section \<open>Incoming frames\<close>

definition parse_info_xml :: "u8 list \<Rightarrow> bool option" where
  "parse_info_xml payload =
     (case from_utf8 payload of
        None \<Rightarrow> None
      | Some s \<Rightarrow>
          let lower = ascii_lower s in
          if str_contains ''>true</online>'' lower then Some True
          else if str_contains ''>false</online>'' lower then Some False
          else None)"

definition topic_net_id :: "string \<Rightarrow> string \<Rightarrow> ams_net_id option" where
  "topic_net_id topic topic_prefix =
     (case Option.bind (strip_prefix topic_prefix topic) (strip_prefix ''/'') of
        None \<Rightarrow> None
      | Some rest \<Rightarrow>
          (case split_once (CHR ''/'') rest of
             None \<Rightarrow> None
           | Some (net_id, _) \<Rightarrow> (case net_id_from_str net_id of Ok n \<Rightarrow> Some n | _ \<Rightarrow> None)))"

definition info_update :: "string \<Rightarrow> string \<Rightarrow> u8 list \<Rightarrow> ams_dispatcher \<Rightarrow> ams_dispatcher" where
  "info_update topic topic_prefix payload d =
     (case (topic_net_id topic topic_prefix, parse_info_xml payload) of
        (Some net_id, Some True) \<Rightarrow> d\<lparr>ad_routes := snd (learn net_id KindMqtt (ad_routes d))\<rparr>
      | (Some net_id, Some False) \<Rightarrow> d\<lparr>ad_routes := snd (forget net_id (ad_routes d))\<rparr>
      | _ \<Rightarrow> d)"

definition accept_response :: "ams_header \<Rightarrow> u8 list \<Rightarrow> ams_dispatcher \<Rightarrow> ams_dispatcher" where
  "accept_response h body d =
     (case hm_get (ad_pending d) (invoke_id h) of
        None \<Rightarrow> d
      | Some w \<Rightarrow>
          d\<lparr>ad_pending := hm_remove (invoke_id h) (ad_pending d),
            ad_inbox := hm_insert w \<lparr>rf_header = h, rf_payload = body\<rparr> (ad_inbox d)\<rparr>)"

definition is_response :: "ams_header \<Rightarrow> bool" where
  "is_response h \<longleftrightarrow> state_flags h AND AMS_STATE_RESPONSE \<noteq> 0"

definition handle_incoming_mqtt ::
    "string \<Rightarrow> u8 list \<Rightarrow> string \<Rightarrow> ams_dispatcher \<Rightarrow> ams_dispatcher \<times> disp_output list" where
  "handle_incoming_mqtt topic payload topic_prefix d =
     (if ends_with ''/info'' topic then (info_update topic topic_prefix payload d, [])
      else if \<not> ends_with ''/ams'' topic \<and> \<not> ends_with ''/ams/res'' topic then (d, [])
      else if length payload < AMS_HEADER_LEN then (d, [])
      else
        case ams_header_parse (take AMS_HEADER_LEN payload) of
          Ok h \<Rightarrow>
            (let body = drop AMS_HEADER_LEN payload;
                 d' = (if source_net_id h \<noteq> ad_source_net_id d
                       then d\<lparr>ad_routes := snd (learn_if_absent (source_net_id h) KindMqtt (ad_routes d))\<rparr> else d)
             in if is_response h then
                  (if target_net_id h \<noteq> ad_source_net_id d \<or> target_port h \<noteq> ad_source_port d then (d', [])
                   else (accept_response h body d', []))
                else (d', [Deliver h body]))
        | _ \<Rightarrow> (d, []))"

definition tcp_frame :: "u8 list \<Rightarrow> ams_dispatcher \<Rightarrow> ams_dispatcher \<times> disp_output list" where
  "tcp_frame body d =
     (if length body < AMS_HEADER_LEN then (d, [])
      else
        case ams_header_parse (take AMS_HEADER_LEN body) of
          Ok h \<Rightarrow>
            if is_response h then (accept_response h (drop AMS_HEADER_LEN body) d, [])
            else (d, [Deliver h (drop AMS_HEADER_LEN body)])
        | _ \<Rightarrow> (d, []))"

text \<open>The frames a reader takes from the bytes of a connection, up to its end or a length it refuses.\<close>

function tcp_bodies :: "u8 list \<Rightarrow> u8 list list" where
  "tcp_bodies bs =
     (if length bs < 6 then []
      else
        let total_len = unat (u32_from_le (bytes_at 2 4 bs)) in
        if total_len = 0 \<or> MAX_AMS_FRAME < total_len then []
        else if length bs - 6 < total_len then []
        else take total_len (drop 6 bs) # tcp_bodies (drop (6 + total_len) bs))"
  by pat_completeness auto
termination
  by (relation "measure length") auto

declare tcp_bodies.simps [simp del]

definition tcp_closed :: "ams_net_id \<Rightarrow> ams_dispatcher \<Rightarrow> ams_dispatcher" where
  "tcp_closed target d = d\<lparr>ad_peers := hm_remove target (ad_peers d)\<rparr>"

section \<open>Runs\<close>

datatype disp_event =
    AddStaticRoute ams_net_id transport_kind
  | AddTcpPeer ams_net_id string
  | ForceTcpPeer ams_net_id string
  | AttachMqtt string
  | MqttConnected
  | Send nat ams_net_id u16 u16 "u8 list" nat
  | Published nat "string option"
  | Dialed nat "string + nat"
  | Written nat "string option"
  | Poll nat bool
  | MqttMessage string "u8 list"
  | TcpFrame "u8 list"
  | TcpClosed ams_net_id

text \<open>A step of a call that is at another point is no event of a run and changes nothing.\<close>

fun call_step :: "disp_event \<Rightarrow> nat \<Rightarrow> call \<Rightarrow> ams_dispatcher \<Rightarrow> ams_dispatcher \<times> disp_output list" where
  "call_step (Published _ result) r c d =
     (if cl_stage c \<noteq> Routed then (d, [])
      else if cl_transport c = KindMqtt then publish_mqtt r c result d
      else get_or_dial_tcp_peer r c d)"
| "call_step (Dialed _ result) r c d =
     (case cl_stage c of Dialing addr \<Rightarrow> dialed r c addr result d | _ \<Rightarrow> (d, []))"
| "call_step (Written _ result) r c d =
     (case cl_stage c of Connected conn \<Rightarrow> publish_tcp r c conn result d | _ \<Rightarrow> (d, []))"
| "call_step (Poll _ elapsed) r c d = (if cl_stage c = Waiting then await_response r c elapsed d else (d, []))"
| "call_step _ _ c d = (d, [])"

fun event_call :: "disp_event \<Rightarrow> nat option" where
  "event_call (Published r _) = Some r"
| "event_call (Dialed r _) = Some r"
| "event_call (Written r _) = Some r"
| "event_call (Poll r _) = Some r"
| "event_call _ = None"

fun shared_step :: "disp_event \<Rightarrow> ams_dispatcher \<Rightarrow> ams_dispatcher \<times> disp_output list" where
  "shared_step (AddStaticRoute n kind) d = (add_static_route n kind d, [])"
| "shared_step (AddTcpPeer n addr) d = (add_tcp_peer n addr d, [])"
| "shared_step (ForceTcpPeer n addr) d = (force_tcp_peer n addr d, [])"
| "shared_step (AttachMqtt p) d = ((case attach_mqtt p d of Ok d' \<Rightarrow> d' | _ \<Rightarrow> d), [])"
| "shared_step MqttConnected d = (d, (case ad_mqtt d of Some p \<Rightarrow> map Subscribe (subscriptions d p) | None \<Rightarrow> []))"
| "shared_step (MqttMessage topic payload) d =
     (case ad_mqtt d of Some p \<Rightarrow> handle_incoming_mqtt topic payload p d | None \<Rightarrow> (d, []))"
| "shared_step (TcpFrame body) d = tcp_frame body d"
| "shared_step (TcpClosed n) d = (tcp_closed n d, [])"
| "shared_step (Send r target port cmd payload timeout) d =
     (if hm_get (ad_calls d) r \<noteq> None then (d, []) else begin_request r target port cmd payload timeout d)"
| "shared_step _ d = (d, [])"

definition disp_step :: "ams_dispatcher \<Rightarrow> disp_event \<Rightarrow> ams_dispatcher \<times> disp_output list" where
  "disp_step d ev =
     (case event_call ev of
        Some r \<Rightarrow> (case hm_get (ad_calls d) r of Some c \<Rightarrow> call_step ev r c d | None \<Rightarrow> (d, []))
      | None \<Rightarrow> shared_step ev d)"

section \<open>What a step does to the calls\<close>

definition core :: "ams_dispatcher \<Rightarrow> ams_net_id \<times> u16 \<times> (u32, nat) hmap \<times> u32 \<times> (nat, call) hmap \<times> (nat, response_frame) hmap" where
  "core d = (ad_source_net_id d, ad_source_port d, ad_pending d, ad_invoke_counter d, ad_calls d, ad_inbox d)"

fun frame_of :: "disp_event \<Rightarrow> u8 list option" where
  "frame_of (MqttMessage _ bs) = Some bs"
| "frame_of (TcpFrame bs) = Some bs"
| "frame_of _ = None"

text \<open>
  A response that an event brings to the dispatcher with the given address. On MQTT, where all
  peers share the response topics, it must be addressed to it.
\<close>

definition brings :: "ams_net_id \<Rightarrow> u16 \<Rightarrow> disp_event \<Rightarrow> response_frame \<Rightarrow> bool" where
  "brings net port ev resp \<longleftrightarrow>
     frame_of ev = Some (ams_header_serialize (rf_header resp) @ rf_payload resp) \<and> is_response (rf_header resp) \<and>
     (\<forall>t bs. ev = MqttMessage t bs \<longrightarrow> target_net_id (rf_header resp) = net \<and> target_port (rf_header resp) = port)"

inductive effect :: "ams_dispatcher \<Rightarrow> disp_event \<Rightarrow> ams_dispatcher \<Rightarrow> disp_output list \<Rightarrow> bool" where
  quiet: "core d' = core d \<Longrightarrow> (\<And>r res. Return r res \<notin> set outs) \<Longrightarrow> effect d ev d' outs"
| refused: "d' = d \<Longrightarrow> effect d (Send r t p cmd pl to) d' [Return r (Err e)]"
| progress: "hm_get (ad_calls d) r = Some c \<Longrightarrow> core d' = core (set_stage r c st d) \<Longrightarrow>
    (\<And>r res. Return r res \<notin> set outs) \<Longrightarrow> effect d ev d' outs"
| failed: "hm_get (ad_calls d) r = Some c \<Longrightarrow> core d' = core (abandon r c d) \<Longrightarrow> effect d ev d' [Return r (Err e)]"
| answered: "hm_get (ad_calls d) r = Some c \<Longrightarrow> hm_get (ad_inbox d) r = Some resp \<Longrightarrow> d' = finish r d \<Longrightarrow>
    effect d ev d' [Return r (response_result resp)]"
| response: "core d' = core (accept_response h body d) \<Longrightarrow>
    brings (ad_source_net_id d) (ad_source_port d) ev \<lparr>rf_header = h, rf_payload = body\<rparr> \<Longrightarrow> effect d ev d' []"
| started: "hm_get (ad_calls d) r = None \<Longrightarrow> route_get (ad_routes d) t \<noteq> None \<Longrightarrow>
    begin_request r t p cmd pl to d = (d', outs) \<Longrightarrow> effect d (Send r t p cmd pl to) d' outs"

inductive_cases effect_cases: "effect d ev d' outs"

lemma header_split:
  assumes "\<not> length bs < AMS_HEADER_LEN"
  shows "\<exists>h. ams_header_parse (take AMS_HEADER_LEN bs) = Ok h \<and> bs = ams_header_serialize h @ drop AMS_HEADER_LEN bs"
proof -
  obtain h where h: "ams_header_parse bs = Ok h" "ams_header_serialize h = take 32 bs"
    using assms header.enc_dec [of bs] by (auto simp: AMS_HEADER_LEN_def)
  then have "ams_header_parse (take 32 bs) = Ok h" using header.dec_append [of h "[]"] by simp
  then show ?thesis using h(2) by (intro exI [of _ h]) (simp add: AMS_HEADER_LEN_def)
qed

lemma tcp_frame_effect: "tcp_frame body d = (d', outs) \<Longrightarrow> effect d (TcpFrame body) d' outs"
proof (cases "length body < AMS_HEADER_LEN")
  case False
  assume t: "tcp_frame body d = (d', outs)"
  obtain h where h: "ams_header_parse (take AMS_HEADER_LEN body) = Ok h"
    "body = ams_header_serialize h @ drop AMS_HEADER_LEN body" using header_split [OF False] by blast
  show ?thesis
  proof (cases "is_response h")
    case True
    then have "d' = accept_response h (drop AMS_HEADER_LEN body) d" "outs = []"
      using t h(1) False by (simp_all add: tcp_frame_def)
    moreover have "brings net port (TcpFrame body) \<lparr>rf_header = h, rf_payload = drop AMS_HEADER_LEN body\<rparr>" for net port
      using True h(2) by (simp add: brings_def)
    ultimately show ?thesis by (auto intro: response)
  next
    case resp: False
    then show ?thesis using t h(1) False by (auto simp: tcp_frame_def intro: quiet)
  qed
qed (auto simp: tcp_frame_def intro: quiet)

lemma core_routes [simp]: "core (d\<lparr>ad_routes := x\<rparr>) = core d" "core (d\<lparr>ad_addrs := y\<rparr>) = core d"
  "core (d\<lparr>ad_peers := z\<rparr>) = core d" "core (d\<lparr>ad_mqtt := m\<rparr>) = core d"
  by (simp_all add: core_def)

lemma core_accept: "core d' = core d \<Longrightarrow> core (accept_response h body d') = core (accept_response h body d)"
  by (simp add: core_def accept_response_def split: option.splits)

lemma core_abandon: "core d' = core d \<Longrightarrow> core (abandon r c d') = core (abandon r c d)"
  by (simp add: core_def abandon_def finish_def)

lemma core_stage: "core d' = core d \<Longrightarrow> core (set_stage r c st d') = core (set_stage r c st d)"
  by (simp add: core_def set_stage_def)

lemma core_info: "core (info_update topic p payload d) = core d"
  by (auto simp: info_update_def split: option.splits bool.splits)

lemma mqtt_effect:
  assumes m: "handle_incoming_mqtt topic payload p d = (d', outs)"
  shows "effect d (MqttMessage topic payload) d' outs"
proof (cases "ends_with ''/info'' topic \<or> \<not> ends_with ''/ams'' topic \<and> \<not> ends_with ''/ams/res'' topic \<or>
    length payload < AMS_HEADER_LEN")
  case True
  then show ?thesis
    using m by (auto simp: handle_incoming_mqtt_def core_info intro!: quiet split: if_splits)
next
  case False
  then obtain h where h: "ams_header_parse (take AMS_HEADER_LEN payload) = Ok h"
    "payload = ams_header_serialize h @ drop AMS_HEADER_LEN payload" using header_split by blast
  define d1 where "d1 = (if source_net_id h \<noteq> ad_source_net_id d
      then d\<lparr>ad_routes := snd (learn_if_absent (source_net_id h) KindMqtt (ad_routes d))\<rparr> else d)"
  have d1: "core d1 = core d" by (simp add: d1_def)
  have guards: "ends_with ''/info'' topic = False" "(\<not> ends_with ''/ams'' topic \<and> \<not> ends_with ''/ams/res'' topic) = False"
    "(length payload < AMS_HEADER_LEN) = False" using False by blast+
  have res: "(d', outs) = (if is_response h then
      (if target_net_id h \<noteq> ad_source_net_id d \<or> target_port h \<noteq> ad_source_port d then (d1, [])
       else (accept_response h (drop AMS_HEADER_LEN payload) d1, []))
      else (d1, [Deliver h (drop AMS_HEADER_LEN payload)]))"
    unfolding m [symmetric] handle_incoming_mqtt_def d1_def by (simp only: guards h(1) if_False res.case Let_def)
  show ?thesis
  proof (cases "is_response h \<and> target_net_id h = ad_source_net_id d \<and> target_port h = ad_source_port d")
    case True
    then have "core d' = core (accept_response h (drop AMS_HEADER_LEN payload) d)" "outs = []"
      using res core_accept [OF d1] by simp_all
    moreover have "brings (ad_source_net_id d) (ad_source_port d) (MqttMessage topic payload)
        \<lparr>rf_header = h, rf_payload = drop AMS_HEADER_LEN payload\<rparr>"
      using True h(2) by (simp add: brings_def)
    ultimately show ?thesis by (auto intro: response)
  next
    case no: False
    then show ?thesis using res d1 by (auto intro!: quiet split: if_splits)
  qed
qed

lemma fail_effect:
  "hm_get (ad_calls d) r = Some c \<Longrightarrow> core d1 = core d \<Longrightarrow> fail_call r c e d1 = (d', outs) \<Longrightarrow> effect d ev d' outs"
  unfolding fail_call_def using failed core_abandon by blast

lemma stage_effect:
  "hm_get (ad_calls d) r = Some c \<Longrightarrow> core d1 = core d \<Longrightarrow> (\<And>w res. Return w res \<notin> set outs) \<Longrightarrow>
   effect d ev (set_stage r c st d1) outs"
  using progress core_stage by blast

lemma publish_mqtt_effect:
  "hm_get (ad_calls d) r = Some c \<Longrightarrow> publish_mqtt r c result d = (d', outs) \<Longrightarrow> effect d ev d' outs"
  by (auto simp: publish_mqtt_def split: option.splits intro: fail_effect stage_effect)

lemma get_or_dial_effect:
  "hm_get (ad_calls d) r = Some c \<Longrightarrow> get_or_dial_tcp_peer r c d = (d', outs) \<Longrightarrow> effect d ev d' outs"
  by (auto simp: get_or_dial_tcp_peer_def split: option.splits intro: fail_effect stage_effect)

lemma dialed_effect:
  "hm_get (ad_calls d) r = Some c \<Longrightarrow> dialed r c addr result d = (d', outs) \<Longrightarrow> effect d ev d' outs"
  by (auto simp: dialed_def split: sum.splits intro: fail_effect intro!: stage_effect)

lemma publish_tcp_effect:
  assumes "hm_get (ad_calls d) r = Some c" "publish_tcp r c conn result d = (d', outs)"
  shows "effect d ev d' outs"
proof (cases result)
  case (Some e)
  then show ?thesis
    using assms fail_effect [of d r c "d\<lparr>ad_peers := hm_remove (cl_target c) (ad_peers d)\<rparr>"]
    by (simp add: publish_tcp_def)
qed (use assms in \<open>auto simp: publish_tcp_def intro: stage_effect\<close>)

lemma await_effect:
  assumes "hm_get (ad_calls d) r = Some c" "await_response r c elapsed d = (d', outs)"
  shows "effect d ev d' outs"
proof (cases "hm_get (ad_inbox d) r")
  case None
  then show ?thesis
    using assms by (auto simp: await_response_def split: if_splits intro: fail_effect quiet)
qed (use assms answered in \<open>auto simp: await_response_def\<close>)

lemma call_effect:
  assumes c: "hm_get (ad_calls d) r = Some c" and s: "call_step ev r c d = (d', outs)"
  shows "effect d ev' d' outs"
proof (cases ev)
  case (Published w result)
  then show ?thesis
    using s publish_mqtt_effect [OF c] get_or_dial_effect [OF c] by (auto split: if_splits intro: quiet)
next
  case (Dialed w result)
  then show ?thesis using s dialed_effect [OF c] by (auto split: stage.splits intro: quiet)
next
  case (Written w result)
  then show ?thesis using s publish_tcp_effect [OF c] by (auto split: stage.splits intro: quiet)
next
  case (Poll w elapsed)
  then show ?thesis using s await_effect [OF c] by (auto split: if_splits intro: quiet)
qed (use s in \<open>auto intro: quiet\<close>)

lemma disp_step_effect: "disp_step d ev = (d', outs) \<Longrightarrow> effect d ev d' outs"
proof (cases "event_call ev")
  case (Some r)
  assume "disp_step d ev = (d', outs)"
  then show ?thesis
    using Some call_effect [of d r] by (auto simp: disp_step_def intro: quiet split: option.splits)
next
  case None
  assume "disp_step d ev = (d', outs)"
  then have s: "shared_step ev d = (d', outs)" using None by (simp add: disp_step_def)
  show ?thesis
  proof (cases ev)
    case (MqttMessage t bs)
    then show ?thesis using s mqtt_effect by (auto intro: quiet split: option.splits)
  next
    case (TcpFrame bs)
    then show ?thesis using s tcp_frame_effect by simp
  next
    case (Send r t p cmd pl to)
    show ?thesis
    proof (cases "hm_get (ad_calls d) r = None \<and> route_get (ad_routes d) t \<noteq> None")
      case True
      then show ?thesis using s Send started by simp
    next
      case False
      then show ?thesis
        using s Send by (auto simp: begin_request_def intro: quiet refused split: if_splits option.splits)
    qed
  qed (use s None in \<open>auto simp: add_static_route_def add_tcp_peer_def force_tcp_peer_def attach_mqtt_def tcp_closed_def
      intro!: quiet split: option.splits if_splits\<close>)
qed

section \<open>Correlation\<close>

text \<open>
  Every pending id belongs to a call in progress that uses it, and a call with a response in its inbox
  is in progress and no longer pending.
\<close>

definition disp_inv :: "ams_dispatcher \<Rightarrow> bool" where
  "disp_inv d \<longleftrightarrow>
     (\<forall>i w. hm_get (ad_pending d) i = Some w \<longrightarrow> (\<exists>c. hm_get (ad_calls d) w = Some c \<and> cl_invoke_id c = i)) \<and>
     (\<forall>w resp. hm_get (ad_inbox d) w = Some resp \<longrightarrow>
        (\<exists>c. hm_get (ad_calls d) w = Some c \<and> hm_get (ad_pending d) (cl_invoke_id c) \<noteq> Some w))"

lemma hm_get_remove: "hm_get (hm_remove k m) = (hm_get m)(k := None)"
  by (simp add: hm_get_def hm_remove_def delete_conv fun_eq_iff)

lemmas call_simps = hm.get_insert hm_get_remove set_stage_def abandon_def finish_def

lemma core_eq:
  "core d' = core d \<longleftrightarrow>
     ad_source_net_id d' = ad_source_net_id d \<and> ad_source_port d' = ad_source_port d \<and> ad_pending d' = ad_pending d \<and>
     ad_invoke_counter d' = ad_invoke_counter d \<and> ad_calls d' = ad_calls d \<and> ad_inbox d' = ad_inbox d"
  by (auto simp: core_def)

lemma disp_inv_core: "core d' = core d \<Longrightarrow> disp_inv d' = disp_inv d"
  by (simp add: core_eq disp_inv_def)

lemma begin_request_eq:
  assumes "route_get (ad_routes d) t \<noteq> None" "begin_request r t p cmd pl to d = (d', outs)"
  shows "\<exists>c. cl_invoke_id c = ad_invoke_counter d \<and> outs = [] \<and>
     d' = d\<lparr>ad_invoke_counter := ad_invoke_counter d + 1, ad_pending := hm_insert (ad_invoke_counter d) r (ad_pending d),
            ad_calls := hm_insert r c (ad_calls d)\<rparr>"
proof -
  obtain tr where "route_get (ad_routes d) t = Some tr" using assms(1) by blast
  then show ?thesis
    using assms(2)
    by (intro exI [of _ "\<lparr>cl_target = t, cl_transport = tr, cl_invoke_id = ad_invoke_counter d,
        cl_frame = build_ams_frame t p (ad_source_net_id d) (ad_source_port d) cmd 4 (ad_invoke_counter d) pl,
        cl_timeout = to, cl_stage = Routed\<rparr>"]) (simp add: begin_request_def Let_def)
qed

lemma disp_inv_stage: "disp_inv d \<Longrightarrow> hm_get (ad_calls d) r = Some c \<Longrightarrow> disp_inv (set_stage r c st d)"
  unfolding disp_inv_def by (auto simp: call_simps) (metis option.inject)

lemma disp_inv_abandon: "disp_inv d \<Longrightarrow> hm_get (ad_calls d) r = Some c \<Longrightarrow> disp_inv (abandon r c d)"
  unfolding disp_inv_def by (auto simp: call_simps) (metis option.inject)

lemma disp_inv_accept: "disp_inv d \<Longrightarrow> disp_inv (accept_response h body d)"
  unfolding disp_inv_def by (auto simp: call_simps accept_response_def split: option.splits) blast

lemma disp_inv_finish: "disp_inv d \<Longrightarrow> hm_get (ad_inbox d) r = Some resp \<Longrightarrow> disp_inv (finish r d)"
  unfolding disp_inv_def by (auto simp: call_simps) (metis option.inject)

lemma disp_inv_begin:
  assumes "disp_inv d" "hm_get (ad_calls d) r = None" "route_get (ad_routes d) t \<noteq> None"
    "begin_request r t p cmd pl to d = (d', outs)"
  shows "disp_inv d'"
proof -
  obtain c where c: "cl_invoke_id c = ad_invoke_counter d"
    "d' = d\<lparr>ad_invoke_counter := ad_invoke_counter d + 1, ad_pending := hm_insert (ad_invoke_counter d) r (ad_pending d),
            ad_calls := hm_insert r c (ad_calls d)\<rparr>"
    using begin_request_eq [OF assms(3,4)] by blast
  have "hm_get (ad_pending d) i \<noteq> Some r" for i using assms(1,2) unfolding disp_inv_def by force
  moreover have "hm_get (ad_inbox d) r = None" using assms(1,2) unfolding disp_inv_def by force
  ultimately have r: "hm_get (ad_pending d) i \<noteq> Some r" "hm_get (ad_inbox d) r = None" for i by blast+
  show ?thesis
    unfolding c(2) using assms(1,2) c(1) r by (auto simp: disp_inv_def hm.get_insert)
qed

lemma disp_inv_effect: "effect d ev d' outs \<Longrightarrow> disp_inv d \<Longrightarrow> disp_inv d'"
  by (erule effect_cases)
    (auto intro: disp_inv_stage disp_inv_abandon disp_inv_accept disp_inv_finish disp_inv_begin dest!: disp_inv_core)

interpretation dispatcher: machine_invariant disp_step "\<lambda>_. True" disp_inv
  by unfold_locales (metis disp_inv_effect disp_step_effect prod.collapse)

text \<open>What is known of a call: its id, and where a response in its inbox comes from.\<close>

definition tracked :: "ams_net_id \<Rightarrow> u16 \<Rightarrow> disp_event set \<Rightarrow> u32 \<Rightarrow> nat \<Rightarrow> ams_dispatcher \<Rightarrow> bool" where
  "tracked net port evs i r d \<longleftrightarrow>
     ad_source_net_id d = net \<and> ad_source_port d = port \<and>
     (\<forall>c. hm_get (ad_calls d) r = Some c \<longrightarrow> cl_invoke_id c = i) \<and>
     (\<forall>resp. hm_get (ad_inbox d) r = Some resp \<longrightarrow> (\<exists>ev \<in> evs. brings net port ev resp \<and> invoke_id (rf_header resp) = i))"

lemma tracked_core: "core d' = core d \<Longrightarrow> tracked net port evs i r d' = tracked net port evs i r d"
  by (simp add: core_eq tracked_def)

lemma tracked_mono: "tracked net port evs i r d \<Longrightarrow> evs \<subseteq> evs' \<Longrightarrow> tracked net port evs' i r d"
  unfolding tracked_def by blast

lemma tracked_calls:
  "tracked net port evs i r d \<Longrightarrow> hm_get (ad_calls d) w = Some c \<Longrightarrow> tracked net port evs i r (set_stage w c st d)"
  "tracked net port evs i r d \<Longrightarrow> tracked net port evs i r (abandon w c d)"
  "tracked net port evs i r d \<Longrightarrow> tracked net port evs i r (finish w d)"
  by (auto simp: tracked_def call_simps)

lemma tracked_accept:
  assumes "disp_inv d" "tracked net port evs i r d" "brings net port ev \<lparr>rf_header = h, rf_payload = body\<rparr>"
  shows "tracked net port (insert ev evs) i r (accept_response h body d)"
proof (cases "hm_get (ad_pending d) (invoke_id h) = Some r")
  case True
  then obtain c where "hm_get (ad_calls d) r = Some c" "cl_invoke_id c = invoke_id h"
    using assms(1) unfolding disp_inv_def by blast
  then have "invoke_id h = i" using assms(2) by (simp add: tracked_def)
  then show ?thesis using True assms(2,3) by (auto simp: tracked_def accept_response_def call_simps)
next
  case False
  then show ?thesis
    using assms(2) by (auto simp: tracked_def accept_response_def call_simps split: option.splits)
qed

lemma tracked_begin:
  assumes "tracked net port evs i r d" "w \<noteq> r" "route_get (ad_routes d) t \<noteq> None"
    "begin_request w t p cmd pl to d = (d', outs)"
  shows "tracked net port evs i r d'"
  using begin_request_eq [OF assms(3,4)] assms(1,2) by (auto simp: tracked_def hm.get_insert)

lemma tracked_effect:
  assumes e: "effect d ev d' outs" and d: "disp_inv d" "tracked net port evs i r d"
    and ev: "\<And>t p cmd pl to. ev \<noteq> Send r t p cmd pl to"
  shows "tracked net port (insert ev evs) i r d'"
proof -
  have m: "tracked net port evs i r x \<Longrightarrow> tracked net port (insert ev evs) i r x" for x
    by (rule tracked_mono) auto
  have src: "ad_source_net_id d = net" "ad_source_port d = port" using d(2) by (simp_all add: tracked_def)
  from e show ?thesis
  proof cases
    case quiet
    then show ?thesis using m d(2) tracked_core by blast
  next
    case refused
    then show ?thesis using m d(2) by blast
  next
    case (progress w c st)
    then show ?thesis using m tracked_core tracked_calls(1) [OF d(2)] by blast
  next
    case (failed w c e)
    then show ?thesis using m tracked_core tracked_calls(2) [OF d(2)] by blast
  next
    case (answered w c resp)
    then show ?thesis using m tracked_calls(3) [OF d(2)] by blast
  next
    case (response h body)
    then show ?thesis using tracked_core tracked_accept [OF d] src by blast
  next
    case (started w t p cmd pl to)
    then show ?thesis using m tracked_begin [OF d(2)] ev by blast
  qed
qed

lemma effect_result:
  assumes "effect d ev d' outs" "tracked net port evs i r d" "Return r res \<in> set outs" "res = Ok p"
    and "\<And>t p cmd pl to. ev \<noteq> Send r t p cmd pl to"
  shows "\<exists>ev \<in> evs. \<exists>h. brings net port ev \<lparr>rf_header = h, rf_payload = p\<rparr> \<and> invoke_id h = i \<and> error_code h = 0"
  using assms(1)
proof cases
  case (answered w c resp)
  then have "hm_get (ad_inbox d) r = Some resp" "response_result resp = Ok p" using assms by auto
  then obtain ev' where "ev' \<in> evs" "brings net port ev' resp" "invoke_id (rf_header resp) = i"
    "error_code (rf_header resp) = 0" "rf_payload resp = p"
    using assms(2) by (auto simp: tracked_def response_result_def split: if_splits)
  moreover have "resp = \<lparr>rf_header = rf_header resp, rf_payload = rf_payload resp\<rparr>" by simp
  ultimately show ?thesis by metis
next
  case (started w t p cmd pl to)
  then show ?thesis using begin_request_eq assms(3) by fastforce
qed (use assms in auto)

lemma run_result:
  assumes "disp_inv d" "tracked net port evs i r d" "\<And>t p cmd pl to. Send r t p cmd pl to \<notin> set mid"
    "Return r (Ok p) \<in> set (snd (run_machine disp_step d mid))"
  shows "\<exists>ev \<in> evs \<union> set mid. \<exists>h. brings net port ev \<lparr>rf_header = h, rf_payload = p\<rparr> \<and> invoke_id h = i \<and> error_code h = 0"
  using assms
proof (induction mid arbitrary: d evs)
  case (Cons ev mid)
  obtain d' outs where s: "disp_step d ev = (d', outs)" by fastforce
  note e = disp_step_effect [OF s]
  have ev: "\<And>t p cmd pl to. ev \<noteq> Send r t p cmd pl to" using Cons.prems(3) by (metis list.set_intros(1))
  show ?case
  proof (cases "Return r (Ok p) \<in> set outs")
    case True
    then show ?thesis using effect_result [OF e Cons.prems(2) True refl ev] by auto
  next
    case False
    then have "Return r (Ok p) \<in> set (snd (run_machine disp_step d' mid))"
      using Cons.prems(4) s by (auto split: prod.splits)
    then have "\<exists>ev \<in> insert ev evs \<union> set mid. \<exists>h. brings net port ev \<lparr>rf_header = h, rf_payload = p\<rparr> \<and> invoke_id h = i \<and> error_code h = 0"
      using Cons.IH [OF disp_inv_effect [OF e Cons.prems(1)] tracked_effect [OF e Cons.prems(1,2) ev]] Cons.prems(3)
      by simp
    then show ?thesis by auto
  qed
qed simp

section \<open>No answer is lost\<close>

text \<open>
  While fewer than \<open>2 ^ 32\<close> requests were sent, ids of calls in progress are distinct, and every
  call without a response is still pending under its own id.
\<close>

fun is_send :: "disp_event \<Rightarrow> bool" where
  "is_send (Send _ _ _ _ _ _) = True"
| "is_send _ = False"

definition ids_inv :: "nat \<Rightarrow> ams_dispatcher \<Rightarrow> bool" where
  "ids_inv n d \<longleftrightarrow>
     ad_invoke_counter d = 1 + of_nat n \<and>
     (\<forall>w c. hm_get (ad_calls d) w = Some c \<longrightarrow> (\<exists>j < n. cl_invoke_id c = 1 + of_nat j)) \<and>
     (\<forall>w c w' c'. hm_get (ad_calls d) w = Some c \<longrightarrow> hm_get (ad_calls d) w' = Some c' \<longrightarrow>
        cl_invoke_id c = cl_invoke_id c' \<longrightarrow> w = w') \<and>
     (\<forall>w c. hm_get (ad_calls d) w = Some c \<longrightarrow>
        hm_get (ad_pending d) (cl_invoke_id c) = Some w \<or> hm_get (ad_inbox d) w \<noteq> None)"

lemma ids_inv_core: "core d' = core d \<Longrightarrow> ids_inv n d' = ids_inv n d"
  by (simp add: core_eq ids_inv_def)

lemma ids_inv_less:
  assumes d: "ids_inv n d" and cnt: "ad_invoke_counter d' = ad_invoke_counter d"
    and calls: "\<And>w c'. hm_get (ad_calls d') w = Some c' \<Longrightarrow> \<exists>c. hm_get (ad_calls d) w = Some c \<and> cl_invoke_id c = cl_invoke_id c'"
    and live: "\<And>w c'. hm_get (ad_calls d') w = Some c' \<Longrightarrow>
      hm_get (ad_pending d) (cl_invoke_id c') = Some w \<or> hm_get (ad_inbox d) w \<noteq> None \<Longrightarrow>
      hm_get (ad_pending d') (cl_invoke_id c') = Some w \<or> hm_get (ad_inbox d') w \<noteq> None"
  shows "ids_inv n d'"
  unfolding ids_inv_def
proof (intro conjI allI impI)
  show "ad_invoke_counter d' = 1 + of_nat n" using d cnt by (simp add: ids_inv_def)
next
  fix w c assume w: "hm_get (ad_calls d') w = Some c"
  obtain c0 where c0: "hm_get (ad_calls d) w = Some c0" "cl_invoke_id c0 = cl_invoke_id c" using calls [OF w] by blast
  show "\<exists>j < n. cl_invoke_id c = 1 + of_nat j" using d c0 unfolding ids_inv_def by metis
  have "hm_get (ad_pending d) (cl_invoke_id c0) = Some w \<or> hm_get (ad_inbox d) w \<noteq> None"
    using d c0(1) unfolding ids_inv_def by blast
  then show "hm_get (ad_pending d') (cl_invoke_id c) = Some w \<or> hm_get (ad_inbox d') w \<noteq> None"
    using live [OF w] c0(2) by simp
next
  fix w c w' c'
  assume w: "hm_get (ad_calls d') w = Some c" "hm_get (ad_calls d') w' = Some c'" "cl_invoke_id c = cl_invoke_id c'"
  obtain x x' where x: "hm_get (ad_calls d) w = Some x" "hm_get (ad_calls d) w' = Some x'" "cl_invoke_id x = cl_invoke_id x'"
    using calls [OF w(1)] calls [OF w(2)] w(3) by auto
  have "\<forall>w c w' c'. hm_get (ad_calls d) w = Some c \<longrightarrow> hm_get (ad_calls d) w' = Some c' \<longrightarrow>
      cl_invoke_id c = cl_invoke_id c' \<longrightarrow> w = w'"
    using d unfolding ids_inv_def by blast
  then show "w = w'" using x by blast
qed

lemma ids_inv_stage: "ids_inv n d \<Longrightarrow> hm_get (ad_calls d) r = Some c \<Longrightarrow> ids_inv n (set_stage r c st d)"
  by (erule ids_inv_less) (auto simp: call_simps split: if_splits)

lemma ids_inv_abandon:
  assumes d: "ids_inv n d" and r: "hm_get (ad_calls d) r = Some c"
  shows "ids_inv n (abandon r c d)"
proof -
  have "cl_invoke_id c' \<noteq> cl_invoke_id c" if "hm_get (ad_calls d) w = Some c'" "w \<noteq> r" for w c'
    using d r that unfolding ids_inv_def by metis
  then show ?thesis using d by (intro ids_inv_less [OF d]) (auto simp: call_simps split: if_splits)
qed

lemma ids_inv_finish: "ids_inv n d \<Longrightarrow> ids_inv n (finish r d)"
  by (erule ids_inv_less) (auto simp: call_simps split: if_splits)

lemma ids_inv_accept: "ids_inv n d \<Longrightarrow> ids_inv n (accept_response h body d)"
  by (erule ids_inv_less) (auto simp: call_simps accept_response_def split: option.splits)

lemma u32_ids_distinct:
  assumes "j < n" "n < 2 ^ 32"
  shows "(1 + of_nat j :: u32) \<noteq> 1 + of_nat n"
proof
  assume "(1 + of_nat j :: u32) = 1 + of_nat n"
  then have "unat (of_nat j :: u32) = unat (of_nat n :: u32)" by simp
  then show False using assms by (simp add: unat_of_nat)
qed

lemma ids_inv_begin:
  assumes d: "disp_inv d" "ids_inv n d" and n: "n < 2 ^ 32" and r: "hm_get (ad_calls d) r = None"
    and b: "route_get (ad_routes d) t \<noteq> None" "begin_request r t p cmd pl to d = (d', outs)"
  shows "ids_inv (Suc n) d'"
proof -
  obtain c where c: "cl_invoke_id c = ad_invoke_counter d"
    "d' = d\<lparr>ad_invoke_counter := ad_invoke_counter d + 1, ad_pending := hm_insert (ad_invoke_counter d) r (ad_pending d),
            ad_calls := hm_insert r c (ad_calls d)\<rparr>"
    using begin_request_eq [OF b] by blast
  have cnt: "ad_invoke_counter d = 1 + of_nat n" using d(2) by (simp add: ids_inv_def)
  have other: "cl_invoke_id c' \<noteq> 1 + of_nat n" if "hm_get (ad_calls d) w = Some c'" for w c'
    using that d(2) u32_ids_distinct [OF _ n] unfolding ids_inv_def by metis
  show ?thesis
    unfolding ids_inv_def c(2) using d(2) [unfolded ids_inv_def] c(1) cnt other
    by (simp add: hm.get_insert) (metis less_SucI lessI)
qed

lemma ids_inv_effect:
  assumes e: "effect d ev d' outs" and d: "disp_inv d" "ids_inv n d" and n: "n < 2 ^ 32"
  shows "\<exists>m \<le> n + (if is_send ev then 1 else 0). ids_inv m d'"
  using e
proof cases
  case (started w t p cmd pl to)
  then have "ids_inv (Suc n) d'" using ids_inv_begin [OF d n] by blast
  then show ?thesis using started(1) by (intro exI [of _ "Suc n"]) simp
next
  case quiet
  then have "ids_inv n d'" using ids_inv_core d(2) by blast
  then show ?thesis by (intro exI [of _ n]) simp
next
  case refused
  then have "ids_inv n d'" using d(2) by blast
  then show ?thesis by (intro exI [of _ n]) simp
next
  case (progress w c st)
  then have "ids_inv n d'" using ids_inv_core ids_inv_stage [OF d(2)] by blast
  then show ?thesis by (intro exI [of _ n]) simp
next
  case (failed w c e)
  then have "ids_inv n d'" using ids_inv_core ids_inv_abandon [OF d(2)] by blast
  then show ?thesis by (intro exI [of _ n]) simp
next
  case (answered w c resp)
  then have "ids_inv n d'" using ids_inv_finish [OF d(2)] by blast
  then show ?thesis by (intro exI [of _ n]) simp
next
  case (response h body)
  then have "ids_inv n d'" using ids_inv_core ids_inv_accept [OF d(2)] by blast
  then show ?thesis by (intro exI [of _ n]) simp
qed

text \<open>Under these invariants the channel of a call is never closed.\<close>

lemma pending_listed: "hm_get m i = Some w \<Longrightarrow> list_ex (\<lambda>(k, x). x = w) m"
  using hm_get_Some_mem [of m i w] by (auto simp: list_ex_iff)

lemma await_not_closed:
  assumes "ids_inv n d" "hm_get (ad_calls d) r = Some c"
  shows "Return w (Err ChannelClosed) \<notin> set (snd (await_response r c elapsed d))"
proof (cases "hm_get (ad_inbox d) r")
  case None
  then have "list_ex (\<lambda>(k, x). x = r) (ad_pending d)" using assms pending_listed unfolding ids_inv_def by metis
  then show ?thesis using None by (simp add: await_response_def fail_call_def)
qed (simp add: await_response_def response_result_def)

lemma shared_not_closed: "Return w (Err ChannelClosed) \<notin> set (snd (shared_step ev d))"
  by (cases ev)
    (auto simp: handle_incoming_mqtt_def tcp_frame_def begin_request_def Let_def split: option.splits res.splits)

lemma call_not_closed:
  "ids_inv n d \<Longrightarrow> hm_get (ad_calls d) r = Some c \<Longrightarrow> Return w (Err ChannelClosed) \<notin> set (snd (call_step ev r c d))"
  using await_not_closed [of n d r c w]
  by (cases ev) (auto simp: publish_mqtt_def get_or_dial_tcp_peer_def dialed_def publish_tcp_def fail_call_def
      split: option.splits stage.splits sum.splits)

lemma step_not_closed: "ids_inv n d \<Longrightarrow> Return w (Err ChannelClosed) \<notin> set (snd (disp_step d ev))"
  using shared_not_closed call_not_closed by (auto simp: disp_step_def split: option.splits)

lemma run_ids:
  assumes "disp_inv d" "ids_inv n d" "n + length (filter is_send evs) < 2 ^ 32"
  shows "(\<exists>m. ids_inv m (fst (run_machine disp_step d evs))) \<and>
    Return w (Err ChannelClosed) \<notin> set (snd (run_machine disp_step d evs))"
  using assms
proof (induction evs arbitrary: d n)
  case (Cons ev evs)
  let ?d = "fst (disp_step d ev)"
  have e: "effect d ev ?d (snd (disp_step d ev))" using disp_step_effect by simp
  obtain m where m: "m \<le> n + (if is_send ev then 1 else 0)" "ids_inv m ?d"
    using ids_inv_effect [OF e Cons.prems(1,2)] Cons.prems(3) by auto
  then have "m + length (filter is_send evs) < 2 ^ 32" using Cons.prems(3) by (auto split: if_splits)
  from Cons.IH [OF disp_inv_effect [OF e Cons.prems(1)] m(2) this] show ?case
    using step_not_closed [OF Cons.prems(2)] by (simp only: fst_run_machine snd_run_machine set_append Un_iff) blast
qed auto

section \<open>Framing on TCP\<close>

lemma tcp_bodies_Cons:
  assumes "f \<noteq> []" "length f \<le> MAX_AMS_FRAME"
  shows "tcp_bodies (tcp_wire f @ rest) = f # tcp_bodies rest"
proof -
  have "length f < 2 ^ 32" using assms(2) by (simp add: MAX_AMS_FRAME_def AMS_HEADER_LEN_def MAX_AMS_PAYLOAD_def)
  then have u: "unat (of_nat (length f) :: u32) = length f" by (simp add: unat_of_nat)
  have "bytes_at 2 4 (tcp_wire f @ rest) = u32_to_le (of_nat (length f))"
    by (simp add: tcp_wire_def bytes_at_def)
  then have "unat (u32_from_le (bytes_at 2 4 (tcp_wire f @ rest))) = length f" using u by simp
  moreover have len: "length (tcp_wire f) = 6 + length f" by (simp add: tcp_wire_def)
  moreover have "drop (6 + length f) (tcp_wire f @ rest) = rest" by (simp flip: len)
  moreover have "take (length f) (drop 6 (tcp_wire f @ rest)) = f" by (simp add: tcp_wire_def)
  ultimately show ?thesis using assms by (subst tcp_bodies.simps) (simp add: Let_def)
qed

lemma tcp_bodies_concat:
  "list_all (\<lambda>f. f \<noteq> [] \<and> length f \<le> MAX_AMS_FRAME) frames \<Longrightarrow>
   tcp_bodies (concat (map tcp_wire frames) @ rest) = frames @ tcp_bodies rest"
  by (induction frames) (simp_all add: tcp_bodies_Cons)

section \<open>Properties\<close>

lemma source_effect:
  "effect d ev d' outs \<Longrightarrow> ad_source_net_id d' = ad_source_net_id d \<and> ad_source_port d' = ad_source_port d"
  by (erule effect_cases)
    (auto simp: core_eq set_stage_def abandon_def finish_def accept_response_def begin_request_def Let_def split: option.splits)

lemma source_run:
  "ad_source_net_id (fst (run_machine disp_step d evs)) = ad_source_net_id d \<and>
   ad_source_port (fst (run_machine disp_step d evs)) = ad_source_port d"
proof (induction evs arbitrary: d)
  case (Cons ev evs)
  have "effect d ev (fst (disp_step d ev)) (snd (disp_step d ev))" using disp_step_effect by simp
  from Cons [of "fst (disp_step d ev)"] source_effect [OF this] show ?case by (simp only: fst_run_machine)
qed simp

lemma new_inv: "disp_inv (dispatcher_new net port)" "ids_inv 0 (dispatcher_new net port)"
  by (simp_all add: disp_inv_def ids_inv_def dispatcher_new_def)

lemma run_inv: "disp_inv (fst (run_machine disp_step (dispatcher_new net port) evs))"
  using dispatcher.inv_run [OF new_inv(1)] by (simp add: list_all_iff)

lemma tracked_send:
  assumes "disp_inv d" "hm_get (ad_calls d) r = None" "disp_step d (Send r t p cmd pl to) = (d', outs)"
  shows "tracked (ad_source_net_id d) (ad_source_port d) {} (ad_invoke_counter d) r d' \<and> Return r (Ok a) \<notin> set outs"
proof -
  have "hm_get (ad_inbox d) r = None" using assms(1,2) unfolding disp_inv_def by force
  then show ?thesis
    using assms(2,3)
    by (auto simp: disp_step_def begin_request_def tracked_def Let_def hm.get_insert split: option.splits)
qed

text \<open>
  C19. An answer reaches the request it belongs to: when a request returns a payload, then after it was
  sent a response frame with exactly this payload, the invoke id the request was given and no error code
  arrived; on MQTT, where all peers share the response topics, it was addressed to this dispatcher.
  This holds for any number of concurrent requests over both transports, in any order of sending,
  dialing, answering and timing out.
\<close>

theorem answers_correlated:
  assumes "d = fst (run_machine disp_step (dispatcher_new net port) pre)"
    and "hm_get (ad_calls d) r = None"
    and "\<And>t p cmd pl to. Send r t p cmd pl to \<notin> set mid"
    and "Return r (Ok a) \<in> set (snd (run_machine disp_step d (Send r target tport cmd payload timeout # mid)))"
  shows "\<exists>ev \<in> set mid. \<exists>h. brings net port ev \<lparr>rf_header = h, rf_payload = a\<rparr> \<and>
    invoke_id h = ad_invoke_counter d \<and> error_code h = 0"
proof -
  obtain d' outs where s: "disp_step d (Send r target tport cmd payload timeout) = (d', outs)" by fastforce
  have inv: "disp_inv d" unfolding assms(1) by (rule run_inv)
  have src: "ad_source_net_id d = net" "ad_source_port d = port"
    unfolding assms(1) by (simp_all add: source_run dispatcher_new_def)
  have t: "tracked net port {} (ad_invoke_counter d) r d'" "Return r (Ok a) \<notin> set outs"
    using tracked_send [OF inv assms(2) s] by (simp_all add: src)
  have "Return r (Ok a) \<in> set (snd (run_machine disp_step d' mid))"
    using assms(4) s t(2) by (simp add: snd_run_machine del: run_machine.simps)
  then show ?thesis
    using run_result [OF disp_inv_effect [OF disp_step_effect [OF s] inv] t(1) assms(3)] by simp
qed

text \<open>
  C20. No answer is lost and nothing is leaked, as long as fewer than 2\<open>^\<close>32 requests were sent: every
  request in progress has its response or is still registered under its own invoke id, no
  request ever fails because its channel was closed, and only requests in progress are registered.
  When the response of a waiting request arrives on a TCP connection, the next look at its
  channel returns the result.
\<close>

theorem answers_not_lost:
  assumes "length (filter is_send evs) < 2 ^ 32"
    and "run_machine disp_step (dispatcher_new net port) evs = (d, outs)"
  shows "Return r (Err ChannelClosed) \<notin> set outs \<and>
    (\<forall>c. hm_get (ad_calls d) r = Some c \<longrightarrow>
       hm_get (ad_pending d) (cl_invoke_id c) = Some r \<or> hm_get (ad_inbox d) r \<noteq> None) \<and>
    (\<forall>i. hm_get (ad_pending d) i = Some r \<longrightarrow> (\<exists>c. hm_get (ad_calls d) r = Some c \<and> cl_invoke_id c = i)) \<and>
    (\<forall>c h p elapsed. hm_get (ad_calls d) r = Some c \<and> cl_stage c = Waiting \<and> hm_get (ad_inbox d) r = None \<and>
       is_response h \<and> invoke_id h = cl_invoke_id c \<longrightarrow>
       snd (disp_step (fst (disp_step d (TcpFrame (ams_header_serialize h @ p)))) (Poll r elapsed)) =
         [Return r (response_result \<lparr>rf_header = h, rf_payload = p\<rparr>)])"
proof -
  have "\<exists>m. ids_inv m d" and out: "Return r (Err ChannelClosed) \<notin> set outs"
    using run_ids [where evs = evs and w = r and d = "dispatcher_new net port", OF new_inv] assms by simp_all
  then obtain m where ids: "ids_inv m d" by blast
  have inv: "disp_inv d" using run_inv [of net port evs] assms(2) by simp
  have live: "hm_get (ad_pending d) (cl_invoke_id c) = Some r \<or> hm_get (ad_inbox d) r \<noteq> None"
    if "hm_get (ad_calls d) r = Some c" for c using ids that unfolding ids_inv_def by blast
  have listed: "\<exists>c. hm_get (ad_calls d) r = Some c \<and> cl_invoke_id c = i" if "hm_get (ad_pending d) i = Some r" for i
    using inv that unfolding disp_inv_def by blast
  have "snd (disp_step (fst (disp_step d (TcpFrame (ams_header_serialize h @ p)))) (Poll r elapsed)) =
      [Return r (response_result \<lparr>rf_header = h, rf_payload = p\<rparr>)]"
    if "hm_get (ad_calls d) r = Some c" "cl_stage c = Waiting" "hm_get (ad_inbox d) r = None" "is_response h"
      "invoke_id h = cl_invoke_id c" for c h p elapsed
  proof -
    have "hm_get (ad_pending d) (cl_invoke_id c) = Some r" using live [OF that(1)] that(3) by simp
    moreover have "ams_header_parse (ams_header_serialize h) = Ok h" using header.dec_append [of h "[]"] by simp
    ultimately show ?thesis
      using that by (simp add: disp_step_def tcp_frame_def AMS_HEADER_LEN_def accept_response_def await_response_def hm.get_insert)
  qed
  then show ?thesis using out live listed by blast
qed

definition demo_net :: ams_net_id where "demo_net = AmsNetId 5 1 2 3 1 1"

definition demo_reply :: "u8 list" where
  "demo_reply = build_ams_frame (AmsNetId 9 9 9 9 1 1) 30000 demo_net 851 2 5 1 [42]"

definition demo_calls :: "disp_event list" where
  "demo_calls = [Published 0 None, Dialed 0 (Inr 7), Written 0 None]"

definition demo_dispatcher :: ams_dispatcher where
  "demo_dispatcher =
     fst (run_machine disp_step (dispatcher_new (AmsNetId 9 9 9 9 1 1) 30000) [AddTcpPeer demo_net ''plc:48898''])"

lemma demo_state:
  "demo_dispatcher = \<lparr>ad_source_net_id = AmsNetId 9 9 9 9 1 1, ad_source_port = 30000,
     ad_routes = [(demo_net, KindTcp)], ad_pending = [], ad_invoke_counter = 1, ad_mqtt = None, ad_peers = [],
     ad_addrs = [(demo_net, ''plc:48898'')], ad_calls = [], ad_inbox = []\<rparr>"
  by (simp add: demo_dispatcher_def dispatcher_new_def routes_new_def disp_step_def add_tcp_peer_def
      learn_if_absent_def hm_insert_def)

lemma demo_reply_parse:
  "ams_header_parse (take 32 demo_reply) =
     Ok \<lparr>target_net_id = AmsNetId 9 9 9 9 1 1, target_port = 30000, source_net_id = demo_net, source_port = 851,
         command_id = 2, state_flags = 5, data_length = 1, error_code = 0, invoke_id = 1\<rparr>"
  "drop 32 demo_reply = [42]" "length demo_reply = 33"
proof -
  let ?h = "\<lparr>target_net_id = AmsNetId 9 9 9 9 1 1, target_port = 30000, source_net_id = demo_net, source_port = 851,
         command_id = 2, state_flags = 5, data_length = 1, error_code = 0, invoke_id = 1 :: u32\<rparr>"
  have r: "demo_reply = ams_header_serialize ?h @ [42]" by (simp add: demo_reply_def build_ams_frame_def)
  show "ams_header_parse (take 32 demo_reply) = Ok ?h" using header.dec_append [of ?h "[]"] by (simp add: r)
  show "drop 32 demo_reply = [42]" "length demo_reply = 33" by (simp_all add: r)
qed

lemma demo_answer:
  "Return 0 (Ok [42]) \<in> set (snd (run_machine disp_step demo_dispatcher
     (Send 0 demo_net 851 2 [1] 1000 # demo_calls @ [TcpFrame demo_reply, Poll 0 False])))"
  by (simp add: demo_state demo_calls_def disp_step_def begin_request_def route_get_def Let_def hm_get_def hm_insert_def
      hm_remove_def get_or_dial_tcp_peer_def set_stage_def dialed_def publish_tcp_def tcp_frame_def demo_reply_parse
      AMS_HEADER_LEN_def is_response_def AMS_STATE_RESPONSE_def accept_response_def await_response_def
      response_result_def finish_def)

theorem answers_correlated_witness:
  "\<exists>ev \<in> set (demo_calls @ [TcpFrame demo_reply, Poll 0 False]). \<exists>h.
     brings (AmsNetId 9 9 9 9 1 1) 30000 ev \<lparr>rf_header = h, rf_payload = [42]\<rparr> \<and> invoke_id h = 1 \<and> error_code h = 0"
proof -
  have "hm_get (ad_calls demo_dispatcher) 0 = None" "ad_invoke_counter demo_dispatcher = 1" by (simp_all add: demo_state)
  then show ?thesis
    using answers_correlated [OF demo_dispatcher_def, of 0 "demo_calls @ [TcpFrame demo_reply, Poll 0 False]" "[42]"]
      demo_answer by (simp add: demo_calls_def)
qed

theorem answers_not_lost_witness:
  "hm_get (ad_calls (fst (run_machine disp_step (dispatcher_new demo_net 1) [AddTcpPeer demo_net ''a'', Send 3 demo_net 851 2 [] 5]))) 3 \<noteq> None \<and>
   hm_get (ad_pending (fst (run_machine disp_step (dispatcher_new demo_net 1) [AddTcpPeer demo_net ''a'', Send 3 demo_net 851 2 [] 5]))) 1 = Some 3"
proof -
  let ?evs = "[AddTcpPeer demo_net ''a'', Send 3 demo_net 851 2 [] 5]"
  let ?d = "fst (run_machine disp_step (dispatcher_new demo_net 1) ?evs)"
  obtain c where c: "hm_get (ad_calls ?d) 3 = Some c" "cl_invoke_id c = 1" "hm_get (ad_inbox ?d) 3 = None"
    by (simp add: dispatcher_new_def routes_new_def disp_step_def add_tcp_peer_def learn_if_absent_def hm_insert_def
        begin_request_def route_get_def hm_get_def Let_def)
  have "length (filter is_send ?evs) < 2 ^ 32" by simp
  from answers_not_lost [where net = demo_net and port = 1 and r = 3, OF this surjective_pairing] c show ?thesis by auto
qed

text \<open>
  On a TCP connection the reader takes exactly the frames that were written, whatever
  follows them and however the requests were interleaved, and every request that is written is read
  back as its header and payload.
\<close>

theorem tcp_frames_delimited:
  assumes "list_all (\<lambda>f. f \<noteq> [] \<and> length f \<le> MAX_AMS_FRAME) frames"
  shows "tcp_bodies (concat (map tcp_wire frames) @ rest) = frames @ tcp_bodies rest \<and>
    (\<exists>h. ams_header_parse (build_ams_frame target tport source sport cmd flags invoke payload) = Ok h \<and>
       target_net_id h = target \<and> target_port h = tport \<and> source_net_id h = source \<and> source_port h = sport \<and>
       command_id h = cmd \<and> state_flags h = flags \<and> invoke_id h = invoke \<and> unat (data_length h) = length payload mod 2 ^ 32 \<and>
       drop AMS_HEADER_LEN (build_ams_frame target tport source sport cmd flags invoke payload) = payload)"
  using tcp_bodies_concat [OF assms]
  by (simp add: build_ams_frame_def header.dec_append AMS_HEADER_LEN_def unat_of_nat take_bit_eq_mod)

theorem tcp_frames_delimited_witness:
  "tcp_bodies (tcp_wire demo_reply @ tcp_wire demo_reply @ [0, 0, 1]) = [demo_reply, demo_reply]"
proof -
  have "demo_reply \<noteq> []" "length demo_reply \<le> MAX_AMS_FRAME"
    using demo_reply_parse(3) by (auto simp: MAX_AMS_FRAME_def AMS_HEADER_LEN_def MAX_AMS_PAYLOAD_def)
  then have "list_all (\<lambda>f. f \<noteq> [] \<and> length f \<le> MAX_AMS_FRAME) [demo_reply, demo_reply]" by simp
  moreover have "tcp_bodies [0, 0, 1] = []" by (subst tcp_bodies.simps) simp
  ultimately show ?thesis using tcp_frames_delimited [of "[demo_reply, demo_reply]" "[0, 0, 1]"] by simp
qed

end
