(* ===== verification/Transports.thy ===== *)
theory Transports
  imports Router Ams_Dispatcher
begin

text \<open>
  The receiving transports, \<^verbatim>\<open>tc-otel-ads/src/transport/\<close>: connections of the AMS/TCP server
  (\<^verbatim>\<open>tcp.rs\<close>), the client of the local AMS router (\<^verbatim>\<open>local_router.rs\<close>) and the MQTT transport
  (\<^verbatim>\<open>mqtt.rs\<close>). A connection is run on the bytes the peer sends until it closes or the read fails;
  all connections share the router, so \<open>others k\<close> is what the rest of the process does to it
  before frame \<open>k\<close> is dispatched, and \<open>writes k\<close> tells whether the answer to it can be written.
  The locale \<open>frame_server\<close> is what both byte streams promise: frames are served one by one.
\<close>

definition MAX_TCP_DATA :: nat where "MAX_TCP_DATA = 16 * 1048576"

record served =
  sv_result :: "unit ads_result"
  sv_written :: "u8 list list"
  sv_router :: ads_router
  sv_outs :: "dispatch_out list"

definition ended :: "unit ads_result \<Rightarrow> ads_router \<Rightarrow> served" where
  "ended r rt = \<lparr>sv_result = r, sv_written = [], sv_router = rt, sv_outs = []\<rparr>"

text \<open>The answer to a frame, in an AMS/TCP packet; an error of the router skips the frame.\<close>

definition answer_frame ::
    "router_env \<Rightarrow> ads_router \<Rightarrow> string option \<Rightarrow> u8 list \<Rightarrow> bool \<Rightarrow> (ads_router \<Rightarrow> served) \<Rightarrow> served" where
  "answer_frame E rt peer data writable continue =
     (case dispatch E rt data peer of
        Ok (Some response, rt', out) \<Rightarrow>
          if writable then
            (let s = continue rt' in s\<lparr>sv_written := tcp_wire response # sv_written s, sv_outs := out # sv_outs s\<rparr>)
          else (ended (Ok ()) rt')\<lparr>sv_outs := [out]\<rparr>
      | Ok (None, rt', out) \<Rightarrow> (let s = continue rt' in s\<lparr>sv_outs := out # sv_outs s\<rparr>)
      | Err e \<Rightarrow> continue rt
      | Panic \<Rightarrow> ended Panic rt)"

section \<open>The TCP server\<close>

text \<open>What a read past the received bytes returns: the end of the stream, or an error.\<close>

definition read_end :: "string option \<Rightarrow> unit ads_result" where
  "read_end fin = (case fin of None \<Rightarrow> Ok () | Some e \<Rightarrow> Err (IoError e))"

function handle_connection ::
    "router_env \<Rightarrow> string \<Rightarrow> string option \<Rightarrow> (nat \<Rightarrow> ads_router \<Rightarrow> ads_router) \<Rightarrow> (nat \<Rightarrow> bool) \<Rightarrow>
     nat \<Rightarrow> ads_router \<Rightarrow> u8 list \<Rightarrow> served" where
  "handle_connection E peer_ip fin others writes k rt bs =
     (if length bs < 6 then ended (read_end fin) rt
      else
        let reserved = u16_at 0 bs; data_len = unat (u32_at 2 bs) in
        if reserved \<noteq> 0 \<or> data_len = 0 \<or> MAX_TCP_DATA < data_len then ended (Ok ()) rt
        else if length bs - 6 < data_len then ended (read_end fin) rt
        else
          let data = take data_len (drop 6 bs); rest = drop (6 + data_len) bs in
          if length data < 32 then handle_connection E peer_ip fin others writes (Suc k) rt rest
          else answer_frame E (others k rt) (Some peer_ip) data (writes k)
                 (\<lambda>rt'. handle_connection E peer_ip fin others writes (Suc k) rt' rest))"
  by pat_completeness auto
termination
  by (relation "measure (\<lambda>(_, _, _, _, _, _, _, bs). length bs)") auto

declare handle_connection.simps [simp del]

definition build_udp_discovery_response :: "ams_net_id \<Rightarrow> u8 list" where
  "build_udp_discovery_response net_id =
     [0x03, 0x66, 0x14, 0x71] @ u32_to_le 24 @ net_id_bytes net_id @ u16_to_le 48898 @
     bytes_of_str ''tc-otel-rust'' @ replicate 4 0"

section \<open>The local router\<close>

definition AMS_TCP_CMD_ADS :: u16 where "AMS_TCP_CMD_ADS = 0"
definition AMS_TCP_CMD_PORT_CLOSE :: u16 where "AMS_TCP_CMD_PORT_CLOSE = 1"
definition AMS_TCP_CMD_PORT_CONNECT :: u16 where "AMS_TCP_CMD_PORT_CONNECT = 0x1000"
definition TC_OTEL_REGISTER_PORT :: u16 where "TC_OTEL_REGISTER_PORT = 16150"

definition make_amstcp_header :: "u16 \<Rightarrow> u32 \<Rightarrow> u8 list" where
  "make_amstcp_header cmd len = u16_to_le cmd @ u32_to_le len"

definition handshake_request :: "u16 \<Rightarrow> u8 list" where
  "handshake_request register_port = make_amstcp_header AMS_TCP_CMD_PORT_CONNECT 2 @ u16_to_le register_port"

definition pad4 :: "string \<Rightarrow> string" where
  "pad4 s = replicate (4 - length s) (CHR ''0'') @ s"

text \<open>\<open>eof\<close> is the error of a read past the received bytes.\<close>

definition handshake :: "string \<Rightarrow> u8 list \<Rightarrow> ((ams_net_id \<times> u16) \<times> u8 list) ads_result" where
  "handshake eof bs =
     (if length bs < 6 then Err (IoError eof)
      else
        let cmd = u16_at 0 bs; len = unat (u32_at 2 bs) in
        if cmd \<noteq> AMS_TCP_CMD_PORT_CONNECT then
          Err (BufferError (''PortConnect: unexpected response cmd 0x'' @ pad4 (show_hex (unat cmd))))
        else if len < 8 then Err (BufferError (''PortConnect: short response ('' @ show_nat len @ '' bytes)''))
        else if length bs - 6 < len then Err (IoError eof)
        else
          let body = take len (drop 6 bs) in
          Ok ((net_id_from_bytes (take 6 body), u16_at 6 body), drop (6 + len) bs))"

function frame_loop ::
    "router_env \<Rightarrow> string \<Rightarrow> string option \<Rightarrow> (nat \<Rightarrow> ads_router \<Rightarrow> ads_router) \<Rightarrow> (nat \<Rightarrow> bool) \<Rightarrow>
     nat \<Rightarrow> ads_router \<Rightarrow> u8 list \<Rightarrow> served" where
  "frame_loop E eof fin others writes k rt bs =
     (if length bs < 6 then ended (read_end fin) rt
      else
        let cmd = u16_at 0 bs; data_len = unat (u32_at 2 bs) in
        if MAX_TCP_DATA < data_len then ended (Ok ()) rt
        else if length bs - 6 < data_len
        then ended (Err (IoError (case fin of None \<Rightarrow> eof | Some e \<Rightarrow> e))) rt
        else
          let frame = take data_len (drop 6 bs); rest = drop (6 + data_len) bs in
          if cmd \<noteq> AMS_TCP_CMD_ADS \<or> length frame < 32 then frame_loop E eof fin others writes (Suc k) rt rest
          else answer_frame E (others k rt) None frame (writes k)
                 (\<lambda>rt'. frame_loop E eof fin others writes (Suc k) rt' rest))"
  by pat_completeness auto
termination
  by (relation "measure (\<lambda>(_, _, _, _, _, _, _, bs). length bs)") auto

declare frame_loop.simps [simp del]

text \<open>
  One session with the local router: what is written on the connection, the net id it reports, and how
  the frames were served. After a failed handshake the connection is dropped.
\<close>

definition local_session ::
    "router_env \<Rightarrow> string \<Rightarrow> u16 \<Rightarrow> string option \<Rightarrow> (nat \<Rightarrow> ads_router \<Rightarrow> ads_router) \<Rightarrow> (nat \<Rightarrow> bool) \<Rightarrow>
     ads_router \<Rightarrow> u8 list \<Rightarrow> (ams_net_id option \<times> u8 list list \<times> served)" where
  "local_session E eof register_port fin others writes rt bs =
     (case handshake eof bs of
        Ok ((net_id, assigned), rest) \<Rightarrow>
          (let s = frame_loop E eof fin others writes 0 rt rest in
           (Some net_id,
            [handshake_request register_port] @ sv_written s @
              (if sv_result s = Panic then [] else [make_amstcp_header AMS_TCP_CMD_PORT_CLOSE 0]), s))
      | Err e \<Rightarrow> (None, [handshake_request register_port], ended (Err e) rt)
      | Panic \<Rightarrow> (None, [handshake_request register_port], ended Panic rt))"

section \<open>MQTT\<close>

record mqtt_transport =
  mq_topic_prefix :: string
  mq_local_net_id :: ams_net_id

datatype mqtt_output =
    MqttSubscribe string
  | MqttPublish string bool "u8 list"

definition own_topic :: "mqtt_transport \<Rightarrow> string \<Rightarrow> string" where
  "own_topic T leaf = mq_topic_prefix T @ ''/'' @ show_net_id (mq_local_net_id T) @ leaf"

definition info_text :: "string \<Rightarrow> string" where
  "info_text online =
     ''<info><online name='' @ [CHR 0x22] @ ''tc-otel'' @ [CHR 0x22] @ '' unidirectional='' @ [CHR 0x22] @ ''true'' @ [CHR 0x22] @
     '' osVersion='' @ [CHR 0x22] @ ''0.0.0'' @ [CHR 0x22] @ '' osPlatform='' @ [CHR 0x22] @ ''0'' @ [CHR 0x22] @
     ''>'' @ online @ ''</online></info>''"

text \<open>The broker publishes the last will, retained, when the connection breaks.\<close>

definition last_will :: "mqtt_transport \<Rightarrow> mqtt_output" where
  "last_will T = MqttPublish (own_topic T ''/info'') True (bytes_of_str (info_text ''false''))"

definition mqtt_connected :: "mqtt_transport \<Rightarrow> mqtt_output list" where
  "mqtt_connected T =
     [MqttSubscribe (own_topic T ''/ams''),
      MqttPublish (own_topic T ''/info'') True (bytes_of_str (info_text ''true''))]"

definition mqtt_publish ::
    "router_env \<Rightarrow> mqtt_transport \<Rightarrow> ads_router \<Rightarrow> u8 list \<Rightarrow>
     (ads_error, mqtt_output list \<times> ads_router \<times> dispatch_out) res" where
  "mqtt_publish E T rt payload =
     (case dispatch E rt payload None of
        Ok (Some response, rt', out) \<Rightarrow>
          Ok ((if 14 \<le> length payload
               then [MqttPublish (mq_topic_prefix T @ ''/'' @ show_net_id (net_id_from_bytes (bytes_at 8 6 payload)) @ ''/ams/res'')
                       False response]
               else []), rt', out)
      | Ok (None, rt', out) \<Rightarrow> Ok ([], rt', out)
      | Err e \<Rightarrow> Ok ([], rt, no_out)
      | Panic \<Rightarrow> Panic)"

section \<open>Serving frames\<close>

definition answers :: "u8 list \<Rightarrow> u8 list \<Rightarrow> bool" where
  "answers f w \<longleftrightarrow> (\<exists>h response. w = tcp_wire response \<and> ams_header_parse f = Ok h \<and>
     ams_header_parse response = Ok (response_header h (length response - 32)))"

locale frame_server =
  fixes serve :: "nat \<Rightarrow> ads_router \<Rightarrow> u8 list \<Rightarrow> served"
    and fits :: "u8 list \<Rightarrow> bool"
  assumes serve_frame: "fits f \<Longrightarrow> \<exists>rt' w out. answers f w \<and>
      serve k rt (tcp_wire f @ rest) =
        (serve (Suc k) rt' rest)\<lparr>sv_written := w # sv_written (serve (Suc k) rt' rest),
                                 sv_outs := out # sv_outs (serve (Suc k) rt' rest)\<rparr>"
    and serve_end: "serve k rt [] = ended (Ok ()) rt"
begin

lemma serve_all:
  "list_all fits fs \<Longrightarrow> sv_result (serve k rt (concat (map tcp_wire fs))) = Ok () \<and>
     list_all2 answers fs (sv_written (serve k rt (concat (map tcp_wire fs)))) \<and>
     length (sv_outs (serve k rt (concat (map tcp_wire fs)))) = length fs"
proof (induction fs arbitrary: k rt)
  case Nil
  then show ?case by (simp add: serve_end ended_def)
next
  case (Cons f fs)
  obtain rt' w out where s: "answers f w" "serve k rt (tcp_wire f @ concat (map tcp_wire fs)) =
      (serve (Suc k) rt' (concat (map tcp_wire fs)))\<lparr>sv_written := w # sv_written (serve (Suc k) rt' (concat (map tcp_wire fs))),
         sv_outs := out # sv_outs (serve (Suc k) rt' (concat (map tcp_wire fs)))\<rparr>"
    using serve_frame [of f k rt "concat (map tcp_wire fs)"] Cons.prems by auto
  then show ?case using Cons.IH [of "Suc k" rt'] Cons.prems by simp
qed

end

definition fits_tcp :: "u8 list \<Rightarrow> bool" where
  "fits_tcp f \<longleftrightarrow> 32 \<le> length f \<and> length f \<le> MAX_TCP_DATA"

definition release :: "router_env \<Rightarrow> router_env" where
  "release E = E\<lparr>env_ext := (env_ext E)\<lparr>overflow_checks := False\<rparr>\<rparr>"

lemma release_id: "\<not> overflow_checks (env_ext E) \<Longrightarrow> release E = E"
  by (simp add: release_def)

lemma tcp_wire_parts:
  assumes "length f < 2 ^ 32"
  shows "u16_at 0 (tcp_wire f @ rest) = 0" "unat (u32_at 2 (tcp_wire f @ rest)) = length f"
    "length (tcp_wire f @ rest) - 6 = length f + length rest" "\<not> length (tcp_wire f @ rest) < 6"
    "take (length f) (drop 6 (tcp_wire f @ rest)) = f" "drop (6 + length f) (tcp_wire f @ rest) = rest"
proof -
  have "unat (of_nat (length f) :: u32) = length f" using assms by (simp add: unat_of_nat)
  then show "unat (u32_at 2 (tcp_wire f @ rest)) = length f"
    by (simp add: tcp_wire_def u32_at_def bytes_at_def)
  show "u16_at 0 (tcp_wire f @ rest) = 0"
    by (simp add: tcp_wire_def u16_at_def bytes_at_def u16_from_le_def)
  have len: "length (tcp_wire f) = 6 + length f" by (simp add: tcp_wire_def)
  then show "length (tcp_wire f @ rest) - 6 = length f + length rest" "\<not> length (tcp_wire f @ rest) < 6" by simp_all
  show "take (length f) (drop 6 (tcp_wire f @ rest)) = f" by (simp add: tcp_wire_def)
  show "drop (6 + length f) (tcp_wire f @ rest) = rest" by (simp flip: len)
qed

lemma answer_frame_answers:
  assumes "32 \<le> length f"
  shows "\<exists>rt' w out. answers f w \<and>
    (\<forall>continue. answer_frame (release E) rt peer f True continue =
       (continue rt')\<lparr>sv_written := w # sv_written (continue rt'), sv_outs := out # sv_outs (continue rt')\<rparr>)"
proof -
  obtain h where h: "ams_header_parse f = Ok h" using assms header.enc_dec [of f] by auto
  have "\<not> overflow_checks (env_ext (release E))" by (simp add: release_def)
  then obtain rt1 out1 where "handle_write (release E) rt h peer (drop 32 f) = Ok (rt1, out1)"
    using handle_write_yields by fast
  then obtain p rt' out where d: "dispatch (release E) rt f peer = Ok (Some (build_response h p), rt', out)"
    by (cases "command_id h = ADS_CMD_WRITE") (auto simp: dispatch_eq [OF h])
  have "length (build_response h p) - 32 = length p" by (metis length_drop parse_build_response(2))
  then have "answers f (tcp_wire (build_response h p))"
    unfolding answers_def using h parse_build_response(1) [of h p] by metis
  then show ?thesis using d by (fastforce simp: answer_frame_def Let_def)
qed

lemma fits_tcp_small: "fits_tcp f \<Longrightarrow> length f < 2 ^ 32 \<and> f \<noteq> []"
  by (auto simp: fits_tcp_def MAX_TCP_DATA_def)

lemma handle_connection_frame:
  assumes "fits_tcp f"
  shows "handle_connection E peer fin others writes k rt (tcp_wire f @ rest) =
    answer_frame E (others k rt) (Some peer) f (writes k) (\<lambda>rt'. handle_connection E peer fin others writes (Suc k) rt' rest)"
proof -
  have s: "length f < 2 ^ 32" "f \<noteq> []" using fits_tcp_small [OF assms] by auto
  show ?thesis
    using assms by (subst handle_connection.simps)
      (simp add: tcp_wire_parts [OF s(1)] Let_def fits_tcp_def s(2) del: length_append take_append drop_append)
qed

lemma frame_loop_frame:
  assumes "fits_tcp f"
  shows "frame_loop E eof fin others writes k rt (tcp_wire f @ rest) =
    answer_frame E (others k rt) None f (writes k) (\<lambda>rt'. frame_loop E eof fin others writes (Suc k) rt' rest)"
proof -
  have s: "length f < 2 ^ 32" using fits_tcp_small [OF assms] by auto
  show ?thesis
    using assms by (subst frame_loop.simps)
      (simp add: tcp_wire_parts [OF s] Let_def fits_tcp_def AMS_TCP_CMD_ADS_def del: length_append take_append drop_append)
qed

interpretation tcp_server: frame_server "handle_connection (release E) peer None others (\<lambda>_. True)" fits_tcp
proof
  fix f k rt and rest :: "u8 list" assume f: "fits_tcp f"
  show "\<exists>rt' w out. answers f w \<and>
      handle_connection (release E) peer None others (\<lambda>_. True) k rt (tcp_wire f @ rest) =
        (handle_connection (release E) peer None others (\<lambda>_. True) (Suc k) rt' rest)
          \<lparr>sv_written := w # sv_written (handle_connection (release E) peer None others (\<lambda>_. True) (Suc k) rt' rest),
           sv_outs := out # sv_outs (handle_connection (release E) peer None others (\<lambda>_. True) (Suc k) rt' rest)\<rparr>"
    using answer_frame_answers [of f E "others k rt" "Some peer"] f
    unfolding handle_connection_frame [OF f] fits_tcp_def by blast
qed (simp add: handle_connection.simps read_end_def)

interpretation local_router: frame_server "frame_loop (release E) eof None others (\<lambda>_. True)" fits_tcp
proof
  fix f k rt and rest :: "u8 list" assume f: "fits_tcp f"
  show "\<exists>rt' w out. answers f w \<and>
      frame_loop (release E) eof None others (\<lambda>_. True) k rt (tcp_wire f @ rest) =
        (frame_loop (release E) eof None others (\<lambda>_. True) (Suc k) rt' rest)
          \<lparr>sv_written := w # sv_written (frame_loop (release E) eof None others (\<lambda>_. True) (Suc k) rt' rest),
           sv_outs := out # sv_outs (frame_loop (release E) eof None others (\<lambda>_. True) (Suc k) rt' rest)\<rparr>"
    using answer_frame_answers [of f E "others k rt" None] f
    unfolding frame_loop_frame [OF f] fits_tcp_def by blast
qed (simp add: frame_loop.simps read_end_def)

section \<open>Route announcements\<close>

lemma starts_with_append: "starts_with p (p @ s)"
  by (simp add: starts_with_def)

lemma strip_prefix_append [simp]: "strip_prefix p (p @ s) = Some s"
  by (simp add: strip_prefix_def starts_with_append)

lemma split_once_append:
  assumes "c \<notin> set s"
  shows "split_once c (s @ c # rest) = Some (s, rest)"
proof -
  have "takeWhile (\<lambda>x. x \<noteq> c) (s @ c # rest) = s" using assms by (metis (mono_tags, lifting) takeWhile_append2 takeWhile.simps(2) append_Nil2)
  then show ?thesis by (simp add: split_once_def)
qed

lemma slash_notin_net_id: "CHR ''/'' \<notin> set (show_net_id n)"
proof (cases n)
  case (AmsNetId a b c d e f)
  have "CHR ''/'' \<notin> set (show_u8 x)" for x unfolding show_u8_def by (rule show_nat_no_low) simp
  then show ?thesis by (simp add: AmsNetId)
qed

lemma topic_net_id_own: "topic_net_id (own_topic T ''/info'') (mq_topic_prefix T) = Some (mq_local_net_id T)"
proof -
  have "strip_prefix ''/'' (''/'' @ show_net_id (mq_local_net_id T) @ ''/info'') = Some (show_net_id (mq_local_net_id T) @ ''/info'')"
    by (rule strip_prefix_append)
  moreover have "split_once CHR ''/'' (show_net_id (mq_local_net_id T) @ ''/info'') = Some (show_net_id (mq_local_net_id T), ''info'')"
    by (rule split_once_append [OF slash_notin_net_id])
  ultimately show ?thesis
    by (simp only: topic_net_id_def own_topic_def strip_prefix_append Option.bind.bind_lunit option.case prod.case
        net_id_from_show res.case)
qed

lemma ends_with_append: "ends_with p (s @ p)"
  by (simp add: ends_with_def)

lemma ends_withE:
  assumes "ends_with p s"
  obtains q where "s = q @ p"
  using assms append_take_drop_id [of "length s - length p" s] that unfolding ends_with_def by metis

lemma own_topic_info: "ends_with ''/info'' (own_topic T ''/info'')"
  unfolding own_topic_def append_assoc [symmetric] by (rule ends_with_append)

lemma info_text_ok: "str_ok (info_text ''true'')" "str_ok (info_text ''false'')"
  by (code_simp)+

lemma info_text_online:
  "parse_info_xml (bytes_of_str (info_text ''true'')) = Some True"
  "parse_info_xml (bytes_of_str (info_text ''false'')) = Some False"
proof -
  have "str_contains ''>true</online>'' (ascii_lower (info_text ''true''))" by code_simp
  then show "parse_info_xml (bytes_of_str (info_text ''true'')) = Some True"
    by (simp add: parse_info_xml_def info_text_ok)
  have "\<not> str_contains ''>true</online>'' (ascii_lower (info_text ''false''))" by code_simp
  moreover have "str_contains ''>false</online>'' (ascii_lower (info_text ''false''))" by code_simp
  ultimately show "parse_info_xml (bytes_of_str (info_text ''false'')) = Some False"
    by (simp add: parse_info_xml_def info_text_ok Let_def)
qed

section \<open>Properties\<close>

text \<open>
  C21. A peer that sends frames of 32 bytes to 16 MiB on a connection gets an answer to every one of
  them, in order, with swapped addresses, the same invoke id and its length, whatever the frames
  contain and whatever other connections do to the shared state in between. This holds for
  connections of the TCP server and for a session with the local router, which starts with the
  registration of the port and ends with its release; no build without overflow checks panics.
\<close>

theorem frames_served:
  assumes "\<not> overflow_checks (env_ext E)" "list_all fits_tcp frames"
    and "reply = make_amstcp_header AMS_TCP_CMD_PORT_CONNECT 8 @ net_id_bytes net_id @ u16_to_le assigned"
  shows "(\<forall>s. s = handle_connection E peer None others (\<lambda>_. True) 0 rt (concat (map tcp_wire frames)) \<longrightarrow>
      sv_result s = Ok () \<and> list_all2 answers frames (sv_written s) \<and> length (sv_outs s) = length frames) \<and>
    (\<exists>ws s. local_session E eof port None others (\<lambda>_. True) rt (reply @ concat (map tcp_wire frames)) =
        (Some net_id, [handshake_request port] @ ws @ [make_amstcp_header AMS_TCP_CMD_PORT_CLOSE 0], s) \<and>
      sv_result s = Ok () \<and> list_all2 answers frames ws)"
proof -
  have "handshake eof (reply @ concat (map tcp_wire frames)) =
      Ok ((net_id, assigned), concat (map tcp_wire frames))"
    by (cases net_id) (simp add: assms(3) handshake_def make_amstcp_header_def u16_at_def u32_at_def bytes_at_def
        AMS_TCP_CMD_PORT_CONNECT_def net_id_from_bytes_def Let_def)
  then show ?thesis
    using tcp_server.serve_all [where E = E and peer = peer and others = others and k = 0 and rt = rt, OF assms(2)]
      local_router.serve_all [where E = E and eof = eof and others = others and k = 0 and rt = rt, OF assms(2)]
    by (simp add: local_session_def Let_def release_id [OF assms(1)])
qed

text \<open>
  C23. The limits of the two readers differ: a frame with the largest payload the dispatcher allows is a frame
  for the dispatcher's own reader, but the TCP server and the client of the local router
  end the connection when they see its length, without an answer and without reading what follows.
\<close>

theorem full_frames_refused:
  assumes "MAX_TCP_DATA < length f" "length f \<le> MAX_AMS_FRAME"
  shows "handle_connection E peer fin others writes k rt (tcp_wire f @ rest) = ended (Ok ()) rt \<and>
    frame_loop E eof fin others writes k rt (tcp_wire f @ rest) = ended (Ok ()) rt \<and>
    tcp_bodies (tcp_wire f @ rest) = f # tcp_bodies rest"
proof -
  have s: "length f < 2 ^ 32" "f \<noteq> []"
    using assms by (auto simp: MAX_AMS_FRAME_def AMS_HEADER_LEN_def MAX_AMS_PAYLOAD_def MAX_TCP_DATA_def)
  show ?thesis
    using assms s(2) tcp_bodies_Cons [OF s(2) assms(2)]
    by (subst handle_connection.simps, subst frame_loop.simps)
      (simp add: tcp_wire_parts [OF s(1)] Let_def del: length_append)
qed

theorem full_frames_refused_witness:
  "MAX_TCP_DATA < length (replicate MAX_AMS_FRAME (0 :: u8)) \<and>
   sv_written (handle_connection sample_env ''10.0.0.1'' None (\<lambda>_ rt. rt) (\<lambda>_. True) 0 sample_router
     (tcp_wire (replicate MAX_AMS_FRAME 0) @ [])) = []"
proof -
  have h: "MAX_TCP_DATA < length (replicate MAX_AMS_FRAME (0 :: u8))" "length (replicate MAX_AMS_FRAME (0 :: u8)) \<le> MAX_AMS_FRAME"
    unfolding length_replicate by (simp_all add: MAX_AMS_FRAME_def AMS_HEADER_LEN_def MAX_AMS_PAYLOAD_def MAX_TCP_DATA_def)
  show ?thesis using h(1) unfolding full_frames_refused [OF h, THEN conjunct1] by (simp add: ended_def)
qed

theorem frames_served_witness:
  "list_all2 answers [ams_header_serialize write_header, ams_header_serialize write_header]
     (sv_written (handle_connection sample_env ''10.0.0.1'' None (\<lambda>_ rt. rt) (\<lambda>_. True) 0 sample_router
       (concat (map tcp_wire [ams_header_serialize write_header, ams_header_serialize write_header]))))"
proof -
  have "list_all fits_tcp [ams_header_serialize write_header, ams_header_serialize write_header]"
    by (simp add: fits_tcp_def MAX_TCP_DATA_def)
  from frames_served [OF sample_env_checks this refl, THEN conjunct1] show ?thesis by blast
qed

section \<open>A request over MQTT\<close>

lemma info_step:
  assumes "ad_mqtt d = Some (mq_topic_prefix T)"
  shows "fst (disp_step d (MqttMessage (own_topic T ''/info'') (bytes_of_str (info_text ''true'')))) =
      d\<lparr>ad_routes := hm_insert (mq_local_net_id T) KindMqtt (ad_routes d)\<rparr>"
    "fst (disp_step d (MqttMessage (own_topic T ''/info'') (bytes_of_str (info_text ''false'')))) =
      d\<lparr>ad_routes := hm_remove (mq_local_net_id T) (ad_routes d)\<rparr>"
  using assms
  by (simp_all add: disp_step_def handle_incoming_mqtt_def own_topic_info info_update_def topic_net_id_own
      info_text_online learn_def forget_def)

text \<open>The topic of a response is one the dispatcher takes frames from.\<close>

lemma response_topic:
  "\<not> ends_with ''/info'' (p @ ''/'' @ n @ ''/ams/res'')" "ends_with ''/ams/res'' (p @ ''/'' @ n @ ''/ams/res'')"
proof -
  show "ends_with ''/ams/res'' (p @ ''/'' @ n @ ''/ams/res'')"
    unfolding append_assoc [symmetric] by (rule ends_with_append)
  show "\<not> ends_with ''/info'' (p @ ''/'' @ n @ ''/ams/res'')"
  proof
    assume "ends_with ''/info'' (p @ ''/'' @ n @ ''/ams/res'')"
    then obtain q where "p @ ''/'' @ n @ ''/ams/res'' = q @ ''/info''" by (rule ends_withE)
    then have "last (p @ ''/'' @ n @ ''/ams/res'') = last (q @ ''/info'')" by (simp only:)
    then show False by simp
  qed
qed

lemma dispatch_frame:
  assumes "\<not> overflow_checks (env_ext E)" "ams_header_parse f = Ok h"
  shows "\<exists>p rt' out. dispatch E rt f peer = Ok (Some (build_response h p), rt', out)"
proof -
  obtain rt1 out1 where "handle_write E rt h peer (drop 32 f) = Ok (rt1, out1)"
    using handle_write_yields [OF assms(1)] by fast
  then show ?thesis by (cases "command_id h = ADS_CMD_WRITE") (auto simp: dispatch_eq [OF assms(2)])
qed

lemma source_of_frame:
  "bytes_at 8 6 (ams_header_serialize h @ p) = net_id_bytes (source_net_id h)"
  by (simp add: ams_header_serialize_def bytes_at_def)

lemma mqtt_answer:
  assumes "\<not> overflow_checks (env_ext E)"
  shows "\<exists>p rt' out. mqtt_publish E T rt (ams_header_serialize h @ pl) =
    Ok ([MqttPublish (mq_topic_prefix T @ ''/'' @ show_net_id (source_net_id h) @ ''/ams/res'') False (build_response h p)], rt', out)"
proof -
  have h: "ams_header_parse (ams_header_serialize h @ pl) = Ok h" by (rule header.dec_append)
  obtain p rt' out where "dispatch E rt (ams_header_serialize h @ pl) None = Ok (Some (build_response h p), rt', out)"
    using dispatch_frame [OF assms h] by blast
  then show ?thesis by (auto simp: mqtt_publish_def source_of_frame)
qed

lemma response_accepted:
  assumes "ad_mqtt d = Some pre" "ad_source_net_id d = source_net_id h" "ad_source_port d = source_port h"
    "hm_get (ad_pending d) (invoke_id h) = Some r"
    and topic: "t = pre @ ''/'' @ show_net_id (source_net_id h) @ ''/ams/res''"
  shows "\<exists>rts. disp_step d (MqttMessage t (build_response h p)) =
    (accept_response (response_header h (length p)) p (d\<lparr>ad_routes := rts\<rparr>), [])"
proof -
  let ?f = "build_response h p" and ?h = "response_header h (length p)"
  have f: "?f = ams_header_serialize ?h @ p"
    using parse_build_response [of h p] by (metis append_take_drop_id header.dec_Ok_iff)
  then have parse: "ams_header_parse (take AMS_HEADER_LEN ?f) = Ok ?h" "drop AMS_HEADER_LEN ?f = p"
    "\<not> length ?f < AMS_HEADER_LEN"
    using header.dec_append [of ?h "[]"] by (simp_all add: AMS_HEADER_LEN_def)
  have r: "is_response ?h" "target_net_id ?h = ad_source_net_id d" "target_port ?h = ad_source_port d"
    using assms by (simp_all add: is_response_def response_header_def AMS_STATE_RESPONSE_def)
  have t: "\<not> ends_with ''/info'' t" "ends_with ''/ams/res'' t" unfolding topic by (rule response_topic)+
  show ?thesis
  proof (cases "source_net_id ?h = ad_source_net_id d")
    case True
    then show ?thesis
      using assms(1) r
      by (intro exI [of _ "ad_routes d"]) (simp add: disp_step_def handle_incoming_mqtt_def t parse Let_def)
  next
    case False
    then show ?thesis
      using assms(1) r
      by (intro exI [of _ "snd (learn_if_absent (source_net_id ?h) KindMqtt (ad_routes d))"])
        (simp add: disp_step_def handle_incoming_mqtt_def t parse Let_def)
  qed
qed

lemma poll_accepted:
  assumes "hm_get (ad_calls d) r = Some c" "cl_stage c = Waiting" "hm_get (ad_pending d) (invoke_id h) = Some r"
    "error_code h = 0"
  shows "snd (disp_step (accept_response h p d) (Poll r elapsed)) = [Return r (Ok p)]"
  using assms by (simp add: disp_step_def accept_response_def await_response_def hm.get_insert response_result_def)

definition request_header :: "ams_dispatcher \<Rightarrow> ams_net_id \<Rightarrow> u16 \<Rightarrow> u16 \<Rightarrow> u8 list \<Rightarrow> ams_header" where
  "request_header d n port cmd payload =
     \<lparr>target_net_id = n, target_port = port, source_net_id = ad_source_net_id d, source_port = ad_source_port d,
      command_id = cmd, state_flags = 4, data_length = of_nat (length payload), error_code = 0,
      invoke_id = ad_invoke_counter d\<rparr>"

lemma mqtt_published:
  assumes "ad_mqtt d = Some (mq_topic_prefix T)" "hm_get (ad_calls d) r = None"
    "route_get (ad_routes d) (mq_local_net_id T) = Some KindMqtt"
    and h: "h = request_header d (mq_local_net_id T) port cmd payload"
  obtains d1 c where
    "run_machine disp_step d [Send r (mq_local_net_id T) port cmd payload timeout, Published r None] =
      (d1, [Publish (own_topic T ''/ams'') (ams_header_serialize h @ payload)])"
    "ad_mqtt d1 = Some (mq_topic_prefix T)" "ad_source_net_id d1 = source_net_id h" "ad_source_port d1 = source_port h"
    "hm_get (ad_pending d1) (invoke_id h) = Some r" "hm_get (ad_calls d1) r = Some c" "cl_stage c = Waiting"
proof -
  have f: "build_ams_frame (mq_local_net_id T) port (ad_source_net_id d) (ad_source_port d) cmd 4 (ad_invoke_counter d) payload =
      ams_header_serialize h @ payload"
    by (simp add: build_ams_frame_def request_header_def h)
  have "\<exists>d1 c. run_machine disp_step d [Send r (mq_local_net_id T) port cmd payload timeout, Published r None] =
      (d1, [Publish (own_topic T ''/ams'') (ams_header_serialize h @ payload)]) \<and>
    ad_mqtt d1 = ad_mqtt d \<and> ad_source_net_id d1 = ad_source_net_id d \<and> ad_source_port d1 = ad_source_port d \<and>
    hm_get (ad_pending d1) (ad_invoke_counter d) = Some r \<and> hm_get (ad_calls d1) r = Some c \<and> cl_stage c = Waiting"
    using assms(1-3) by (simp add: disp_step_def begin_request_def f Let_def hm.get_insert publish_mqtt_def
        set_stage_def outbound_topic_def own_topic_def)
  then show ?thesis using that assms(1) by (auto simp: h request_header_def)
qed

text \<open>
  C22. Peers on one broker find and answer each other: the announcement the transport publishes when it
  is connected makes a dispatcher with the same topic prefix learn the route, and its last will makes it
  forget it. A request that is then sent goes to the topic the transport subscribed, and the answer
  the transport publishes completes exactly this request with the payload of the router's response.
\<close>

theorem mqtt_request_answered:
  assumes "\<not> overflow_checks (env_ext E)" "ad_mqtt d = Some (mq_topic_prefix T)" "hm_get (ad_calls d) r = None"
    and "d0 = fst (disp_step d (MqttMessage (own_topic T ''/info'') (bytes_of_str (info_text ''true''))))"
    and "last_will T = MqttPublish will_topic True will"
  shows "mqtt_connected T = [MqttSubscribe (own_topic T ''/ams''), MqttPublish (own_topic T ''/info'') True (bytes_of_str (info_text ''true''))] \<and>
    route_get (ad_routes d0) (mq_local_net_id T) = Some KindMqtt \<and>
    route_get (ad_routes (fst (disp_step d0 (MqttMessage will_topic will)))) (mq_local_net_id T) = None \<and>
    (\<exists>d1 frame topic p h rt' out.
       run_machine disp_step d0 [Send r (mq_local_net_id T) port cmd payload timeout, Published r None] =
         (d1, [Publish (own_topic T ''/ams'') frame]) \<and>
       mqtt_publish E T rt frame = Ok ([MqttPublish topic False (build_response h p)], rt', out) \<and>
       ams_header_parse frame = Ok h \<and>
       snd (run_machine disp_step d1 [MqttMessage topic (build_response h p), Poll r elapsed]) = [Return r (Ok p)])"
proof -
  let ?n = "mq_local_net_id T"
  have d0: "d0 = d\<lparr>ad_routes := hm_insert ?n KindMqtt (ad_routes d)\<rparr>" unfolding assms(4) by (rule info_step(1) [OF assms(2)])
  have w: "will_topic = own_topic T ''/info''" "will = bytes_of_str (info_text ''false'')"
    using assms(5) by (simp_all add: last_will_def)
  have gone: "route_get (ad_routes (fst (disp_step d0 (MqttMessage will_topic will)))) ?n = None"
    unfolding w using assms(2) info_step(2) [of d0 T] by (simp add: d0 route_get_def hm_get_remove)
  have route: "route_get (ad_routes d0) ?n = Some KindMqtt" by (simp add: d0 route_get_def hm.get_insert)
  have m0: "ad_mqtt d0 = Some (mq_topic_prefix T)" "hm_get (ad_calls d0) r = None" using assms(2,3) by (simp_all add: d0)
  define h where "h = request_header d0 ?n port cmd payload"
  obtain d1 c where run: "run_machine disp_step d0 [Send r ?n port cmd payload timeout, Published r None] =
      (d1, [Publish (own_topic T ''/ams'') (ams_header_serialize h @ payload)])"
    and d1: "ad_mqtt d1 = Some (mq_topic_prefix T)" "ad_source_net_id d1 = source_net_id h" "ad_source_port d1 = source_port h"
    "hm_get (ad_pending d1) (invoke_id h) = Some r" "hm_get (ad_calls d1) r = Some c" "cl_stage c = Waiting"
    by (rule mqtt_published [OF m0 route h_def])
  define frame where "frame = ams_header_serialize h @ payload"
  obtain p rt' out where ans: "mqtt_publish E T rt frame =
      Ok ([MqttPublish (mq_topic_prefix T @ ''/'' @ show_net_id (source_net_id h) @ ''/ams/res'') False (build_response h p)], rt', out)"
    unfolding frame_def using mqtt_answer [OF assms(1)] by blast
  obtain rts where acc: "disp_step d1 (MqttMessage (mq_topic_prefix T @ ''/'' @ show_net_id (source_net_id h) @ ''/ams/res'') (build_response h p)) =
      (accept_response (response_header h (length p)) p (d1\<lparr>ad_routes := rts\<rparr>), [])"
    using response_accepted [OF d1(1-4) refl] by blast
  have "snd (disp_step (accept_response (response_header h (length p)) p (d1\<lparr>ad_routes := rts\<rparr>)) (Poll r elapsed)) = [Return r (Ok p)]"
    by (rule poll_accepted) (use d1 in \<open>simp_all add: response_header_def\<close>)
  then have "snd (run_machine disp_step d1 [MqttMessage (mq_topic_prefix T @ ''/'' @ show_net_id (source_net_id h) @ ''/ams/res'')
      (build_response h p), Poll r elapsed]) = [Return r (Ok p)]"
    using acc by (simp split: prod.splits)
  moreover have "ams_header_parse frame = Ok h" unfolding frame_def by (rule header.dec_append)
  ultimately show ?thesis using gone route run ans unfolding mqtt_connected_def frame_def by blast
qed

definition demo_transport :: mqtt_transport where
  "demo_transport = \<lparr>mq_topic_prefix = ''AdsOverMqtt'', mq_local_net_id = AmsNetId 10 0 0 5 1 1\<rparr>"

definition demo_mqtt_dispatcher :: ams_dispatcher where
  "demo_mqtt_dispatcher = (dispatcher_new demo_net 30000)\<lparr>ad_mqtt := Some ''AdsOverMqtt''\<rparr>"

theorem mqtt_request_answered_witness:
  "\<exists>d0 d1 frame topic p h rt' out.
     d0 = fst (disp_step demo_mqtt_dispatcher (MqttMessage (own_topic demo_transport ''/info'') (bytes_of_str (info_text ''true'')))) \<and>
     run_machine disp_step d0 [Send 0 (mq_local_net_id demo_transport) 16150 4 [] 1000, Published 0 None] =
       (d1, [Publish (own_topic demo_transport ''/ams'') frame]) \<and>
     mqtt_publish sample_env demo_transport sample_router frame = Ok ([MqttPublish topic False (build_response h p)], rt', out) \<and>
     snd (run_machine disp_step d1 [MqttMessage topic (build_response h p), Poll 0 False]) = [Return 0 (Ok p)]"
proof -
  have "ad_mqtt demo_mqtt_dispatcher = Some (mq_topic_prefix demo_transport)" "hm_get (ad_calls demo_mqtt_dispatcher) 0 = None"
    by (simp_all add: demo_mqtt_dispatcher_def demo_transport_def dispatcher_new_def)
  from mqtt_request_answered [OF sample_env_checks this refl last_will_def, of 16150 4 "[]" 1000 sample_router False]
  show ?thesis by blast
qed

end
