(* ===== verification/Spec2Isabelle.thy ===== *)
theory Spec2Isabelle
  imports Router Connection_Manager Span_Properties Config_Update Dispatcher Diagnostics_Poller Transports
begin

text \<open>
  A verification library for \<^verbatim>\<open>tc-otel\<close>, a service that receives logs, metrics, span events and
  runtime diagnostics from TwinCAT controllers over the ADS/AMS protocol and exports them as
  OpenTelemetry data. The program is a Rust workspace under \<^verbatim>\<open>src/crates\<close>; the path of a source
  file is given below without that prefix and the directory \<^verbatim>\<open>src\<close> of its crate.

  \<^bold>\<open>How the parts interact.\<close> A transport delivers AMS frames. The router (\<^verbatim>\<open>tc-otel-ads/router.rs\<close>)
  answers every frame and, for writes, hands the payload to the message parser or the push decoders,
  records task registrations, completes log entries with them and forwards logs, metrics, span
  events and diagnostics to channels. Span events are collected into spans by the span dispatcher,
  log entries are stamped with the open span of their task, messages are rendered from templates,
  metrics are renamed by configured definitions, and the records are exported. The settings of the
  service are checked, saved and watched while it runs; connections are admitted under limits.

  \<^bold>\<open>Foundations.\<close>
  \<^item> \<open>Prelude\<close>: machine integers, the outcome type \<open>res\<close> (\<open>Ok\<close>, \<open>Err\<close>, \<open>Panic\<close>), slices and
    little-endian bytes; \<open>Rust_Std\<close>: strings as byte lists, printing and parsing of integers;
    \<open>Utf8\<close>: the UTF-8 and UTF-16 decoders and string slices; \<open>Hash_Map\<close>: the interface
    \<open>hash_map\<close> and its interpretation on association lists; \<open>Transitions\<close>: reachability and
    invariants of step relations and of machines driven by inputs.

  \<^bold>\<open>Wire formats.\<close>
  \<^item> \<open>Ams\<close> models \<^verbatim>\<open>tc-otel-ads/ams.rs\<close>, \<^verbatim>\<open>frame.rs\<close> and \<^verbatim>\<open>error.rs\<close>: net ids, headers, write requests
    and frames, each with its parser and serializer. The contracts \<open>codec\<close> and \<open>fixed_codec\<close> are
    interpreted on them; frames and byte strings correspond one to one, and what the TCP variant does
    with trailing bytes is stated.
  \<^item> \<open>Protocol\<close> (\<^verbatim>\<open>protocol.rs\<close>), \<open>Reader\<close>, \<open>Values\<close>, \<open>Parser\<close>, \<open>Messages\<close>, \<open>Parse_All\<close>
    (\<^verbatim>\<open>parser.rs\<close>): the byte reader, typed values, one parser per message type, and the loop over a
    buffer with its recovery after malformed entries. The loop is a total function without
    fuel: its termination proof shows that every iteration that continues consumes a byte. It never panics in release builds, keeps what it decoded, and inverts the
    encoder of \<open>Wire\<close>, which also shows where an entry ends and that accepted span events can be
    encoded again. \<open>safe_reader\<close>, \<open>reader_codec\<close> and \<open>message_parser\<close> are the contracts of the
    parsers.
  \<^item> \<open>Diagnostics\<close> (\<^verbatim>\<open>diagnostics.rs\<close>) and \<open>Push\<close> (\<^verbatim>\<open>diagnostics_push.rs\<close>): decoders of observed polls
    and of pushed batches: no panic, consistency with the header, round trips.
  \<^item> \<open>Symbol\<close> (\<^verbatim>\<open>symbol.rs\<close>): symbol table upload; the table parser inverts the serializer and
    returns a bounded list on any input.

  \<^bold>\<open>Receiving.\<close>
  \<^item> \<open>Registry\<close> (\<^verbatim>\<open>registry.rs\<close>): the task registry, an instance of the contract \<open>metadata_store\<close>.
  \<^item> \<open>Router\<close> (\<^verbatim>\<open>router.rs\<close>): the dispatch of a frame; every frame is answered, what a write emits is
    exactly what it encodes, and a frame touches only registrations of its source.
  \<^item> \<open>Connection_Manager\<close> (\<^verbatim>\<open>connection_manager.rs\<close>): each operation, and a step relation that
    interleaves the atomic actions of concurrent calls; the limits and the rate are invariants.

  \<^bold>\<open>Processing.\<close>
  \<^item> \<open>Models\<close> (\<^verbatim>\<open>tc-otel-core/models.rs\<close>): entries, records and the conversions between them.
  \<^item> \<open>Span_Dispatcher\<close> and \<open>Span_Properties\<close> (\<^verbatim>\<open>tc-otel-service/span_dispatcher.rs\<close> and the log
    enrichment of \<^verbatim>\<open>service.rs\<close>): the dispatcher refines a single table of open spans, every span is
    exported exactly once, and the life of a span, the sweep, W3C contexts and the stamping of logs
    are specified.
  \<^item> \<open>Formatter\<close> (\<^verbatim>\<open>tc-otel-core/formatter.rs\<close>): message templates; the byte scanner is equivalent to
    a rendering of tokens.
  \<^item> \<open>Metric_Mapper\<close> (\<^verbatim>\<open>metric_mapper.rs\<close>, \<^verbatim>\<open>net.rs\<close>): metric definitions and the local address.

  \<^bold>\<open>Exporting.\<close>
  \<^item> \<open>Json_Lines\<close> (\<^verbatim>\<open>tc-otel-service/dispatcher.rs\<close>): log batches as JSON lines; no text can break out
    of its line or its literal.
  \<^item> \<open>Export\<close> (\<^verbatim>\<open>tc-otel-export/exporter.rs\<close>, \<^verbatim>\<open>error.rs\<close>): JSON payloads and sending, which ends after
    the retries the policy allows; \<open>Proto\<close> (\<^verbatim>\<open>proto_common.rs\<close>, \<^verbatim>\<open>logs_proto.rs\<close>,
    \<^verbatim>\<open>metrics_proto.rs\<close>, \<^verbatim>\<open>traces_proto.rs\<close>): protobuf requests, which carry every record exactly once
    under its own resource and scope, by the contract \<open>stable_grouping\<close> of the two groupings;
    \<open>Exporter\<close>: the export of batches, which succeeds only if the collector accepted the encoding.
  \<^item> \<open>Ads_Client\<close> (\<^verbatim>\<open>tc-otel-ads/ads_client.rs\<close>) and \<open>Scope_Resolver\<close>
    (\<^verbatim>\<open>tc-otel-service/scope_resolver.rs\<close>): the download of symbol tables, exact for a server that answers
    properly, and the resolver of scopes with its cache, which answers as the symbols of the code version
    would (contract \<open>scope_lookup\<close>).
  \<^item> \<open>Batch_Worker\<close> and \<open>Dispatcher\<close> (\<^verbatim>\<open>dispatcher.rs\<close>, \<^verbatim>\<open>trace_dispatcher.rs\<close>): the workers that collect
    batches, with the accounting of their records (contract \<open>batch_worker\<close>), the dispatch of log
    entries and metrics, and the way of a log entry through resolver, channel and worker.
  \<^item> \<open>Floats\<close> and \<open>Diagnostics_Bridge\<close> (\<^verbatim>\<open>diagnostics_bridge.rs\<close>, \<^verbatim>\<open>service.rs\<close>): diagnostic events as
    metric entries, with the conversions to \<^verbatim>\<open>f64\<close>; sample times stay in their window, every accepted
    push frame can be exported, and the drain task keeps the order.
  \<^item> \<open>Ams_Dispatcher\<close> (\<^verbatim>\<open>tc-otel-ads/dispatcher.rs\<close>): requests to controllers over MQTT and TCP as a machine
    over the events of all concurrent calls; answers reach the request they belong to and are not
    lost, frames on a connection are delimited exactly.
  \<^item> \<open>Transports\<close> (\<^verbatim>\<open>tc-otel-ads/transport/\<close>): connections of the TCP server, the client of the local router
    and the MQTT transport; both byte streams serve every frame that fits (contract
    \<open>frame_server\<close>), and a request over MQTT is answered.
  \<^item> \<open>Diagnostics_Poller\<close> (\<^verbatim>\<open>diagnostics_observer.rs\<close>, \<^verbatim>\<open>diagnostics_poller.rs\<close>): the polls of diagnostics
    and the observer that pairs them with their responses, with the bridge task of the service.

  \<^bold>\<open>Settings.\<close>
  \<^item> \<open>Config\<close> (\<^verbatim>\<open>tc-otel-core/config.rs\<close>, \<^verbatim>\<open>config_watcher.rs\<close>): the structs with their defaults and the
    checks, which accept exactly the valid settings; \<open>Config_Update\<close> (\<^verbatim>\<open>tc-otel-service/web.rs\<close>,
    \<^verbatim>\<open>config_watcher.rs\<close>): saving settings through the web form and following the file.

  \<^bold>\<open>Conventions.\<close> A struct is a \<open>record\<close>, an enum a \<open>datatype\<close>, a method a function on the state; a
  value that the code sends on a channel is an output. An unsigned integer is a \<open>word\<close> of its width, a
  \<open>usize\<close> a \<open>nat\<close> (lengths and offsets of buffers in memory), a signed integer an \<open>int\<close> whose
  wrap-around is written out, a float its bit pattern. Panics are results: of slices and indices out
  of range, of failing assertions, and of arithmetic overflow when the compiler setting
  \<open>overflow_checks\<close> is on. What the program takes from other crates (clocks, date formatting, JSON
  numbers, hexadecimal text, semaphores, the iteration order of hash maps) is an argument of the
  definitions; the documented behaviour a property relies on is one of its hypotheses, and its
  witness instantiates it.

  \<^bold>\<open>Not modelled.\<close> Sockets, the MQTT, HTTP and gRPC libraries, timers and the start and stop of tasks
  (the accept and reconnect loops of \<^verbatim>\<open>transport\<close>, \<^verbatim>\<open>listener.rs\<close>, \<^verbatim>\<open>grpc.rs\<close>, \<^verbatim>\<open>receiver.rs\<close>, \<^verbatim>\<open>main.rs\<close>,
  most of \<^verbatim>\<open>service.rs\<close>): they call operating system and library services and decide little
  themselves. The crate \<^verbatim>\<open>tc-otel-client\<close> walks tables of a third-party ADS crate. Statistics in floating-point
  arithmetic (\<^verbatim>\<open>cycle_time.rs\<close>) and counters of the process and the operating system
  (\<^verbatim>\<open>health_metrics.rs\<close>, \<^verbatim>\<open>mqtt_health_metrics.rs\<close>, \<^verbatim>\<open>system_metrics.rs\<close>) are left out, as are log output through
  the \<^verbatim>\<open>tracing\<close> crate, \<^verbatim>\<open>Display\<close> texts of errors and derived serialization.
\<close>

end
